(* ===== verification/Prelude.thy ===== *)
theory Prelude
  imports Main
begin

text \<open>
  Shared material of the development: the state-and-exception type in which the
  asynchronous methods of the service are written, the decimal rendering that
  JavaScript template literals apply to integral numbers, and list lemmas.
\<close>

named_theorems run_simps "evaluation of the state-and-exception combinators"

section \<open>Asynchronous methods: state passing with exceptions\<close>

text \<open>
  An \<open>async\<close> method either returns a value or throws, and in both cases keeps the
  effects performed so far: nothing is rolled back when a later statement throws.
\<close>

type_synonym ('s, 'e, 'a) run = "'s \<Rightarrow> ('e + 'a) \<times> 's"

definition returnR :: "'a \<Rightarrow> ('s, 'e, 'a) run" where
  "returnR a = (\<lambda>s. (Inr a, s))"

definition throwR :: "'e \<Rightarrow> ('s, 'e, 'a) run" where
  "throwR e = (\<lambda>s. (Inl e, s))"

definition bindR :: "('s, 'e, 'a) run \<Rightarrow> ('a \<Rightarrow> ('s, 'e, 'b) run) \<Rightarrow> ('s, 'e, 'b) run" where
  "bindR m k = (\<lambda>s. case m s of (Inl e, s') \<Rightarrow> (Inl e, s') | (Inr a, s') \<Rightarrow> k a s')"

definition catchR :: "('s, 'e, 'a) run \<Rightarrow> ('e \<Rightarrow> ('s, 'e, 'a) run) \<Rightarrow> ('s, 'e, 'a) run" where
  "catchR m h = (\<lambda>s. case m s of (Inl e, s') \<Rightarrow> h e s' | (Inr a, s') \<Rightarrow> (Inr a, s'))"

definition liftR :: "'e + 'a \<Rightarrow> ('s, 'e, 'a) run" where
  "liftR r = (\<lambda>s. (r, s))"

definition readR :: "('s \<Rightarrow> 'a) \<Rightarrow> ('s, 'e, 'a) run" where
  "readR f = (\<lambda>s. (Inr (f s), s))"

lemma returnR_apply [simp]: "returnR a s = (Inr a, s)"
  by (simp add: returnR_def)

lemma throwR_apply [simp]: "throwR e s = (Inl e, s)"
  by (simp add: throwR_def)

lemma liftR_apply [simp]: "liftR r s = (r, s)"
  by (simp add: liftR_def)

lemma readR_apply [simp]: "readR f s = (Inr (f s), s)"
  by (simp add: readR_def)

lemma bindR_apply [run_simps]:
  "bindR m k s = (case m s of (Inl e, s') \<Rightarrow> (Inl e, s') | (Inr a, s') \<Rightarrow> k a s')"
  by (simp add: bindR_def)

lemma catchR_apply [run_simps]:
  "catchR m h s = (case m s of (Inl e, s') \<Rightarrow> h e s' | (Inr a, s') \<Rightarrow> (Inr a, s'))"
  by (simp add: catchR_def)

lemma bindR_Inr: "m s = (Inr a, s') \<Longrightarrow> bindR m k s = k a s'"
  by (simp add: bindR_def)

lemma bindR_Inl: "m s = (Inl e, s') \<Longrightarrow> bindR m k s = (Inl e, s')"
  by (simp add: bindR_def)

lemma catchR_Inr: "m s = (Inr a, s') \<Longrightarrow> catchR m h s = (Inr a, s')"
  by (simp add: catchR_def)

lemma catchR_Inl: "m s = (Inl e, s') \<Longrightarrow> catchR m h s = h e s'"
  by (simp add: catchR_def)

lemma bindR_return [simp]: "bindR (returnR a) k = k a"
  by (simp add: bindR_def returnR_def)

lemma bindR_assoc: "bindR (bindR m k) l = bindR m (\<lambda>a. bindR (k a) l)"
  by (rule ext) (simp add: bindR_def split: prod.splits sum.splits)

lemma bindR_InrE:
  assumes "bindR m k s = (Inr b, s'')"
  obtains a s' where "m s = (Inr a, s')" and "k a s' = (Inr b, s'')"
  using assms by (auto simp: bindR_def split: prod.splits sum.splits)

text \<open>A statement list: run one action per element, left to right, stopping at a throw.\<close>

fun mapR :: "('x \<Rightarrow> ('s, 'e, 'a) run) \<Rightarrow> 'x list \<Rightarrow> ('s, 'e, 'a list) run" where
  "mapR f [] = returnR []"
| "mapR f (x # xs) = bindR (f x) (\<lambda>y. bindR (mapR f xs) (\<lambda>ys. returnR (y # ys)))"

lemma mapR_Cons_Inr:
  "f x s = (Inr y, s1) \<Longrightarrow> mapR f xs s1 = (r, s2) \<Longrightarrow>
   mapR f (x # xs) s = (case r of Inl e \<Rightarrow> (Inl e, s2) | Inr ys \<Rightarrow> (Inr (y # ys), s2))"
  by (simp add: bindR_def split: sum.split)

lemma mapR_returns: "(\<And>x s. x \<in> set xs \<Longrightarrow> f x s = (Inr x, s)) \<Longrightarrow> mapR f xs s = (Inr xs, s)"
  by (induction xs arbitrary: s) (simp_all add: bindR_Inr)

lemma mapR_list_all2:
  assumes "mapR f xs s = (Inr ys, s')"
    and "\<And>x s y s'. x \<in> set xs \<Longrightarrow> f x s = (Inr y, s') \<Longrightarrow> P x y"
  shows "list_all2 P xs ys"
  using assms
proof (induction xs arbitrary: s ys)
  case (Cons x xs)
  from Cons.prems(1) obtain y s1 ys' where
    "f x s = (Inr y, s1)" "mapR f xs s1 = (Inr ys', s')" "ys = y # ys'"
    by (auto elim!: bindR_InrE)
  with Cons.IH [of s1 ys'] Cons.prems(2) show ?case by simp
qed simp

text \<open>An action keeps a predicate on the state if it does so on every outcome, throws included.\<close>

named_theorems keeps_intros "preservation of state predicates"

definition keeps :: "('s \<Rightarrow> bool) \<Rightarrow> ('s, 'e, 'a) run \<Rightarrow> bool" where
  "keeps P m \<longleftrightarrow> (\<forall>s. P s \<longrightarrow> P (snd (m s)))"

lemma keepsD: "keeps P m \<Longrightarrow> P s \<Longrightarrow> m s = (res, s') \<Longrightarrow> P s'"
  unfolding keeps_def by (metis snd_conv)

lemma keeps_pure [keeps_intros]:
  "keeps P (returnR a)" "keeps P (throwR e)" "keeps P (liftR r)" "keeps P (readR f)"
  by (simp_all add: keeps_def)

lemma keeps_bind [keeps_intros]:
  "keeps P m \<Longrightarrow> (\<And>a. keeps P (k a)) \<Longrightarrow> keeps P (bindR m k)"
  unfolding keeps_def bindR_def by (auto split: prod.splits sum.splits)

lemma keeps_catch [keeps_intros]:
  "keeps P m \<Longrightarrow> (\<And>e. keeps P (h e)) \<Longrightarrow> keeps P (catchR m h)"
  unfolding keeps_def catchR_def by (auto split: prod.splits sum.splits)

lemma keeps_mapR [keeps_intros]: "(\<And>x. keeps P (f x)) \<Longrightarrow> keeps P (mapR f xs)"
  by (induction xs) (auto intro!: keeps_intros)

lemma keeps_cases [keeps_intros]:
  "(b \<Longrightarrow> keeps P m) \<Longrightarrow> (\<not> b \<Longrightarrow> keeps P n) \<Longrightarrow> keeps P (if b then m else n)"
  "(x = None \<Longrightarrow> keeps P m) \<Longrightarrow> (\<And>y. x = Some y \<Longrightarrow> keeps P (k y)) \<Longrightarrow>
   keeps P (case x of None \<Rightarrow> m | Some y \<Rightarrow> k y)"
  "(\<And>e. z = Inl e \<Longrightarrow> keeps P (h e)) \<Longrightarrow> (\<And>y. z = Inr y \<Longrightarrow> keeps P (k y)) \<Longrightarrow>
   keeps P (case z of Inl e \<Rightarrow> h e | Inr y \<Rightarrow> k y)"
  "(\<And>u v. w = (u, v) \<Longrightarrow> keeps P (l u v)) \<Longrightarrow> keeps P (case w of (u, v) \<Rightarrow> l u v)"
  "(xs = [] \<Longrightarrow> keeps P m) \<Longrightarrow> (\<And>u us. xs = u # us \<Longrightarrow> keeps P (l' u us)) \<Longrightarrow>
   keeps P (case xs of [] \<Rightarrow> m | u # us \<Rightarrow> l' u us)"
  by (simp_all split: option.split sum.split prod.split list.split)

section \<open>Decimal rendering of integral numbers\<close>

definition digitChar :: "nat \<Rightarrow> char" where
  "digitChar d = char_of (48 + d)"

fun showNat :: "nat \<Rightarrow> string" where
  "showNat n = (if n < 10 then [digitChar n] else showNat (n div 10) @ [digitChar (n mod 10)])"

declare showNat.simps [simp del]

lemmas showNat_code [code] = showNat.simps

definition showInt :: "int \<Rightarrow> string" where
  "showInt i = (if i < 0 then CHR ''-'' # showNat (nat (- i)) else showNat (nat i))"

definition digitVal :: "char \<Rightarrow> nat" where
  "digitVal c = of_char c - 48"

definition readNat :: "string \<Rightarrow> nat" where
  "readNat s = foldl (\<lambda>n c. 10 * n + digitVal c) 0 s"

definition isDigit :: "char \<Rightarrow> bool" where
  "isDigit c \<longleftrightarrow> 48 \<le> (of_char c :: nat) \<and> (of_char c :: nat) \<le> 57"

lemma of_char_digitChar: "d < 10 \<Longrightarrow> (of_char (digitChar d) :: nat) = 48 + d"
  by (simp add: digitChar_def)

lemma digitVal_digitChar [simp]: "d < 10 \<Longrightarrow> digitVal (digitChar d) = d"
  by (simp add: digitVal_def of_char_digitChar)

lemma isDigit_digitChar [simp]: "d < 10 \<Longrightarrow> isDigit (digitChar d)"
  by (simp add: isDigit_def of_char_digitChar)

lemma showNat_digits: "c \<in> set (showNat n) \<Longrightarrow> isDigit c"
proof (induction n rule: showNat.induct)
  case (1 n)
  then show ?case by (auto simp: showNat.simps [of n] split: if_splits)
qed

lemma showNat_nonempty [simp]: "showNat n \<noteq> []"
  by (subst showNat.simps) simp

lemma readNat_showNat [simp]: "readNat (showNat n) = n"
proof (induction n rule: showNat.induct)
  case (1 n)
  then show ?case
    by (cases "n < 10") (simp_all add: showNat.simps [of n] readNat_def)
qed

lemma showNat_inject [simp]: "showNat m = showNat n \<longleftrightarrow> m = n"
  by (metis readNat_showNat)

lemma not_isDigit [simp]: "\<not> isDigit (CHR ''-'')" "\<not> isDigit (CHR ''_'')" "\<not> isDigit (CHR '':'')"
  by (simp_all add: isDigit_def)

lemma showInt_inject [simp]: "showInt i = showInt j \<longleftrightarrow> i = j"
proof -
  have ne: "CHR ''-'' # xs \<noteq> showNat n" for xs n
    using showNat_digits [of "CHR ''-''" n] by (metis list.set_intros(1) not_isDigit(1))
  show ?thesis
    using ne [of "showNat (nat (- i))" "nat j"] ne [of "showNat (nat (- j))" "nat i"]
    by (auto simp: showInt_def)
qed

lemma showInt_no_underscore: "CHR ''_'' \<notin> set (showInt i)"
  using showNat_digits [of "CHR ''_''"] by (auto simp: showInt_def)

section \<open>Separators\<close>

text \<open>Splitting at the last separator is unique when the right part has none.\<close>

lemma append_sep_inject:
  assumes "c \<notin> set ys" and "c \<notin> set ys'"
  shows "xs @ c # ys = xs' @ c # ys' \<longleftrightarrow> xs = xs' \<and> ys = ys'"
proof
  assume eq: "xs @ c # ys = xs' @ c # ys'"
  then have "rev ys @ c # rev xs = rev ys' @ c # rev xs'"
    by (metis rev.simps(2) rev_append append_assoc append_Cons append_Nil)
  moreover have "takeWhile (\<lambda>x. x \<noteq> c) (rev zs @ c # rev ws) = rev zs"
    if "c \<notin> set zs" for zs ws
    using that by (subst takeWhile_append2) auto
  ultimately have "rev ys = rev ys'" using assms by metis
  with eq show "xs = xs' \<and> ys = ys'" by simp
qed simp

end
