(* ===== verification/Errors.thy ===== *)
theory Errors
  imports Prelude
begin

text \<open>
  Exceptions and their rendering: the numeric error codes (\<open>constant/error-code.enum.ts\<close>),
  the exception classes (\<open>exception/\<close>), the three exception filters (\<open>filter/\<close>) with the
  status table they share with the idempotency interceptor, and the response bodies
  (\<open>response/\<close>). An exception is a value; a filter is a function from the exception to
  the HTTP reply.
\<close>

named_theorems exn_defs "definitions of the exception classes"

section \<open>Error codes\<close>

datatype ErrorCode =
    AUTH_UNAUTHORIZED
  | AUTH_INVALID_PASSWORD
  | AUTH_INVALID_OAUTH_TOKEN
  | AUTH_REFRESH_TOKEN_REQUIRED
  | AUTH_INVALID_REFRESH_TOKEN
  | USER_NOT_FOUND
  | USER_ALREADY_EXISTS
  | USER_INFO_NOT_FOUND
  | USER_INFO_ALREADY_EXISTS
  | POST_NOT_FOUND
  | POST_LIKE_ALREADY_EXISTS
  | POST_LIKE_NOT_FOUND
  | COMMON_BAD_REQUEST
  | COMMON_UNAUTHORIZED
  | COMMON_NOT_FOUND
  | COMMON_NOT_ACCEPTABLE
  | COMMON_CONFLICT
  | COMMON_INTERNAL_ERROR
  | COMMON_SERVICE_UNAVAILABLE
  | COMMON_TOO_MANY_REQUESTS
  | IDEMPOTENCY_IN_PROGRESS
  | INVALID_ENCRYPTED_PARAMETER
  | INVALID_PAGE

primrec errorCodeNum :: "ErrorCode \<Rightarrow> int" where
  "errorCodeNum AUTH_UNAUTHORIZED = 10001"
| "errorCodeNum AUTH_INVALID_PASSWORD = 10002"
| "errorCodeNum AUTH_INVALID_OAUTH_TOKEN = 10003"
| "errorCodeNum AUTH_REFRESH_TOKEN_REQUIRED = 10004"
| "errorCodeNum AUTH_INVALID_REFRESH_TOKEN = 10005"
| "errorCodeNum USER_NOT_FOUND = 20001"
| "errorCodeNum USER_ALREADY_EXISTS = 20002"
| "errorCodeNum USER_INFO_NOT_FOUND = 20003"
| "errorCodeNum USER_INFO_ALREADY_EXISTS = 20004"
| "errorCodeNum POST_NOT_FOUND = 30001"
| "errorCodeNum POST_LIKE_ALREADY_EXISTS = 31001"
| "errorCodeNum POST_LIKE_NOT_FOUND = 31002"
| "errorCodeNum COMMON_BAD_REQUEST = 90001"
| "errorCodeNum COMMON_UNAUTHORIZED = 90002"
| "errorCodeNum COMMON_NOT_FOUND = 90003"
| "errorCodeNum COMMON_NOT_ACCEPTABLE = 90004"
| "errorCodeNum COMMON_CONFLICT = 90005"
| "errorCodeNum COMMON_INTERNAL_ERROR = 90006"
| "errorCodeNum COMMON_SERVICE_UNAVAILABLE = 90007"
| "errorCodeNum COMMON_TOO_MANY_REQUESTS = 90008"
| "errorCodeNum IDEMPOTENCY_IN_PROGRESS = 90009"
| "errorCodeNum INVALID_ENCRYPTED_PARAMETER = 91001"
| "errorCodeNum INVALID_PAGE = 91002"

datatype UserRole = ADMIN | USER

section \<open>Exceptions\<close>

text \<open>
  \<open>getResponse()\<close> of an \<open>HttpException\<close>: a string, or an object whose \<open>message\<close> property is
  a string, an array of strings, or something else.
\<close>

datatype httpResponse =
    RespString string
  | RespMessage string
  | RespMessages "string list"
  | RespOther

text \<open>
  The values the code throws or catches. \<open>BaseException\<close> carries the numeric code (a replayed
  failure takes it from a cached JSON number); \<open>EntityNotFoundError\<close> and \<open>QueryFailedError\<close> are
  the two TypeORM errors; every other \<open>Error\<close> has its class name and message.
\<close>

datatype exn =
    BaseException (errorCode: int) (message: string) (excValue: "string option")
  | HttpException nat httpResponse
  | EntityNotFoundError
  | QueryFailedError string
  | OtherError string string

definition mkBase :: "ErrorCode \<Rightarrow> string \<Rightarrow> exn" where
  "mkBase code msg = BaseException (errorCodeNum code) msg None"

definition UnexpectedCodeException :: "ErrorCode \<Rightarrow> string \<Rightarrow> string option \<Rightarrow> exn" where
  [exn_defs]: "UnexpectedCodeException code msg v = BaseException (errorCodeNum code) msg v"

definition AuthUnauthorizedException :: "string option \<Rightarrow> exn" where
  [exn_defs]: "AuthUnauthorizedException ctx =
     mkBase AUTH_UNAUTHORIZED (case ctx of None \<Rightarrow> ''Unauthorized'' | Some c \<Rightarrow> c)"

definition AuthInvalidPasswordException :: exn where
  [exn_defs]: "AuthInvalidPasswordException = mkBase AUTH_INVALID_PASSWORD ''Password does not match.''"

definition AuthInvalidOauthTokenException :: "string option \<Rightarrow> exn" where
  [exn_defs]: "AuthInvalidOauthTokenException detail =
     mkBase AUTH_INVALID_OAUTH_TOKEN (case detail of None \<Rightarrow> ''Invalid OAuth token.'' | Some d \<Rightarrow> d)"

definition AuthRefreshTokenRequiredException :: exn where
  [exn_defs]: "AuthRefreshTokenRequiredException =
     mkBase AUTH_REFRESH_TOKEN_REQUIRED ''Refresh token is required.''"

definition AuthInvalidRefreshTokenException :: "string option \<Rightarrow> exn" where
  [exn_defs]: "AuthInvalidRefreshTokenException ctx =
     mkBase AUTH_INVALID_REFRESH_TOKEN
       (case ctx of None \<Rightarrow> ''Invalid refresh token.'' | Some c \<Rightarrow> c)"

definition UserNotFoundException :: "string \<Rightarrow> exn" where
  [exn_defs]: "UserNotFoundException uid =
     mkBase USER_NOT_FOUND (''User does not exist! - ['' @ uid @ '']'')"

definition UserAlreadyExistsException :: "string \<Rightarrow> exn" where
  [exn_defs]: "UserAlreadyExistsException uid =
     mkBase USER_ALREADY_EXISTS (''User already exists. - ['' @ uid @ '']'')"

definition UserInfoNotFoundException :: "string \<Rightarrow> exn" where
  [exn_defs]: "UserInfoNotFoundException uid =
     mkBase USER_INFO_NOT_FOUND (''User does not exist! - ['' @ uid @ '']'')"

definition UserInfoAlreadyExistsException :: "string \<Rightarrow> exn" where
  [exn_defs]: "UserInfoAlreadyExistsException uid =
     mkBase USER_INFO_ALREADY_EXISTS (''UserInfo already exists. - ['' @ uid @ '']'')"

definition PostNotFoundException :: "int \<Rightarrow> exn" where
  [exn_defs]: "PostNotFoundException postId =
     mkBase POST_NOT_FOUND (''Post does not exist! - ['' @ showInt postId @ '']'')"

definition PostLikeAlreadyExistsException :: exn where
  [exn_defs]: "PostLikeAlreadyExistsException =
     mkBase POST_LIKE_ALREADY_EXISTS ''Post like already exists.''"

definition PostLikeNotFoundException :: exn where
  [exn_defs]: "PostLikeNotFoundException = mkBase POST_LIKE_NOT_FOUND ''Post like not found.''"

definition InvalidEncryptedParameterException :: exn where
  [exn_defs]: "InvalidEncryptedParameterException =
     mkBase INVALID_ENCRYPTED_PARAMETER ''Invalid encrypted parameter.''"

definition InvalidPageException :: "int \<Rightarrow> exn" where
  [exn_defs]: "InvalidPageException page =
     BaseException (errorCodeNum INVALID_PAGE)
       (''Invalid page number: '' @ showInt page @ ''. Page must be >= 1'') (Some (showInt page))"

definition IdempotencyInProgressException :: exn where
  [exn_defs]: "IdempotencyInProgressException =
     mkBase IDEMPOTENCY_IN_PROGRESS
       ''A request with the same Idempotency-Key is in progress.''"

definition IdempotentReplayException :: "int \<Rightarrow> string \<Rightarrow> exn" where
  [exn_defs]: "IdempotentReplayException code msg = BaseException code msg None"

text \<open>
  The framework's \<open>new BadRequestException(text)\<close>: status 400, and a response object whose
  \<open>message\<close> is the text.
\<close>

definition BadRequestException :: "string \<Rightarrow> exn" where
  "BadRequestException text = HttpException 400 (RespMessage text)"

section \<open>The status table and the message extraction\<close>

text \<open>A status without an entry reads \<open>undefined\<close>, here \<open>None\<close>.\<close>

definition HTTP_STATUS_TO_ERROR_CODE :: "nat \<Rightarrow> ErrorCode option" where
  "HTTP_STATUS_TO_ERROR_CODE status =
     (if status = 400 then Some COMMON_BAD_REQUEST
      else if status = 401 then Some COMMON_UNAUTHORIZED
      else if status = 404 then Some COMMON_NOT_FOUND
      else if status = 406 then Some COMMON_NOT_ACCEPTABLE
      else if status = 409 then Some COMMON_CONFLICT
      else if status = 429 then Some COMMON_TOO_MANY_REQUESTS
      else if status = 500 then Some COMMON_INTERNAL_ERROR
      else if status = 503 then Some COMMON_SERVICE_UNAVAILABLE
      else None)"

fun joinComma :: "string list \<Rightarrow> string" where
  "joinComma [] = ''''"
| "joinComma [m] = m"
| "joinComma (m # ms) = m @ '', '' @ joinComma ms"

fun extractHttpExceptionMessage :: "httpResponse \<Rightarrow> string" where
  "extractHttpExceptionMessage (RespString s) = s"
| "extractHttpExceptionMessage (RespMessages ms) = joinComma ms"
| "extractHttpExceptionMessage (RespMessage m) = m"
| "extractHttpExceptionMessage RespOther = ''''"

section \<open>Responses and filters\<close>

record BaseResponse =
  respCode :: int
  respMessage :: string

definition SuccessResponse :: BaseResponse where
  "SuccessResponse = \<lparr>respCode = 200, respMessage = ''Success!''\<rparr>"

definition FailureResponse :: "int \<Rightarrow> string \<Rightarrow> BaseResponse" where
  "FailureResponse code msg = \<lparr>respCode = code, respMessage = msg\<rparr>"

text \<open>What a filter puts on the wire: the HTTP status and the JSON body.\<close>

record httpReply =
  httpStatus :: nat
  replyBody :: BaseResponse

definition sendFailureResponse :: "int \<Rightarrow> string \<Rightarrow> httpReply" where
  "sendFailureResponse code msg = \<lparr>httpStatus = 200, replyBody = FailureResponse code msg\<rparr>"

definition mapToErrorCode :: "nat \<Rightarrow> ErrorCode" where
  "mapToErrorCode status =
     (case HTTP_STATUS_TO_ERROR_CODE status of
        None \<Rightarrow> COMMON_INTERNAL_ERROR
      | Some code \<Rightarrow> code)"

definition baseExceptionFilter :: "int \<Rightarrow> string \<Rightarrow> httpReply" where
  "baseExceptionFilter code msg = sendFailureResponse code msg"

definition httpExceptionFilter :: "nat \<Rightarrow> httpResponse \<Rightarrow> httpReply" where
  "httpExceptionFilter status response =
     sendFailureResponse (errorCodeNum (mapToErrorCode status)) (extractHttpExceptionMessage response)"

definition unhandledExceptionFilter :: httpReply where
  "unhandledExceptionFilter =
     sendFailureResponse (errorCodeNum COMMON_INTERNAL_ERROR) ''Internal Server Error!''"

text \<open>
  The filters are registered in the order unhandled, http, base, and tried in the reverse
  order: the first whose \<open>@Catch\<close> class matches handles the exception.
\<close>

fun handleException :: "exn \<Rightarrow> httpReply" where
  "handleException (BaseException code msg v) = baseExceptionFilter code msg"
| "handleException (HttpException status response) = httpExceptionFilter status response"
| "handleException EntityNotFoundError = unhandledExceptionFilter"
| "handleException (QueryFailedError m) = unhandledExceptionFilter"
| "handleException (OtherError n m) = unhandledExceptionFilter"

text \<open>The exceptions that have a filter of their own.\<close>

fun isHandled :: "exn \<Rightarrow> bool" where
  "isHandled (BaseException _ _ _) = True"
| "isHandled (HttpException _ _) = True"
| "isHandled _ = False"

lemmas filter_defs = baseExceptionFilter_def httpExceptionFilter_def unhandledExceptionFilter_def
  sendFailureResponse_def FailureResponse_def

section \<open>Facts about codes and replies\<close>

lemma errorCodeNum_inject [simp]: "errorCodeNum a = errorCodeNum b \<longleftrightarrow> a = b"
  by (cases a; cases b; simp)

text \<open>No failure code can be mistaken for the code of a success.\<close>

lemma errorCodeNum_bounds: "10001 \<le> errorCodeNum c" "errorCodeNum c \<le> 91002"
  by (cases c; simp)+

lemma handleException_status [simp]: "httpStatus (handleException e) = 200"
  by (cases e) (simp_all add: filter_defs)

lemma mapToErrorCode_common:
  "mapToErrorCode s \<in> {COMMON_BAD_REQUEST, COMMON_UNAUTHORIZED, COMMON_NOT_FOUND,
     COMMON_NOT_ACCEPTABLE, COMMON_CONFLICT, COMMON_TOO_MANY_REQUESTS,
     COMMON_INTERNAL_ERROR, COMMON_SERVICE_UNAVAILABLE}"
  by (simp add: mapToErrorCode_def HTTP_STATUS_TO_ERROR_CODE_def)

lemma handleException_unhandled:
  "\<not> isHandled e \<Longrightarrow> handleException e = unhandledExceptionFilter"
  by (cases e) simp_all

end
