(* ===== verification/Redis.thy ===== *)
theory Redis
  imports Errors
begin

text \<open>
  The Redis server and its client (ioredis) are not part of the repository: they are a
  parameter of the model, a record of the commands the source issues. The locales state what
  the source relies on, through an abstraction \<open>ent\<close> of the server's state: a map from keys to a
  value with an optional expiry instant (in milliseconds). A client command may reject (the
  connection failed); a rejected write either was or was not applied. Inside a Lua script the
  commands run atomically.
\<close>

section \<open>The commands\<close>

type_synonym 'v entry = "'v \<times> nat option"

record ('r, 'v) redis =
  redisGet :: "'r \<Rightarrow> nat \<Rightarrow> string \<Rightarrow> exn + 'v option"
  redisSetEx :: "'r \<Rightarrow> nat \<Rightarrow> string \<Rightarrow> 'v \<Rightarrow> nat \<Rightarrow> (exn + unit) \<times> 'r"
  redisEval :: "('r \<Rightarrow> int list \<times> 'r) \<Rightarrow> 'r \<Rightarrow> (exn + int list) \<times> 'r"
  callSetNxEx :: "'r \<Rightarrow> nat \<Rightarrow> string \<Rightarrow> 'v \<Rightarrow> nat \<Rightarrow> bool \<times> 'r"

text \<open>The commands of the counting script, on keys that hold integers.\<close>

record 'r redisCounters = "('r, int) redis" +
  callGet :: "'r \<Rightarrow> nat \<Rightarrow> string \<Rightarrow> int option"
  callIncr :: "'r \<Rightarrow> nat \<Rightarrow> string \<Rightarrow> int \<times> 'r"
  callPttl :: "'r \<Rightarrow> nat \<Rightarrow> string \<Rightarrow> int"
  callPexpire :: "'r \<Rightarrow> nat \<Rightarrow> string \<Rightarrow> nat \<Rightarrow> 'r"
  callSetPx :: "'r \<Rightarrow> nat \<Rightarrow> string \<Rightarrow> int \<Rightarrow> nat \<Rightarrow> 'r"

section \<open>What is live at an instant\<close>

definition liveEntry :: "(string \<Rightarrow> 'v entry option) \<Rightarrow> nat \<Rightarrow> string \<Rightarrow> 'v entry option" where
  "liveEntry m t k =
     (case m k of
        None \<Rightarrow> None
      | Some (v, None) \<Rightarrow> Some (v, None)
      | Some (v, Some d) \<Rightarrow> if t < d then Some (v, Some d) else None)"

definition live :: "(string \<Rightarrow> 'v entry option) \<Rightarrow> nat \<Rightarrow> string \<Rightarrow> 'v option" where
  "live m t k = map_option fst (liveEntry m t k)"

definition ttlMs :: "(string \<Rightarrow> 'v entry option) \<Rightarrow> nat \<Rightarrow> string \<Rightarrow> int" where
  "ttlMs m t k =
     (case liveEntry m t k of
        None \<Rightarrow> -2
      | Some (v, None) \<Rightarrow> -1
      | Some (v, Some d) \<Rightarrow> int d - int t)"

lemma liveEntry_upd_same [simp]:
  "liveEntry (m(k \<mapsto> (v, Some d))) t k = (if t < d then Some (v, Some d) else None)"
  by (simp add: liveEntry_def)

lemma liveEntry_upd_none [simp]: "liveEntry (m(k \<mapsto> (v, None))) t k = Some (v, None)"
  by (simp add: liveEntry_def)

lemma liveEntry_upd_other [simp]: "k' \<noteq> k \<Longrightarrow> liveEntry (m(k \<mapsto> e)) t k' = liveEntry m t k'"
  by (simp add: liveEntry_def)

lemma live_upd_same [simp]:
  "live (m(k \<mapsto> (v, Some d))) t k = (if t < d then Some v else None)"
  by (simp add: live_def)

lemma live_upd_other [simp]: "k' \<noteq> k \<Longrightarrow> live (m(k \<mapsto> e)) t k' = live m t k'"
  by (simp add: live_def)

lemma liveEntry_expires: "liveEntry m t k = None \<Longrightarrow> t \<le> t' \<Longrightarrow> liveEntry m t' k = None"
  by (auto simp: liveEntry_def split: option.splits if_splits)

lemma live_expires: "live m t k = None \<Longrightarrow> t \<le> t' \<Longrightarrow> live m t' k = None"
  by (simp add: live_def liveEntry_expires)

section \<open>The documented behaviour of the commands\<close>

locale redis_server =
  fixes R :: "('r, 'v, 'z) redis_scheme"
    and ent :: "'r \<Rightarrow> string \<Rightarrow> 'v entry option"
  assumes get_ok: "redisGet R r t k = Inr x \<Longrightarrow> x = live (ent r) t k"
    and setex_ok: "redisSetEx R r t k v secs = (Inr u, r') \<Longrightarrow>
      ent r' = (ent r)(k \<mapsto> (v, Some (t + 1000 * secs)))"
    and setex_err: "redisSetEx R r t k v secs = (Inl e, r') \<Longrightarrow>
      ent r' = ent r \<or> ent r' = (ent r)(k \<mapsto> (v, Some (t + 1000 * secs)))"
    and eval_ok: "redisEval R f r = (Inr ns, r') \<Longrightarrow> (ns, r') = f r"
    and eval_err: "redisEval R f r = (Inl e, r') \<Longrightarrow> r' = r \<or> r' = snd (f r)"
    and setnx_acquires: "callSetNxEx R r t k v secs = (b, r') \<Longrightarrow> b = (live (ent r) t k = None)"
    and setnx_state: "callSetNxEx R r t k v secs = (b, r') \<Longrightarrow>
      ent r' = (if b then (ent r)(k \<mapsto> (v, Some (t + 1000 * secs))) else ent r)"

locale redis_counters = redis_server R ent
  for R :: "('r, 'z) redisCounters_scheme" and ent +
  assumes cget: "callGet R r t k = live (ent r) t k"
    and incr_value: "callIncr R r t k = (n, r') \<Longrightarrow>
      n = (case live (ent r) t k of None \<Rightarrow> 1 | Some c \<Rightarrow> c + 1)"
    and incr_state: "callIncr R r t k = (n, r') \<Longrightarrow>
      ent r' = (ent r)(k \<mapsto> (n, case liveEntry (ent r) t k of None \<Rightarrow> None | Some (c, d) \<Rightarrow> d))"
    and pttl: "callPttl R r t k = ttlMs (ent r) t k"
    and pexpire: "liveEntry (ent r) t k = Some (v, d) \<Longrightarrow> 0 < ms \<Longrightarrow>
      ent (callPexpire R r t k ms) = (ent r)(k \<mapsto> (v, Some (t + ms)))"
    and setpx: "0 < ms \<Longrightarrow> ent (callSetPx R r t k v ms) = (ent r)(k \<mapsto> (v, Some (t + ms)))"

section \<open>A server that never fails\<close>

text \<open>
  The expiring map itself is a server: it shows that the laws can hold together, and it is the
  instance at which the properties of the components are exercised.
\<close>

type_synonym 'v memory = "string \<Rightarrow> 'v entry option"

definition memSetNx :: "'v memory \<Rightarrow> nat \<Rightarrow> string \<Rightarrow> 'v \<Rightarrow> nat \<Rightarrow> bool \<times> 'v memory" where
  "memSetNx m t k v secs =
     (if live m t k = None then (True, m(k \<mapsto> (v, Some (t + 1000 * secs)))) else (False, m))"

definition memRedis :: "('v memory, 'v) redis" where
  "memRedis =
     \<lparr>redisGet = (\<lambda>m t k. Inr (live m t k)),
      redisSetEx = (\<lambda>m t k v secs. (Inr (), m(k \<mapsto> (v, Some (t + 1000 * secs))))),
      redisEval = (\<lambda>f m. (Inr (fst (f m)), snd (f m))),
      callSetNxEx = memSetNx\<rparr>"

definition memIncr :: "int memory \<Rightarrow> nat \<Rightarrow> string \<Rightarrow> int \<times> int memory" where
  "memIncr m t k =
     (case liveEntry m t k of
        None \<Rightarrow> (1, m(k \<mapsto> (1, None)))
      | Some (c, d) \<Rightarrow> (c + 1, m(k \<mapsto> (c + 1, d))))"

definition memPexpire :: "int memory \<Rightarrow> nat \<Rightarrow> string \<Rightarrow> nat \<Rightarrow> int memory" where
  "memPexpire m t k ms =
     (case liveEntry m t k of None \<Rightarrow> m | Some (c, d) \<Rightarrow> m(k \<mapsto> (c, Some (t + ms))))"

definition memCounters :: "int memory redisCounters" where
  "memCounters =
     \<lparr>redisGet = (\<lambda>m t k. Inr (live m t k)),
      redisSetEx = (\<lambda>m t k v secs. (Inr (), m(k \<mapsto> (v, Some (t + 1000 * secs))))),
      redisEval = (\<lambda>f m. (Inr (fst (f m)), snd (f m))),
      callSetNxEx = memSetNx,
      callGet = live,
      callIncr = memIncr,
      callPttl = ttlMs,
      callPexpire = memPexpire,
      callSetPx = (\<lambda>m t k v ms. m(k \<mapsto> (v, Some (t + ms))))\<rparr>"

interpretation mem: redis_server memRedis "\<lambda>m. m"
  by unfold_locales (auto simp: memRedis_def memSetNx_def split: if_splits)

interpretation memc: redis_counters memCounters "\<lambda>m. m"
  by unfold_locales
    (auto simp: memCounters_def memSetNx_def memIncr_def memPexpire_def live_def
      split: if_splits option.splits)

end
