(* ===== verification/Utils.thy ===== *)
theory Utils
  imports Errors
begin

text \<open>
  The static helpers of \<open>utils/\<close>: pagination arithmetic, durations and the ids of the query
  cache, with the pagination bodies of \<open>blog/dto/\<close>. Page numbers and totals are integers (the
  query DTO admits no others), on which the double-precision quotient and \<open>Math.ceil\<close> of the source are exact.
\<close>

section \<open>Pagination\<close>

definition TAKE :: int where
  "TAKE = 20"

definition getSkip :: "int \<Rightarrow> exn + int" where
  "getSkip page = (if page < 1 then Inl (InvalidPageException page) else Inr ((page - 1) * TAKE))"

definition getLastPage :: "int \<Rightarrow> int" where
  "getLastPage totalRows = max 1 ((totalRows + TAKE - 1) div TAKE)"

record PaginationMetaDto =
  metaTotal :: int
  metaCurrentPage :: int
  metaLastPage :: int
  hasPreviousPage :: bool
  hasNextPage :: bool

definition newPaginationMetaDto :: "int \<Rightarrow> int \<Rightarrow> int \<Rightarrow> PaginationMetaDto" where
  "newPaginationMetaDto totalRows currentPage lastPage =
     \<lparr>metaTotal = totalRows, metaCurrentPage = currentPage, metaLastPage = lastPage,
      hasPreviousPage = (1 < currentPage), hasNextPage = (currentPage < lastPage)\<rparr>"

record 'a PaginationDto =
  pageData :: "'a list"
  paginationMeta :: PaginationMetaDto

definition toPaginationDto :: "'a list \<Rightarrow> int \<Rightarrow> int \<Rightarrow> exn + 'a PaginationDto" where
  "toPaginationDto data totalRows currentPage =
     (if currentPage < 1 then Inl (InvalidPageException currentPage)
      else
        (let lastPage = getLastPage totalRows; adjustedPage = min currentPage lastPage
         in Inr \<lparr>pageData = data,
                 paginationMeta = newPaginationMetaDto totalRows adjustedPage lastPage\<rparr>))"

text \<open>The rows of a page in an ordered list: the database applies \<open>skip\<close>, then \<open>take\<close>.\<close>

definition pageOf :: "int \<Rightarrow> 'a list \<Rightarrow> 'a list" where
  "pageOf page xs = take (nat TAKE) (drop (nat ((page - 1) * TAKE)) xs)"

lemma getLastPage_ge: "1 \<le> getLastPage totalRows"
  by (simp add: getLastPage_def)

lemma getLastPage_covers: "totalRows \<le> getLastPage totalRows * TAKE"
proof -
  have "20 * ((totalRows + 19) div 20) + (totalRows + 19) mod 20 = totalRows + 19" "(totalRows + 19) mod 20 < 20"
    by simp_all
  then have "totalRows \<le> 20 * ((totalRows + 19) div 20)" by linarith
  then show ?thesis by (simp add: getLastPage_def TAKE_def)
qed

lemma getLastPage_tight: "0 < totalRows \<Longrightarrow> (getLastPage totalRows - 1) * TAKE < totalRows"
proof -
  assume t: "0 < totalRows"
  have "20 * ((totalRows + 19) div 20) + (totalRows + 19) mod 20 = totalRows + 19" "0 \<le> (totalRows + 19) mod 20"
    by simp_all
  then have "20 * ((totalRows + 19) div 20) \<le> totalRows + 19" by linarith
  with t show ?thesis by (auto simp: getLastPage_def TAKE_def)
qed

lemma chunks_prefix: "concat (map (\<lambda>i. take n (drop (i * n) xs)) [0..<k]) = take (k * n) xs"
proof (induction k)
  case (Suc k)
  have "take (k * n) xs @ take n (drop (k * n) xs) = take (k * n + n) xs" by (simp add: take_add)
  with Suc show ?case by (simp add: add.commute)
qed simp

lemma pages_partition:
  assumes "getLastPage (int (length xs)) = int k"
  shows "concat (map (\<lambda>i. pageOf (int i + 1) xs) [0..<k]) = xs"
proof -
  have "int (length xs) \<le> int k * 20"
    using getLastPage_covers [of "int (length xs)"] assms by (simp add: TAKE_def)
  then have "length xs \<le> k * 20" by linarith
  moreover have "pageOf (int i + 1) xs = take 20 (drop (i * 20) xs)" for i
    by (simp add: pageOf_def TAKE_def nat_mult_distrib)
  ultimately show ?thesis by (simp add: chunks_prefix)
qed

section \<open>Durations in milliseconds\<close>

definition SECOND :: nat where
  "SECOND = 1000"

definition MINUTE :: nat where
  "MINUTE = 60 * SECOND"

definition HOUR :: nat where
  "HOUR = 60 * MINUTE"

definition getTicTimeHMS :: "nat \<Rightarrow> nat \<Rightarrow> nat \<Rightarrow> nat" where
  "getTicTimeHMS hour minute second = hour * HOUR + minute * MINUTE + second * SECOND"

definition getTicTimeMS :: "nat \<Rightarrow> nat \<Rightarrow> nat" where
  "getTicTimeMS minute second = minute * MINUTE + second * SECOND"

definition getTicTimeS :: "nat \<Rightarrow> nat" where
  "getTicTimeS second = second * SECOND"

lemmas time_defs = getTicTimeHMS_def getTicTimeMS_def getTicTimeS_def HOUR_def MINUTE_def SECOND_def

section \<open>Ids of cached queries\<close>

record PostPageDto =
  dtoPostUid :: string
  dtoPage :: int

definition getPostEntityListByPageCacheId :: "int \<Rightarrow> string" where
  "getPostEntityListByPageCacheId page = ''getPostEntityListByPage_'' @ showInt page"

definition getPostEntityListByPostPageDtoCacheId :: "PostPageDto \<Rightarrow> string" where
  "getPostEntityListByPostPageDtoCacheId dto =
     ''getPostEntityListByPostPageDto_'' @ dtoPostUid dto @ ''_'' @ showInt (dtoPage dto)"

definition getPostLikeEntityListCacheId :: "int \<Rightarrow> string" where
  "getPostLikeEntityListCacheId postId = ''PostLikeEntityList_'' @ showInt postId"

definition getUserInfoEntityCacheId :: "string \<Rightarrow> string" where
  "getUserInfoEntityCacheId uid = ''UserInfoEntity_'' @ uid"

definition getUserAuthEntityCacheId :: "string \<Rightarrow> string" where
  "getUserAuthEntityCacheId uid = ''UserAuthEntity_'' @ uid"

definition getUserSessionEntityCacheId :: "string \<Rightarrow> string" where
  "getUserSessionEntityCacheId uid = ''UserSessionEntity_'' @ uid"

lemmas cache_id_defs = getPostEntityListByPageCacheId_def getPostEntityListByPostPageDtoCacheId_def
  getPostLikeEntityListCacheId_def getUserInfoEntityCacheId_def getUserAuthEntityCacheId_def
  getUserSessionEntityCacheId_def

text \<open>What a cached query is about, and its id.\<close>

datatype cacheSubject =
    PostsPage int
  | UserPostsPage PostPageDto
  | LikesOfPost int
  | InfoOf string
  | AuthOf string
  | SessionOf string

fun cacheIdOf :: "cacheSubject \<Rightarrow> string" where
  "cacheIdOf (PostsPage page) = getPostEntityListByPageCacheId page"
| "cacheIdOf (UserPostsPage dto) = getPostEntityListByPostPageDtoCacheId dto"
| "cacheIdOf (LikesOfPost postId) = getPostLikeEntityListCacheId postId"
| "cacheIdOf (InfoOf uid) = getUserInfoEntityCacheId uid"
| "cacheIdOf (AuthOf uid) = getUserAuthEntityCacheId uid"
| "cacheIdOf (SessionOf uid) = getUserSessionEntityCacheId uid"

lemma userPage_inject:
  "u @ CHR ''_'' # showInt p = u' @ CHR ''_'' # showInt p' \<longleftrightarrow> u = u' \<and> p = p'"
  by (simp add: append_sep_inject showInt_no_underscore)

lemma cacheIdOf_inject [simp]: "cacheIdOf a = cacheIdOf b \<longleftrightarrow> a = b"
  by (cases a; cases b) (auto simp: cache_id_defs userPage_inject)

text \<open>TypeORM keeps the count of a paginated query under the id with a suffix.\<close>

definition countId :: "string \<Rightarrow> string" where
  "countId cid = cid @ ''-count''"

lemma last_showInt: "isDigit (last (showInt i))"
proof -
  have "isDigit (last (showNat n))" for n
    using showNat_digits [of "last (showNat n)" n] last_in_set [OF showNat_nonempty] by blast
  then show ?thesis by (auto simp: showInt_def)
qed

lemma showInt_nonempty [simp]: "showInt i \<noteq> []"
  by (simp add: showInt_def)

lemma countId_inject [simp]: "countId a = countId b \<longleftrightarrow> a = b"
  by (simp add: countId_def)

lemma cacheId_last:
  "isDigit (last (cacheIdOf (PostsPage p)))" "isDigit (last (cacheIdOf (UserPostsPage d)))"
  by (simp_all add: cache_id_defs last_showInt)

lemma countId_not_paged:
  "isDigit (last c) \<Longrightarrow> c \<noteq> countId c'"
  by (auto simp: countId_def isDigit_def)

text \<open>The paginated queries are the ones with a count.\<close>

fun isPaged :: "cacheSubject \<Rightarrow> bool" where
  "isPaged (PostsPage p) = True"
| "isPaged (UserPostsPage d) = True"
| "isPaged _ = False"

lemma countId_ne [simp]: "isPaged b \<Longrightarrow> cacheIdOf a \<noteq> countId (cacheIdOf b)"
proof (cases "isPaged a")
  case True
  then have "isDigit (last (cacheIdOf a))" using cacheId_last by (cases a) simp_all
  then show ?thesis by (rule countId_not_paged)
next
  case False
  moreover assume "isPaged b"
  ultimately show ?thesis by (cases a; cases b) (auto simp: cache_id_defs countId_def)
qed

section \<open>Properties\<close>

text \<open>Pagination loses and repeats nothing: for any ordered result, the pages from 1 to the last
  page, each taken with the \<open>skip\<close> and \<open>take\<close> the code sends to the database, concatenate to exactly
  that result; no page before the last page is short of its 20 rows, and the last page is empty
  only if the result is.\<close>

lemma pages_cover_result:
  "concat (map (\<lambda>i. pageOf (int i + 1) xs) [0..<nat (getLastPage (int (length xs)))]) = xs \<and>
   (\<forall>page. 1 \<le> page \<and> page < getLastPage (int (length xs)) \<longrightarrow> length (pageOf page xs) = 20) \<and>
   (xs \<noteq> [] \<longrightarrow> pageOf (getLastPage (int (length xs))) xs \<noteq> [])"
proof (intro conjI allI impI)
  let ?n = "int (length xs)"
  show "concat (map (\<lambda>i. pageOf (int i + 1) xs) [0..<nat (getLastPage ?n)]) = xs"
    using getLastPage_ge [of ?n] by (intro pages_partition) simp
  show "length (pageOf page xs) = 20" if "1 \<le> page \<and> page < getLastPage ?n" for page
  proof -
    have "0 < ?n" using that by (cases "?n = 0") (auto simp: getLastPage_def TAKE_def)
    from getLastPage_tight [OF this] that have "page * 20 < ?n" by (simp add: TAKE_def)
    moreover have "int (nat (page * 20 - 20)) = page * 20 - 20" using that by simp
    ultimately have "nat (page * 20 - 20) + 20 \<le> length xs" by linarith
    then show ?thesis by (simp add: pageOf_def TAKE_def left_diff_distrib)
  qed
  show "pageOf (getLastPage ?n) xs \<noteq> []" if "xs \<noteq> []"
  proof -
    from that have "0 < ?n" by simp
    from getLastPage_tight [OF this] getLastPage_ge [of ?n]
    have "nat ((getLastPage ?n - 1) * TAKE) < length xs" by (simp add: TAKE_def nat_less_iff)
    then show ?thesis by (simp add: pageOf_def TAKE_def)
  qed
qed

text \<open>The pagination metadata is consistent: for a page number of at least 1, the reported page lies
  between 1 and the last page, a previous page is announced exactly when the page is not the
  first, a next page exactly when it is not the last, and a page number below 1 is refused as
  an invalid page.\<close>

lemma pagination_meta_consistent:
  "case toPaginationDto data totalRows page of
     Inl e \<Rightarrow> page < 1 \<and> e = InvalidPageException page \<and> getSkip page = Inl e
   | Inr dto \<Rightarrow>
       (let m = paginationMeta dto in 1 \<le> page \<and> pageData dto = data \<and> metaTotal m = totalRows \<and>
         metaLastPage m = getLastPage totalRows \<and> 1 \<le> metaCurrentPage m \<and>
         metaCurrentPage m \<le> metaLastPage m \<and>
         hasPreviousPage m = (metaCurrentPage m \<noteq> 1) \<and>
         hasNextPage m = (metaCurrentPage m \<noteq> metaLastPage m))"
  using getLastPage_ge [of totalRows]
  by (auto simp: toPaginationDto_def newPaginationMetaDto_def getSkip_def Let_def)

text \<open>No two cached queries share a cache id, whatever characters user ids contain: a cached page,
  user page, like list, profile, account or session is never read in place of another, and the
  count entries TypeORM keeps beside the two paginated queries do not collide with any of them.\<close>

lemma cache_ids_distinct:
  "(cacheIdOf a = cacheIdOf b \<longleftrightarrow> a = b) \<and>
   (isPaged b \<longrightarrow> cacheIdOf a \<noteq> countId (cacheIdOf b))"
  by simp

end
