(* ===== verification/Orm.thy ===== *)
theory Orm
  imports Redis Utils
begin

text \<open>
  The persistent data: the entities (\<open>entities/\<close>), the schema of the migrations with its keys,
  unique indexes and foreign keys, and the operations of the TypeORM repositories and of its
  query cache that the code calls. TypeORM and MySQL are not part of the repository: the
  operations are a parameter, a record over an arbitrary state; the locale \<open>orm\<close> states that
  they behave, through an abstraction to tables and cache entries, as the reference database
  below, whose constraints are those of \<open>migrations/\<close>. The laws describe an available server;
  string comparison is exact, and rows of an unordered query come in the order of the table.
\<close>

section \<open>Entities\<close>

record UserAuthEntity =
  uaUid :: string
  uaPassword :: string
  uaSalt :: string
  uaSocialYN :: string
  uaRefreshToken :: string
  uaUserRole :: UserRole

record UserSessionEntity =
  seUid :: string
  seRefreshToken :: string
  seUserRole :: UserRole

record UserInfoEntity =
  uiUid :: string
  uiNickname :: string
  uiIntroduce :: string

record PostEntity =
  peId :: int
  peUid :: string
  peTitle :: string
  peWriteDatetime :: nat
  peContents :: string
  peHits :: int

record PostLikeEntity =
  plPostId :: int
  plUid :: string

text \<open>
  The columns an insert of a post gives, and the ones an update gives: an absent property is
  \<open>None\<close>, a property that is \<open>null\<close> is \<open>Some None\<close>.
\<close>

record newPost =
  npUid :: string
  npTitle :: string
  npContents :: string

record postPatch =
  patchTitle :: "string option option"
  patchContents :: "string option option"

section \<open>The reference database\<close>

datatype cachedRows =
    CachedSessions "UserSessionEntity list"
  | CachedInfos "UserInfoEntity list"
  | CachedPosts "PostEntity list"
  | CachedCount int
  | CachedLikes "PostLikeEntity list"

record dbState =
  userAuths :: "UserAuthEntity list"
  userInfos :: "UserInfoEntity list"
  posts :: "PostEntity list"
  postLikes :: "PostLikeEntity list"
  nextPostId :: int
  cacheOn :: bool
  queryCache :: "string \<Rightarrow> cachedRows entry option"

type_synonym 'a sql = "(dbState, exn, 'a) run"

definition duplicate :: exn where
  "duplicate = QueryFailedError ''ER_DUP_ENTRY''"

definition noParent :: exn where
  "noParent = QueryFailedError ''ER_NO_REFERENCED_ROW_2''"

definition hasChildren :: exn where
  "hasChildren = QueryFailedError ''ER_ROW_IS_REFERENCED_2''"

definition tooLong :: exn where
  "tooLong = QueryFailedError ''ER_DATA_TOO_LONG''"

definition notNull :: exn where
  "notNull = QueryFailedError ''ER_BAD_NULL_ERROR''"

lemmas sql_errors = duplicate_def noParent_def hasChildren_def tooLong_def notNull_def

text \<open>A \<open>text\<close> column holds 65535 bytes.\<close>

definition utf8Length :: "string \<Rightarrow> nat" where
  "utf8Length s = sum_list (map (\<lambda>c. if (of_char c :: nat) < 128 then 1 else 2) s)"

definition fitsUserAuth :: "UserAuthEntity \<Rightarrow> bool" where
  "fitsUserAuth r \<longleftrightarrow>
     length (uaUid r) \<le> 100 \<and> length (uaPassword r) \<le> 1000 \<and> length (uaSalt r) \<le> 50 \<and>
     length (uaSocialYN r) \<le> 1 \<and> length (uaRefreshToken r) \<le> 500"

definition fitsUserInfo :: "UserInfoEntity \<Rightarrow> bool" where
  "fitsUserInfo r \<longleftrightarrow>
     length (uiUid r) \<le> 100 \<and> length (uiNickname r) \<le> 100 \<and> length (uiIntroduce r) \<le> 500"

definition fitsPost :: "PostEntity \<Rightarrow> bool" where
  "fitsPost r \<longleftrightarrow>
     length (peUid r) \<le> 100 \<and> length (peTitle r) \<le> 500 \<and> utf8Length (peContents r) \<le> 65535"

definition hasAuth :: "dbState \<Rightarrow> string \<Rightarrow> bool" where
  "hasAuth db uid \<longleftrightarrow> uid \<in> uaUid ` set (userAuths db)"

definition hasPost :: "dbState \<Rightarrow> int \<Rightarrow> bool" where
  "hasPost db postId \<longleftrightarrow> postId \<in> peId ` set (posts db)"

subsection \<open>Statements on \<open>USER_AUTH\<close>\<close>

definition sqlInsertUserAuth :: "UserAuthEntity \<Rightarrow> unit sql" where
  "sqlInsertUserAuth row db =
     (if \<not> fitsUserAuth row then (Inl tooLong, db)
      else if hasAuth db (uaUid row) then (Inl duplicate, db)
      else (Inr (), db\<lparr>userAuths := userAuths db @ [row]\<rparr>))"

definition sqlExistUserAuth :: "string \<Rightarrow> bool sql" where
  "sqlExistUserAuth uid db = (Inr (hasAuth db uid), db)"

definition sqlFindUserAuth :: "string \<Rightarrow> UserAuthEntity sql" where
  "sqlFindUserAuth uid db =
     (case filter (\<lambda>r. uaUid r = uid) (userAuths db) of
        [] \<Rightarrow> (Inl EntityNotFoundError, db)
      | r # _ \<Rightarrow> (Inr r, db))"

definition sessionOf :: "UserAuthEntity \<Rightarrow> UserSessionEntity" where
  "sessionOf r = \<lparr>seUid = uaUid r, seRefreshToken = uaRefreshToken r, seUserRole = uaUserRole r\<rparr>"

definition setSession :: "UserSessionEntity \<Rightarrow> UserAuthEntity \<Rightarrow> UserAuthEntity" where
  "setSession ses r =
     r\<lparr>uaUid := seUid ses, uaRefreshToken := seRefreshToken ses, uaUserRole := seUserRole ses\<rparr>"

text \<open>The row is the one of the session's own user id, so the key does not change.\<close>

definition sqlUpdateUserAuth :: "UserSessionEntity \<Rightarrow> unit sql" where
  "sqlUpdateUserAuth ses db =
     (let hit = (\<lambda>r. uaUid r = seUid ses) in
      if \<not> list_all (\<lambda>r. hit r \<longrightarrow> fitsUserAuth (setSession ses r)) (userAuths db)
      then (Inl tooLong, db)
      else (Inr (), db\<lparr>userAuths := map (\<lambda>r. if hit r then setSession ses r else r) (userAuths db)\<rparr>))"

subsection \<open>The query cache\<close>

text \<open>
  A query with a cache option returns the rows stored under its id while they are live, and else
  runs and stores its rows, an empty result included. Without a configured cache the option is
  ignored. Rows of another query under the same id cannot occur (the ids are distinct) and count
  as a miss.
\<close>

definition cachedQuery ::
  "nat \<Rightarrow> string \<Rightarrow> nat \<Rightarrow> ('x \<Rightarrow> cachedRows) \<Rightarrow> (cachedRows \<Rightarrow> 'x option) \<Rightarrow> (dbState \<Rightarrow> 'x) \<Rightarrow> 'x sql" where
  "cachedQuery now cid millis wrap unwrap query db =
     (if \<not> cacheOn db then (Inr (query db), db)
      else (case Option.bind (live (queryCache db) now cid) unwrap of
        Some x \<Rightarrow> (Inr x, db)
      | None \<Rightarrow>
          (Inr (query db),
           db\<lparr>queryCache := (queryCache db)(cid \<mapsto> (wrap (query db), Some (now + millis)))\<rparr>)))"

definition sqlRemoveCached :: "string list \<Rightarrow> unit sql" where
  "sqlRemoveCached ids db =
     (Inr (), if cacheOn db then db\<lparr>queryCache := queryCache db |` (- set ids)\<rparr> else db)"

fun unSessions :: "cachedRows \<Rightarrow> UserSessionEntity list option" where
  "unSessions (CachedSessions xs) = Some xs"
| "unSessions _ = None"

fun unInfos :: "cachedRows \<Rightarrow> UserInfoEntity list option" where
  "unInfos (CachedInfos xs) = Some xs"
| "unInfos _ = None"

fun unPosts :: "cachedRows \<Rightarrow> PostEntity list option" where
  "unPosts (CachedPosts xs) = Some xs"
| "unPosts _ = None"

fun unCount :: "cachedRows \<Rightarrow> int option" where
  "unCount (CachedCount n) = Some n"
| "unCount _ = None"

fun unLikes :: "cachedRows \<Rightarrow> PostLikeEntity list option" where
  "unLikes (CachedLikes xs) = Some xs"
| "unLikes _ = None"

text \<open>\<open>findOneOrFail\<close>: the first row, or the not-found error; the cache keeps what was found.\<close>

definition orFail :: "'x list sql \<Rightarrow> 'x sql" where
  "orFail q = bindR q (\<lambda>rows. case rows of [] \<Rightarrow> throwR EntityNotFoundError | r # _ \<Rightarrow> returnR r)"

definition sqlFindSession :: "nat \<Rightarrow> string \<Rightarrow> string \<Rightarrow> nat \<Rightarrow> UserSessionEntity sql" where
  "sqlFindSession now uid cid millis =
     orFail (cachedQuery now cid millis CachedSessions unSessions
       (\<lambda>db. map sessionOf (filter (\<lambda>r. uaUid r = uid) (userAuths db))))"

subsection \<open>Statements on \<open>USER_INFO\<close>\<close>

definition sqlExistUserInfo :: "string \<Rightarrow> bool sql" where
  "sqlExistUserInfo uid db = (Inr (uid \<in> uiUid ` set (userInfos db)), db)"

definition sqlInsertUserInfo :: "UserInfoEntity \<Rightarrow> unit sql" where
  "sqlInsertUserInfo row db =
     (if \<not> fitsUserInfo row then (Inl tooLong, db)
      else if uiUid row \<in> uiUid ` set (userInfos db) \<or> uiNickname row \<in> uiNickname ` set (userInfos db)
      then (Inl duplicate, db)
      else if \<not> hasAuth db (uiUid row) then (Inl noParent, db)
      else (Inr (), db\<lparr>userInfos := userInfos db @ [row]\<rparr>))"

definition sqlFindUserInfo :: "nat \<Rightarrow> string \<Rightarrow> string \<Rightarrow> nat \<Rightarrow> UserInfoEntity sql" where
  "sqlFindUserInfo now uid cid millis =
     orFail (cachedQuery now cid millis CachedInfos unInfos
       (\<lambda>db. filter (\<lambda>r. uiUid r = uid) (userInfos db)))"

text \<open>Again the row of the entity's own user id.\<close>

definition sqlUpdateUserInfo :: "UserInfoEntity \<Rightarrow> unit sql" where
  "sqlUpdateUserInfo row db =
     (let hit = (\<lambda>r. uiUid r = uiUid row) in
      if \<not> list_ex hit (userInfos db) then (Inr (), db)
      else if \<not> fitsUserInfo row then (Inl tooLong, db)
      else if list_ex (\<lambda>r. \<not> hit r \<and> uiNickname r = uiNickname row) (userInfos db) then (Inl duplicate, db)
      else (Inr (), db\<lparr>userInfos := map (\<lambda>r. if hit r then row else r) (userInfos db)\<rparr>))"

definition sqlDeleteUserInfo :: "string \<Rightarrow> unit sql" where
  "sqlDeleteUserInfo uid db =
     (Inr (), db\<lparr>userInfos := filter (\<lambda>r. uiUid r \<noteq> uid) (userInfos db)\<rparr>)"

subsection \<open>Statements on \<open>POST\<close>\<close>

text \<open>The auto-increment value is spent even when the row is refused for its foreign key.\<close>

definition sqlInsertPost :: "nat \<Rightarrow> newPost \<Rightarrow> unit sql" where
  "sqlInsertPost now np db =
     (let row = \<lparr>peId = nextPostId db, peUid = npUid np, peTitle = npTitle np, peWriteDatetime = now,
                 peContents = npContents np, peHits = 0\<rparr> in
      if \<not> fitsPost row then (Inl tooLong, db)
      else if \<not> hasAuth db (npUid np) then (Inl noParent, db\<lparr>nextPostId := nextPostId db + 1\<rparr>)
      else (Inr (), db\<lparr>posts := posts db @ [row], nextPostId := nextPostId db + 1\<rparr>))"

text \<open>Rows of all users, or of one, newest id first.\<close>

definition orderedPosts :: "string option \<Rightarrow> dbState \<Rightarrow> PostEntity list" where
  "orderedPosts owner db =
     sort_key (\<lambda>p. - peId p)
       (case owner of None \<Rightarrow> posts db | Some uid \<Rightarrow> filter (\<lambda>p. peUid p = uid) (posts db))"

text \<open>\<open>findAndCount\<close> is two queries, each with its own cache entry.\<close>

definition sqlFindPosts ::
  "nat \<Rightarrow> string option \<Rightarrow> int \<Rightarrow> int \<Rightarrow> string \<Rightarrow> nat \<Rightarrow> (PostEntity list \<times> int) sql" where
  "sqlFindPosts now owner takeN skipN cid millis =
     bindR (cachedQuery now cid millis CachedPosts unPosts
              (\<lambda>db. take (nat takeN) (drop (nat skipN) (orderedPosts owner db)))) (\<lambda>rows.
     bindR (cachedQuery now (countId cid) millis CachedCount unCount
              (\<lambda>db. int (length (orderedPosts owner db)))) (\<lambda>n.
     returnR (rows, n)))"

definition sqlFindPost :: "int \<Rightarrow> PostEntity sql" where
  "sqlFindPost postId db =
     (case filter (\<lambda>p. peId p = postId) (posts db) of
        [] \<Rightarrow> (Inl EntityNotFoundError, db)
      | p # _ \<Rightarrow> (Inr p, db))"

definition patchPost :: "postPatch \<Rightarrow> PostEntity \<Rightarrow> PostEntity" where
  "patchPost patch p =
     p\<lparr>peTitle := (case patchTitle patch of Some (Some t) \<Rightarrow> t | _ \<Rightarrow> peTitle p),
       peContents := (case patchContents patch of Some (Some c) \<Rightarrow> c | _ \<Rightarrow> peContents p)\<rparr>"

definition sqlUpdatePost :: "int \<Rightarrow> string \<Rightarrow> postPatch \<Rightarrow> unit sql" where
  "sqlUpdatePost postId postUid patch db =
     (let hit = (\<lambda>p. peId p = postId \<and> peUid p = postUid) in
      if \<not> list_ex hit (posts db) then (Inr (), db)
      else if patchTitle patch = Some None \<or> patchContents patch = Some None then (Inl notNull, db)
      else if \<not> list_all (\<lambda>p. hit p \<longrightarrow> fitsPost (patchPost patch p)) (posts db) then (Inl tooLong, db)
      else (Inr (), db\<lparr>posts := map (\<lambda>p. if hit p then patchPost patch p else p) (posts db)\<rparr>))"

text \<open>The foreign key of \<open>POST_LIKE\<close> is \<open>ON DELETE NO ACTION\<close>: a liked post cannot be deleted.\<close>

definition sqlDeletePost :: "int \<Rightarrow> string \<Rightarrow> unit sql" where
  "sqlDeletePost postId postUid db =
     (let hit = (\<lambda>p. peId p = postId \<and> peUid p = postUid) in
      if list_ex hit (posts db) \<and> postId \<in> plPostId ` set (postLikes db) then (Inl hasChildren, db)
      else (Inr (), db\<lparr>posts := filter (\<lambda>p. \<not> hit p) (posts db)\<rparr>))"

subsection \<open>Statements on \<open>POST_LIKE\<close>\<close>

definition sqlExistPostLike :: "int \<Rightarrow> string \<Rightarrow> bool sql" where
  "sqlExistPostLike postId uid db =
     (Inr (list_ex (\<lambda>l. plPostId l = postId \<and> plUid l = uid) (postLikes db)), db)"

definition sqlFindPostLikes :: "nat \<Rightarrow> int \<Rightarrow> string \<Rightarrow> nat \<Rightarrow> PostLikeEntity list sql" where
  "sqlFindPostLikes now postId cid millis =
     cachedQuery now cid millis CachedLikes unLikes
       (\<lambda>db. filter (\<lambda>l. plPostId l = postId) (postLikes db))"

definition sqlFindPostLikesIn :: "int list \<Rightarrow> PostLikeEntity list sql" where
  "sqlFindPostLikesIn postIds db =
     (Inr (filter (\<lambda>l. plPostId l \<in> set postIds) (postLikes db)), db)"

definition sqlInsertPostLike :: "PostLikeEntity \<Rightarrow> unit sql" where
  "sqlInsertPostLike row db =
     (if 100 < length (plUid row) then (Inl tooLong, db)
      else if row \<in> set (postLikes db) then (Inl duplicate, db)
      else if \<not> hasPost db (plPostId row) \<or> \<not> hasAuth db (plUid row) then (Inl noParent, db)
      else (Inr (), db\<lparr>postLikes := postLikes db @ [row]\<rparr>))"

definition sqlDeletePostLike :: "int \<Rightarrow> string \<Rightarrow> unit sql" where
  "sqlDeletePostLike postId uid db =
     (Inr (), db\<lparr>postLikes := filter (\<lambda>l. \<not> (plPostId l = postId \<and> plUid l = uid)) (postLikes db)\<rparr>)"

section \<open>The operations the code calls\<close>

text \<open>The four repositories and \<open>DataSource.queryResultCache\<close>, over a state \<open>'d\<close>.\<close>

record 'd ormOps =
  insertUserAuth :: "UserAuthEntity \<Rightarrow> ('d, exn, unit) run"
  existUserAuth :: "string \<Rightarrow> ('d, exn, bool) run"
  findUserAuth :: "string \<Rightarrow> ('d, exn, UserAuthEntity) run"
  findSession :: "nat \<Rightarrow> string \<Rightarrow> string \<Rightarrow> nat \<Rightarrow> ('d, exn, UserSessionEntity) run"
  updateUserAuth :: "UserSessionEntity \<Rightarrow> ('d, exn, unit) run"
  removeCached :: "string list \<Rightarrow> ('d, exn, unit) run"
  existUserInfo :: "string \<Rightarrow> ('d, exn, bool) run"
  insertUserInfo :: "UserInfoEntity \<Rightarrow> ('d, exn, unit) run"
  findUserInfo :: "nat \<Rightarrow> string \<Rightarrow> string \<Rightarrow> nat \<Rightarrow> ('d, exn, UserInfoEntity) run"
  updateUserInfo :: "UserInfoEntity \<Rightarrow> ('d, exn, unit) run"
  deleteUserInfo :: "string \<Rightarrow> ('d, exn, unit) run"
  insertPost :: "nat \<Rightarrow> newPost \<Rightarrow> ('d, exn, unit) run"
  findPosts :: "nat \<Rightarrow> string option \<Rightarrow> int \<Rightarrow> int \<Rightarrow> string \<Rightarrow> nat \<Rightarrow>
    ('d, exn, PostEntity list \<times> int) run"
  findPost :: "int \<Rightarrow> ('d, exn, PostEntity) run"
  updatePostRow :: "int \<Rightarrow> string \<Rightarrow> postPatch \<Rightarrow> ('d, exn, unit) run"
  deletePostRow :: "int \<Rightarrow> string \<Rightarrow> ('d, exn, unit) run"
  existPostLike :: "int \<Rightarrow> string \<Rightarrow> ('d, exn, bool) run"
  findPostLikes :: "nat \<Rightarrow> int \<Rightarrow> string \<Rightarrow> nat \<Rightarrow> ('d, exn, PostLikeEntity list) run"
  findPostLikesIn :: "int list \<Rightarrow> ('d, exn, PostLikeEntity list) run"
  insertPostLike :: "PostLikeEntity \<Rightarrow> ('d, exn, unit) run"
  deletePostLike :: "int \<Rightarrow> string \<Rightarrow> ('d, exn, unit) run"

definition sqlDb :: "dbState ormOps" where
  "sqlDb =
     \<lparr>insertUserAuth = sqlInsertUserAuth, existUserAuth = sqlExistUserAuth,
      findUserAuth = sqlFindUserAuth, findSession = sqlFindSession,
      updateUserAuth = sqlUpdateUserAuth, removeCached = sqlRemoveCached,
      existUserInfo = sqlExistUserInfo, insertUserInfo = sqlInsertUserInfo,
      findUserInfo = sqlFindUserInfo, updateUserInfo = sqlUpdateUserInfo,
      deleteUserInfo = sqlDeleteUserInfo, insertPost = sqlInsertPost,
      findPosts = sqlFindPosts, findPost = sqlFindPost,
      updatePostRow = sqlUpdatePost, deletePostRow = sqlDeletePost,
      existPostLike = sqlExistPostLike, findPostLikes = sqlFindPostLikes,
      findPostLikesIn = sqlFindPostLikesIn, insertPostLike = sqlInsertPostLike,
      deletePostLike = sqlDeletePostLike\<rparr>"

text \<open>
  Simulation: the concrete action returns what the reference action returns on the abstract
  state, and its final state abstracts to the reference's. It is kept by the combinators, so a
  method over any database simulates the same method over the reference database.
\<close>

definition sim :: "('d \<Rightarrow> 'm) \<Rightarrow> ('d, 'e, 'a) run \<Rightarrow> ('m, 'e, 'a) run \<Rightarrow> bool" where
  "sim abst m f \<longleftrightarrow> (\<forall>s. f (abst s) = map_prod id abst (m s))"

named_theorems sim_intros "simulation of composed actions"

lemma sim_apply: "sim abst m f \<Longrightarrow> m s = (res, s') \<Longrightarrow> f (abst s) = (res, abst s')"
  by (simp add: sim_def)

lemma sim_return [sim_intros]: "sim abst (returnR a) (returnR a)"
  by (simp add: sim_def)

lemma sim_throw [sim_intros]: "sim abst (throwR e) (throwR e)"
  by (simp add: sim_def)

lemma sim_lift [sim_intros]: "sim abst (liftR r) (liftR r)"
  by (simp add: sim_def)

lemma sim_bind [sim_intros]:
  "sim abst m f \<Longrightarrow> (\<And>a. sim abst (k a) (g a)) \<Longrightarrow> sim abst (bindR m k) (bindR f g)"
  unfolding sim_def bindR_def by (auto split: prod.splits sum.splits)

lemma sim_catch [sim_intros]:
  "sim abst m f \<Longrightarrow> (\<And>e. sim abst (h e) (g e)) \<Longrightarrow> sim abst (catchR m h) (catchR f g)"
  unfolding sim_def catchR_def by (auto split: prod.splits sum.splits)

lemma sim_mapR [sim_intros]:
  "(\<And>x. sim abst (h x) (g x)) \<Longrightarrow> sim abst (mapR h xs) (mapR g xs)"
  by (induction xs) (auto intro!: sim_intros)

lemma sim_if [sim_intros]:
  "(b \<Longrightarrow> sim abst m f) \<Longrightarrow> (\<not> b \<Longrightarrow> sim abst n g) \<Longrightarrow> sim abst (if b then m else n) (if b then f else g)"
  by simp

lemma sim_case_option [sim_intros]:
  "(x = None \<Longrightarrow> sim abst m f) \<Longrightarrow> (\<And>a. x = Some a \<Longrightarrow> sim abst (k a) (g a)) \<Longrightarrow>
   sim abst (case x of None \<Rightarrow> m | Some a \<Rightarrow> k a) (case x of None \<Rightarrow> f | Some a \<Rightarrow> g a)"
  by (simp split: option.split)

lemma sim_case_sum [sim_intros]:
  "(\<And>e. x = Inl e \<Longrightarrow> sim abst (m e) (f e)) \<Longrightarrow> (\<And>a. x = Inr a \<Longrightarrow> sim abst (k a) (g a)) \<Longrightarrow>
   sim abst (case x of Inl e \<Rightarrow> m e | Inr a \<Rightarrow> k a) (case x of Inl e \<Rightarrow> f e | Inr a \<Rightarrow> g a)"
  by (simp split: sum.split)

lemma sim_case_prod [sim_intros]:
  "(\<And>a b. x = (a, b) \<Longrightarrow> sim abst (k a b) (g a b)) \<Longrightarrow>
   sim abst (case x of (a, b) \<Rightarrow> k a b) (case x of (a, b) \<Rightarrow> g a b)"
  by (simp split: prod.split)

lemma sim_case_pair_fun [sim_intros]:
  "(\<And>a b. sim abst (k a b) (g a b)) \<Longrightarrow> sim abst ((\<lambda>(a, b). k a b) x) ((\<lambda>(a, b). g a b) x)"
  by (simp split: prod.split)

lemma sim_Let [sim_intros]: "sim abst (k x) (g x) \<Longrightarrow> sim abst (Let x k) (Let x g)"
  by simp

locale orm =
  fixes D :: "('d, 'z) ormOps_scheme" and abst :: "'d \<Rightarrow> dbState"
  assumes ops [sim_intros]:
    "sim abst (insertUserAuth D ua) (sqlInsertUserAuth ua)"
    "sim abst (existUserAuth D uid) (sqlExistUserAuth uid)"
    "sim abst (findUserAuth D uid) (sqlFindUserAuth uid)"
    "sim abst (findSession D now uid cid millis) (sqlFindSession now uid cid millis)"
    "sim abst (updateUserAuth D ses) (sqlUpdateUserAuth ses)"
    "sim abst (removeCached D ids) (sqlRemoveCached ids)"
    "sim abst (existUserInfo D uid) (sqlExistUserInfo uid)"
    "sim abst (insertUserInfo D ui) (sqlInsertUserInfo ui)"
    "sim abst (findUserInfo D now uid cid millis) (sqlFindUserInfo now uid cid millis)"
    "sim abst (updateUserInfo D ui) (sqlUpdateUserInfo ui)"
    "sim abst (deleteUserInfo D uid) (sqlDeleteUserInfo uid)"
    "sim abst (insertPost D now np) (sqlInsertPost now np)"
    "sim abst (findPosts D now owner takeN skipN cid millis) (sqlFindPosts now owner takeN skipN cid millis)"
    "sim abst (findPost D postId) (sqlFindPost postId)"
    "sim abst (updatePostRow D postId uid patch) (sqlUpdatePost postId uid patch)"
    "sim abst (deletePostRow D postId uid) (sqlDeletePost postId uid)"
    "sim abst (existPostLike D postId uid) (sqlExistPostLike postId uid)"
    "sim abst (findPostLikes D now postId cid millis) (sqlFindPostLikes now postId cid millis)"
    "sim abst (findPostLikesIn D ids') (sqlFindPostLikesIn ids')"
    "sim abst (insertPostLike D pl) (sqlInsertPostLike pl)"
    "sim abst (deletePostLike D postId uid) (sqlDeletePostLike postId uid)"

lemma sim_refl: "sim (\<lambda>s. s) m m"
  by (simp add: sim_def id_def prod.map_ident)

lemma sqlDb_sel [simp]:
  "insertUserAuth sqlDb = sqlInsertUserAuth" "existUserAuth sqlDb = sqlExistUserAuth"
  "findUserAuth sqlDb = sqlFindUserAuth" "findSession sqlDb = sqlFindSession"
  "updateUserAuth sqlDb = sqlUpdateUserAuth" "removeCached sqlDb = sqlRemoveCached"
  "existUserInfo sqlDb = sqlExistUserInfo" "insertUserInfo sqlDb = sqlInsertUserInfo"
  "findUserInfo sqlDb = sqlFindUserInfo" "updateUserInfo sqlDb = sqlUpdateUserInfo"
  "deleteUserInfo sqlDb = sqlDeleteUserInfo" "insertPost sqlDb = sqlInsertPost"
  "findPosts sqlDb = sqlFindPosts" "findPost sqlDb = sqlFindPost"
  "updatePostRow sqlDb = sqlUpdatePost" "deletePostRow sqlDb = sqlDeletePost"
  "existPostLike sqlDb = sqlExistPostLike" "findPostLikes sqlDb = sqlFindPostLikes"
  "findPostLikesIn sqlDb = sqlFindPostLikesIn" "insertPostLike sqlDb = sqlInsertPostLike"
  "deletePostLike sqlDb = sqlDeletePostLike"
  by (simp_all add: sqlDb_def)

interpretation sql: orm sqlDb "\<lambda>db. db"
  by unfold_locales (simp_all add: sim_refl)

section \<open>The schema as an invariant\<close>

text \<open>
  What the keys, unique indexes and foreign keys of the migrations guarantee of the tables, and
  the freshness of the next post id. Every statement keeps it, whether it succeeds or throws.
\<close>

definition schemaOk :: "dbState \<Rightarrow> bool" where
  "schemaOk db \<longleftrightarrow>
     distinct (map uaUid (userAuths db)) \<and>
     distinct (map uiUid (userInfos db)) \<and> distinct (map uiNickname (userInfos db)) \<and>
     (\<forall>r \<in> set (userInfos db). hasAuth db (uiUid r)) \<and>
     distinct (map peId (posts db)) \<and>
     (\<forall>p \<in> set (posts db). peId p < nextPostId db \<and> hasAuth db (peUid p)) \<and>
     distinct (postLikes db) \<and>
     (\<forall>l \<in> set (postLikes db). hasPost db (plPostId l) \<and> hasAuth db (plUid l))"

lemma hasAuth_simps [simp]:
  "hasAuth (db\<lparr>userInfos := a\<rparr>) u = hasAuth db u" "hasAuth (db\<lparr>posts := b\<rparr>) u = hasAuth db u"
  "hasAuth (db\<lparr>postLikes := c\<rparr>) u = hasAuth db u" "hasAuth (db\<lparr>nextPostId := n\<rparr>) u = hasAuth db u"
  "hasAuth (db\<lparr>queryCache := q\<rparr>) u = hasAuth db u"
  by (simp_all add: hasAuth_def)

lemma hasPost_simps [simp]:
  "hasPost (db\<lparr>userInfos := a\<rparr>) i = hasPost db i" "hasPost (db\<lparr>userAuths := b\<rparr>) i = hasPost db i"
  "hasPost (db\<lparr>postLikes := c\<rparr>) i = hasPost db i" "hasPost (db\<lparr>nextPostId := n\<rparr>) i = hasPost db i"
  "hasPost (db\<lparr>queryCache := q\<rparr>) i = hasPost db i"
  by (simp_all add: hasPost_def)

lemma schemaOk_queryCache [simp]: "schemaOk (db\<lparr>queryCache := q\<rparr>) = schemaOk db"
  by (simp add: schemaOk_def)

lemma keeps_cachedQuery:
  "(\<And>db q. P db \<Longrightarrow> P (db\<lparr>queryCache := q\<rparr>)) \<Longrightarrow> keeps P (cachedQuery now cid millis wrap unwrap query)"
  by (simp add: keeps_def cachedQuery_def split: option.split)

lemma keeps_removeCached:
  "(\<And>db q. P db \<Longrightarrow> P (db\<lparr>queryCache := q\<rparr>)) \<Longrightarrow> keeps P (sqlRemoveCached ids)"
  by (simp add: keeps_def sqlRemoveCached_def)

text \<open>Reads change the query cache at most.\<close>

lemma keeps_reads:
  assumes P: "\<And>db q. P db \<Longrightarrow> P (db\<lparr>queryCache := q\<rparr>)"
  shows "keeps P (sqlExistUserAuth uid)" "keeps P (sqlFindUserAuth uid)"
    "keeps P (sqlFindSession now uid cid millis)" "keeps P (sqlRemoveCached ids)"
    "keeps P (sqlExistUserInfo uid)" "keeps P (sqlFindUserInfo now uid cid millis)"
    "keeps P (sqlFindPosts now owner takeN skipN cid millis)" "keeps P (sqlFindPost postId)"
    "keeps P (sqlExistPostLike postId uid)" "keeps P (sqlFindPostLikes now postId cid millis)"
    "keeps P (sqlFindPostLikesIn ids')"
proof -
  note c = keeps_cachedQuery [of P, OF P]
  show "keeps P (sqlFindSession now uid cid millis)" "keeps P (sqlFindUserInfo now uid cid millis)"
    "keeps P (sqlFindPosts now owner takeN skipN cid millis)" "keeps P (sqlFindPostLikes now postId cid millis)"
    unfolding sqlFindSession_def sqlFindUserInfo_def sqlFindPosts_def sqlFindPostLikes_def orFail_def
    by (auto intro!: keeps_intros c)
  show "keeps P (sqlRemoveCached ids)" using P by (rule keeps_removeCached)
  show "keeps P (sqlExistUserAuth uid)" "keeps P (sqlFindUserAuth uid)" "keeps P (sqlExistUserInfo uid)"
    "keeps P (sqlFindPost postId)" "keeps P (sqlExistPostLike postId uid)" "keeps P (sqlFindPostLikesIn ids')"
    by (simp_all add: keeps_def sqlExistUserAuth_def sqlFindUserAuth_def sqlExistUserInfo_def
        sqlFindPost_def sqlExistPostLike_def sqlFindPostLikesIn_def split: list.split)
qed

lemmas schema_reads [keeps_intros] = keeps_reads [of schemaOk, simplified]

lemma uaUid_setSession [simp]: "uaUid r = seUid ses \<Longrightarrow> uaUid (setSession ses r) = uaUid r"
  by (simp add: setSession_def)

lemma map_if_same: "(\<And>x. x \<in> set xs \<Longrightarrow> b x \<Longrightarrow> f (g x) = f x) \<Longrightarrow>
  map (\<lambda>x. f (if b x then g x else x)) xs = map f xs"
  by (induction xs) auto

lemma distinct_map_filter_id: "distinct (map f xs) \<Longrightarrow> distinct (map f (filter P xs))"
  by (rule distinct_map_filter)

lemma schema_userAuth [keeps_intros]:
  "keeps schemaOk (sqlInsertUserAuth row)" "keeps schemaOk (sqlUpdateUserAuth ses)"
proof -
  show "keeps schemaOk (sqlInsertUserAuth row)"
    by (auto simp: keeps_def sqlInsertUserAuth_def schemaOk_def hasAuth_def hasPost_def)
  have "map uaUid (map (\<lambda>r. if uaUid r = seUid ses then setSession ses r else r) xs) = map uaUid xs" for xs
    by (auto simp: comp_def intro!: map_if_same)
  then have "schemaOk (db\<lparr>userAuths := map (\<lambda>r. if uaUid r = seUid ses then setSession ses r else r) (userAuths db)\<rparr>)
      = schemaOk db" for db
    unfolding schemaOk_def hasAuth_def by (simp add: hasPost_def del: map_map flip: set_map)
  then show "keeps schemaOk (sqlUpdateUserAuth ses)"
    by (simp add: keeps_def sqlUpdateUserAuth_def Let_def)
qed

lemma schema_userInfo [keeps_intros]:
  "keeps schemaOk (sqlInsertUserInfo row)" "keeps schemaOk (sqlUpdateUserInfo row)"
  "keeps schemaOk (sqlDeleteUserInfo uid)"
proof -
  show "keeps schemaOk (sqlInsertUserInfo row)"
    by (auto simp: keeps_def sqlInsertUserInfo_def schemaOk_def)
  show "keeps schemaOk (sqlDeleteUserInfo uid)"
    by (auto simp: keeps_def sqlDeleteUserInfo_def schemaOk_def distinct_map_filter_id)
  show "keeps schemaOk (sqlUpdateUserInfo row)"
    unfolding keeps_def
  proof (intro allI impI)
    fix db assume ok: "schemaOk db"
    let ?g = "\<lambda>r. if uiUid r = uiUid row then row else r" and ?xs = "userInfos db"
    have u: "map uiUid (map ?g ?xs) = map uiUid ?xs" by (auto simp: comp_def intro!: map_if_same)
    have n: "distinct (map uiNickname (map ?g ?xs))"
      if "\<not> list_ex (\<lambda>r. uiUid r \<noteq> uiUid row \<and> uiNickname r = uiNickname row) ?xs"
    proof -
      have "inj_on (uiNickname \<circ> ?g) (set ?xs)"
        using ok that by (auto simp: inj_on_def schemaOk_def distinct_map list_ex_iff)
      moreover have "distinct ?xs" using ok by (simp add: schemaOk_def distinct_map)
      ultimately show ?thesis by (simp add: distinct_map)
    qed
    have a: "\<forall>r \<in> set (map ?g ?xs). hasAuth db (uiUid r)" if "list_ex (\<lambda>r. uiUid r = uiUid row) ?xs"
      using ok that by (auto simp: schemaOk_def list_ex_iff)
    have "schemaOk (db\<lparr>userInfos := map ?g ?xs\<rparr>)"
      if "list_ex (\<lambda>r. uiUid r = uiUid row) ?xs"
        "\<not> list_ex (\<lambda>r. uiUid r \<noteq> uiUid row \<and> uiNickname r = uiNickname row) ?xs"
      using ok u n [OF that(2)] a [OF that(1)] by (simp add: schemaOk_def del: map_map)
    with ok show "schemaOk (snd (sqlUpdateUserInfo row db))"
      by (simp add: sqlUpdateUserInfo_def Let_def)
  qed
qed

lemma patchPost_keys [simp]: "peId (patchPost patch p) = peId p" "peUid (patchPost patch p) = peUid p"
  by (simp_all add: patchPost_def)

lemma schema_post [keeps_intros]:
  "keeps schemaOk (sqlInsertPost now np)" "keeps schemaOk (sqlUpdatePost postId uid patch)"
  "keeps schemaOk (sqlDeletePost postId uid)"
proof -
  show "keeps schemaOk (sqlInsertPost now np)"
    by (fastforce simp: keeps_def sqlInsertPost_def schemaOk_def Let_def hasPost_def)
  show "keeps schemaOk (sqlUpdatePost postId uid patch)"
    unfolding keeps_def
  proof (intro allI impI)
    fix db assume ok: "schemaOk db"
    let ?ps = "map (\<lambda>p. if peId p = postId \<and> peUid p = uid then patchPost patch p else p) (posts db)"
    have m: "map (\<lambda>p. (peId p, peUid p)) ?ps = map (\<lambda>p. (peId p, peUid p)) (posts db)"
      by (auto simp: comp_def intro!: map_if_same)
    from arg_cong [OF m, of "map fst"] have i: "map peId ?ps = map peId (posts db)" by (simp add: comp_def)
    have "(\<lambda>p. (peId p, peUid p)) ` set ?ps = (\<lambda>p. (peId p, peUid p)) ` set (posts db)"
      using arg_cong [OF m, of set] by (simp only: set_map)
    then have f: "\<forall>p \<in> set ?ps. peId p < nextPostId db \<and> hasAuth db (peUid p)"
      using ok by (auto simp: schemaOk_def)
    have e: "peId ` set ?ps = peId ` set (posts db)" using arg_cong [OF i, of set] by (simp only: set_map)
    have h: "hasPost (db\<lparr>posts := ?ps\<rparr>) k = hasPost db k" for k
      by (simp add: hasPost_def e del: set_map)
    have "schemaOk (db\<lparr>posts := ?ps\<rparr>)"
      using ok i f h unfolding schemaOk_def by (simp del: map_map set_map)
    with ok show "schemaOk (snd (sqlUpdatePost postId uid patch db))"
      by (simp add: sqlUpdatePost_def Let_def)
  qed
  show "keeps schemaOk (sqlDeletePost postId uid)"
    unfolding keeps_def
  proof (intro allI impI)
    fix db assume ok: "schemaOk db"
    let ?hit = "\<lambda>p. peId p = postId \<and> peUid p = uid"
    have "hasPost (db\<lparr>posts := filter (\<lambda>p. \<not> ?hit p) (posts db)\<rparr>) k"
      if "hasPost db k" "\<not> (list_ex ?hit (posts db) \<and> postId \<in> plPostId ` set (postLikes db))"
        "k \<in> plPostId ` set (postLikes db)" for k
    proof -
      from that(1) obtain p where p: "p \<in> set (posts db)" "peId p = k" by (auto simp: hasPost_def)
      with that(2,3) have "\<not> ?hit p" by (auto simp: list_ex_iff)
      with p show ?thesis by (auto simp: hasPost_def)
    qed
    with ok show "schemaOk (snd (sqlDeletePost postId uid db))"
      by (auto simp: sqlDeletePost_def Let_def schemaOk_def distinct_map_filter_id)
  qed
qed

lemma schema_postLike [keeps_intros]:
  "keeps schemaOk (sqlInsertPostLike pl)" "keeps schemaOk (sqlDeletePostLike postId uid)"
  by (auto simp: keeps_def sqlInsertPostLike_def sqlDeletePostLike_def schemaOk_def)

text \<open>What a database keeps, the reference database keeps of its abstraction.\<close>

lemma sim_keeps: "sim abst m f \<Longrightarrow> keeps P f \<Longrightarrow> keeps (\<lambda>s. P (abst s)) m"
  unfolding sim_def keeps_def by (metis snd_map_prod)

section \<open>Unique rows\<close>

lemma filter_unique: "distinct (map f xs) \<Longrightarrow> x \<in> set xs \<Longrightarrow> filter (\<lambda>y. f y = f x) xs = [x]"
proof (induction xs)
  case (Cons a xs)
  show ?case
  proof (cases "x = a")
    case True
    with Cons.prems have "filter (\<lambda>y. f y = f x) xs = []"
      by (simp add: filter_empty_conv) (metis image_eqI)
    with True show ?thesis by simp
  next
    case False
    with Cons show ?thesis by auto
  qed
qed simp

lemma filter_key_cases:
  assumes "distinct (map f xs)"
  shows "filter (\<lambda>y. f y = k) xs = [] \<and> k \<notin> f ` set xs \<or>
    (\<exists>x \<in> set xs. f x = k \<and> filter (\<lambda>y. f y = k) xs = [x])"
  using filter_unique [OF assms] by (cases "k \<in> f ` set xs") (auto simp: filter_empty_conv)

lemma find_filter: "List.find P xs = (case filter P xs of [] \<Rightarrow> None | x # _ \<Rightarrow> Some x)"
  by (induction xs) simp_all

lemma find_unique:
  assumes "distinct (map f xs)"
  shows "List.find (\<lambda>y. f y = k) xs = Some x \<longleftrightarrow> x \<in> set xs \<and> f x = k"
  using filter_unique [OF assms, of x] by (auto simp: find_filter dest: filter_eq_ConsD split: list.splits)

lemma find_None_key: "List.find (\<lambda>x. f x = k) xs = None \<longleftrightarrow> k \<notin> f ` set xs"
  by (auto simp: find_None_iff)

lemma find_Some_key: "List.find (\<lambda>x. f x = k) xs = Some y \<Longrightarrow> f y = k \<and> y \<in> set xs"
  by (induction xs) (auto split: if_splits)

lemma filter_absent: "k \<notin> f ` set xs \<Longrightarrow> filter (\<lambda>x. f x = k) xs = []"
  by (auto simp: filter_empty_conv)

lemma find_removed:
  "List.find (\<lambda>x. f x = u) (filter (\<lambda>x. f x \<noteq> k) xs) =
     (if u = k then None else List.find (\<lambda>x. f x = u) xs)"
  by (induction xs) auto

lemma filter_removed_other:
  "u \<noteq> k \<Longrightarrow> filter (\<lambda>x. f x = u) (filter (\<lambda>x. f x \<noteq> k) xs) = filter (\<lambda>x. f x = u) xs"
  by (induction xs) auto

lemma filter_replace_other:
  "u \<noteq> k \<Longrightarrow> f y = k \<Longrightarrow>
   filter (\<lambda>x. f x = u) (map (\<lambda>x. if f x = k then y else x) xs) = filter (\<lambda>x. f x = u) xs"
  by (induction xs) auto

section \<open>Cached single-row queries\<close>

text \<open>
  A cached \<open>findOneOrFail\<close> whose cache entry, if there is one, agrees with the table: it answers
  as without a cache, and touches its own cache entry at most.
\<close>

lemma cachedOne:
  assumes fresh: "\<And>c d. cacheOn db \<Longrightarrow> queryCache db cid = Some (c, d) \<Longrightarrow> c = wrap (query db)"
    and wrap: "\<And>x. unwrap (wrap x) = Some x"
  obtains Q where
    "orFail (cachedQuery now cid millis wrap unwrap query) db =
       (case query db of [] \<Rightarrow> Inl EntityNotFoundError | r # _ \<Rightarrow> Inr r, db\<lparr>queryCache := Q\<rparr>)"
    and "\<And>k. k \<noteq> cid \<Longrightarrow> Q k = queryCache db k"
    and "\<And>c d. cacheOn db \<Longrightarrow> Q cid = Some (c, d) \<Longrightarrow> c = wrap (query db)"
proof -
  consider (hit) "cacheOn db" "live (queryCache db) now cid = Some (wrap (query db))"
    | (off) "\<not> cacheOn db" | (miss) "cacheOn db" "live (queryCache db) now cid = None"
  proof (cases "live (queryCache db) now cid")
    case (Some c)
    then have "\<exists>d. queryCache db cid = Some (c, d)"
      by (auto simp: live_def liveEntry_def split: option.splits if_splits)
    with Some fresh that show thesis by blast
  qed (use that in blast)
  then show thesis
  proof cases
    case hit
    then show thesis using that [of "queryCache db"] fresh wrap
      by (simp add: orFail_def cachedQuery_def bindR_def split: list.split)
  next
    case off
    then show thesis using that [of "queryCache db"]
      by (simp add: orFail_def cachedQuery_def bindR_def split: list.split)
  next
    case miss
    then show thesis using that [of "(queryCache db)(cid \<mapsto> (wrap (query db), Some (now + millis)))"]
      by (simp add: orFail_def cachedQuery_def bindR_def split: list.split)
  qed
qed

text \<open>
  The pattern of the repositories: on an error the entry is removed and the not-found error
  translated. Afterwards the entry, if any, holds a row that was found.
\<close>

lemma cachedFind:
  assumes fresh: "\<And>c d. cacheOn db \<Longrightarrow> queryCache db cid = Some (c, d) \<Longrightarrow> c = wrap (query db)"
    and wrap: "\<And>x. unwrap (wrap x) = Some x"
  obtains Q where
    "catchR (orFail (cachedQuery now cid millis wrap unwrap query))
       (\<lambda>error. bindR (sqlRemoveCached [cid]) (\<lambda>_.
          if error = EntityNotFoundError then throwR notFound else throwR error)) db =
       (case query db of [] \<Rightarrow> Inl notFound | r # _ \<Rightarrow> Inr r, db\<lparr>queryCache := Q\<rparr>)"
    and "\<And>k. k \<noteq> cid \<Longrightarrow> Q k = queryCache db k"
    and "\<And>c d. cacheOn db \<Longrightarrow> Q cid = Some (c, d) \<Longrightarrow> c = wrap (query db) \<and> query db \<noteq> []"
proof -
  obtain Q where q: "orFail (cachedQuery now cid millis wrap unwrap query) db =
       (case query db of [] \<Rightarrow> Inl EntityNotFoundError | r # _ \<Rightarrow> Inr r, db\<lparr>queryCache := Q\<rparr>)"
    "\<And>k. k \<noteq> cid \<Longrightarrow> Q k = queryCache db k"
    "\<And>c d. cacheOn db \<Longrightarrow> Q cid = Some (c, d) \<Longrightarrow> c = wrap (query db)"
    using cachedOne [of db cid wrap query unwrap now millis] fresh wrap by metis
  show thesis
  proof (cases "query db")
    case Nil
    with q that [of "if cacheOn db then Q |` (- {cid}) else Q"] show thesis
      by (cases "cacheOn db") (simp_all add: run_simps sqlRemoveCached_def)
  next
    case (Cons r rs)
    with q that [of Q] show thesis by (simp add: run_simps)
  qed
qed

section \<open>A database for the concrete instances\<close>

text \<open>A database with two accounts and no profiles.\<close>

definition demoAuth :: "string \<Rightarrow> UserAuthEntity" where
  "demoAuth uid = \<lparr>uaUid = uid, uaPassword = ''p'', uaSalt = ''s'', uaSocialYN = ''N'',
     uaRefreshToken = '''', uaUserRole = USER\<rparr>"

definition demoDb :: dbState where
  "demoDb = \<lparr>userAuths = [demoAuth ''a'', demoAuth ''b''], userInfos = [], posts = [], postLikes = [],
     nextPostId = 1, cacheOn = True, queryCache = (\<lambda>_. None)\<rparr>"

lemma demoDb_schemaOk [simp]: "schemaOk demoDb"
  by (simp add: demoDb_def demoAuth_def schemaOk_def)

end
