(* ===== verification/UserInfo.thy ===== *)
theory UserInfo
  imports Orm
begin

text \<open>
  User profiles: DTO and DAO, repository and service (\<open>user/dto/user-info.dto.ts\<close>,
  \<open>user/dao/user-info.dao.ts\<close>, \<open>user/repository/user-info.repository.ts\<close>,
  \<open>user/service/user-info.service.ts\<close>), over any database of the locale \<open>orm\<close>. The component is
  proved to implement a map from user ids to profiles, in spite of the 24 hour query cache.
\<close>

section \<open>Data\<close>

record UserInfoInterface =
  ifUid :: string
  ifNickname :: string
  ifIntroduce :: string

record UserInfoDto =
  dtoUid :: string
  dtoNickname :: string
  dtoIntroduce :: string

record UserInfoDao =
  daoUid :: string
  daoNickname :: string
  daoIntroduce :: string

definition spreadUserInfoDto :: "UserInfoDto \<Rightarrow> UserInfoInterface" where
  "spreadUserInfoDto d = \<lparr>ifUid = dtoUid d, ifNickname = dtoNickname d, ifIntroduce = dtoIntroduce d\<rparr>"

definition userInfoEntityAsInterface :: "UserInfoEntity \<Rightarrow> UserInfoInterface" where
  "userInfoEntityAsInterface e = \<lparr>ifUid = uiUid e, ifNickname = uiNickname e, ifIntroduce = uiIntroduce e\<rparr>"

definition userInfoDaoFrom :: "UserInfoInterface \<Rightarrow> UserInfoDao" where
  "userInfoDaoFrom i = \<lparr>daoUid = ifUid i, daoNickname = ifNickname i, daoIntroduce = ifIntroduce i\<rparr>"

definition toUserInfoDto :: "UserInfoDao \<Rightarrow> UserInfoDto" where
  "toUserInfoDto d = \<lparr>dtoUid = daoUid d, dtoNickname = daoNickname d, dtoIntroduce = daoIntroduce d\<rparr>"

definition toUserInfoEntity :: "UserInfoDao \<Rightarrow> UserInfoEntity" where
  "toUserInfoEntity d = \<lparr>uiUid = daoUid d, uiNickname = daoNickname d, uiIntroduce = daoIntroduce d\<rparr>"

lemmas userInfo_data = spreadUserInfoDto_def userInfoEntityAsInterface_def userInfoDaoFrom_def
  toUserInfoDto_def toUserInfoEntity_def

section \<open>Repository\<close>

definition userInfoIsExist :: "('d, 'z) ormOps_scheme \<Rightarrow> string \<Rightarrow> ('d, exn, bool) run" where
  "userInfoIsExist D uid = existUserInfo D uid"

definition saveUserInfoEntity :: "('d, 'z) ormOps_scheme \<Rightarrow> UserInfoEntity \<Rightarrow> ('d, exn, unit) run" where
  "saveUserInfoEntity D e = insertUserInfo D e"

definition removeUserInfoCache :: "('d, 'z) ormOps_scheme \<Rightarrow> string \<Rightarrow> ('d, exn, unit) run" where
  "removeUserInfoCache D uid = removeCached D [getUserInfoEntityCacheId uid]"

definition findUserInfoEntity ::
  "('d, 'z) ormOps_scheme \<Rightarrow> nat \<Rightarrow> string \<Rightarrow> ('d, exn, UserInfoEntity) run" where
  "findUserInfoEntity D now uid =
     catchR (findUserInfo D now uid (getUserInfoEntityCacheId uid) (getTicTimeHMS 24 0 0))
       (\<lambda>error. bindR (removeUserInfoCache D uid) (\<lambda>_.
          if error = EntityNotFoundError then throwR (UserInfoNotFoundException uid)
          else throwR error))"

definition updateUserInfoEntity :: "('d, 'z) ormOps_scheme \<Rightarrow> UserInfoEntity \<Rightarrow> ('d, exn, unit) run" where
  "updateUserInfoEntity D e = bindR (removeUserInfoCache D (uiUid e)) (\<lambda>_. updateUserInfo D e)"

definition deleteUserInfoByUid :: "('d, 'z) ormOps_scheme \<Rightarrow> string \<Rightarrow> ('d, exn, unit) run" where
  "deleteUserInfoByUid D uid = bindR (removeUserInfoCache D uid) (\<lambda>_. deleteUserInfo D uid)"

section \<open>Service\<close>

definition svcCreateUserInfo :: "('d, 'z) ormOps_scheme \<Rightarrow> UserInfoDto \<Rightarrow> ('d, exn, unit) run" where
  "svcCreateUserInfo D dto =
     bindR (userInfoIsExist D (dtoUid dto)) (\<lambda>isExist.
       if isExist then throwR (UserInfoAlreadyExistsException (dtoUid dto))
       else saveUserInfoEntity D (toUserInfoEntity (userInfoDaoFrom (spreadUserInfoDto dto))))"

definition svcGetUserInfoByUid ::
  "('d, 'z) ormOps_scheme \<Rightarrow> nat \<Rightarrow> string \<Rightarrow> ('d, exn, UserInfoDto) run" where
  "svcGetUserInfoByUid D now uid =
     bindR (findUserInfoEntity D now uid) (\<lambda>e.
       returnR (toUserInfoDto (userInfoDaoFrom (userInfoEntityAsInterface e))))"

definition svcUpdateUserInfo :: "('d, 'z) ormOps_scheme \<Rightarrow> UserInfoDto \<Rightarrow> ('d, exn, unit) run" where
  "svcUpdateUserInfo D dto =
     bindR (userInfoIsExist D (dtoUid dto)) (\<lambda>isExist.
       if \<not> isExist then throwR (UserInfoNotFoundException (dtoUid dto))
       else updateUserInfoEntity D (toUserInfoEntity (userInfoDaoFrom (spreadUserInfoDto dto))))"

definition svcDeleteUserInfoByUid :: "('d, 'z) ormOps_scheme \<Rightarrow> string \<Rightarrow> ('d, exn, unit) run" where
  "svcDeleteUserInfoByUid D uid =
     bindR (userInfoIsExist D uid) (\<lambda>isExist.
       if \<not> isExist then throwR (UserInfoNotFoundException uid)
       else deleteUserInfoByUid D uid)"

lemmas userInfo_defs = userInfoIsExist_def saveUserInfoEntity_def removeUserInfoCache_def
  findUserInfoEntity_def updateUserInfoEntity_def deleteUserInfoByUid_def
  svcCreateUserInfo_def svcGetUserInfoByUid_def svcUpdateUserInfo_def svcDeleteUserInfoByUid_def

text \<open>Every method of the component is one of these calls.\<close>

datatype profileOp =
    CreateProfile UserInfoDto
  | ReadProfile nat string
  | UpdateProfile UserInfoDto
  | DeleteProfile string

fun profileCall :: "('d, 'z) ormOps_scheme \<Rightarrow> profileOp \<Rightarrow> ('d, exn, UserInfoDto option) run" where
  "profileCall D (CreateProfile dto) = bindR (svcCreateUserInfo D dto) (\<lambda>_. returnR None)"
| "profileCall D (ReadProfile now uid) = bindR (svcGetUserInfoByUid D now uid) (\<lambda>dto. returnR (Some dto))"
| "profileCall D (UpdateProfile dto) = bindR (svcUpdateUserInfo D dto) (\<lambda>_. returnR None)"
| "profileCall D (DeleteProfile uid) = bindR (svcDeleteUserInfoByUid D uid) (\<lambda>_. returnR None)"

context orm
begin

lemma sim_svcGetUserInfoByUid [sim_intros]:
  "sim abst (svcGetUserInfoByUid D now uid) (svcGetUserInfoByUid sqlDb now uid)"
  unfolding userInfo_defs sqlDb_sel by (intro sim_intros)

lemma sim_profileCall [sim_intros]: "sim abst (profileCall D op) (profileCall sqlDb op)"
  by (cases op) (simp_all only: profileCall.simps userInfo_defs sqlDb_sel, (intro sim_intros)+)

end

section \<open>The abstract specification\<close>

text \<open>
  A map from user ids to profiles. A creation or an update is refused when a text is longer than
  its column, when another user has the nickname, or (creation) when there is no such account.
\<close>

definition nicknameTaken :: "(string \<Rightarrow> UserInfoDto option) \<Rightarrow> UserInfoDto \<Rightarrow> bool" where
  "nicknameTaken m dto \<longleftrightarrow> (\<exists>u d. m u = Some d \<and> u \<noteq> dtoUid dto \<and> dtoNickname d = dtoNickname dto)"

definition fitsDto :: "UserInfoDto \<Rightarrow> bool" where
  "fitsDto dto \<longleftrightarrow>
     length (dtoUid dto) \<le> 100 \<and> length (dtoNickname dto) \<le> 100 \<and> length (dtoIntroduce dto) \<le> 500"

fun profileSpec ::
  "(string \<Rightarrow> bool) \<Rightarrow> profileOp \<Rightarrow> (string \<Rightarrow> UserInfoDto option) \<Rightarrow>
   (exn + UserInfoDto option) \<times> (string \<Rightarrow> UserInfoDto option)" where
  "profileSpec account (CreateProfile dto) m =
     (if m (dtoUid dto) \<noteq> None then (Inl (UserInfoAlreadyExistsException (dtoUid dto)), m)
      else if \<not> fitsDto dto then (Inl tooLong, m)
      else if nicknameTaken m dto then (Inl duplicate, m)
      else if \<not> account (dtoUid dto) then (Inl noParent, m)
      else (Inr None, m(dtoUid dto \<mapsto> dto)))"
| "profileSpec account (ReadProfile now uid) m =
     (case m uid of
        None \<Rightarrow> (Inl (UserInfoNotFoundException uid), m)
      | Some dto \<Rightarrow> (Inr (Some dto), m))"
| "profileSpec account (UpdateProfile dto) m =
     (if m (dtoUid dto) = None then (Inl (UserInfoNotFoundException (dtoUid dto)), m)
      else if \<not> fitsDto dto then (Inl tooLong, m)
      else if nicknameTaken m dto then (Inl duplicate, m)
      else (Inr None, m(dtoUid dto \<mapsto> dto)))"
| "profileSpec account (DeleteProfile uid) m =
     (if m uid = None then (Inl (UserInfoNotFoundException uid), m)
      else (Inr None, m(uid := None)))"

section \<open>The refinement\<close>

definition dtoOf :: "UserInfoEntity \<Rightarrow> UserInfoDto" where
  "dtoOf e = \<lparr>dtoUid = uiUid e, dtoNickname = uiNickname e, dtoIntroduce = uiIntroduce e\<rparr>"

definition rowOf :: "UserInfoDto \<Rightarrow> UserInfoEntity" where
  "rowOf d = \<lparr>uiUid = dtoUid d, uiNickname = dtoNickname d, uiIntroduce = dtoIntroduce d\<rparr>"

definition profilesOf :: "dbState \<Rightarrow> string \<Rightarrow> UserInfoDto option" where
  "profilesOf db uid = map_option dtoOf (List.find (\<lambda>r. uiUid r = uid) (userInfos db))"

text \<open>
  The cache is coherent: an entry for a user holds the row of that user. In particular it never
  holds the empty result of a search that found nothing.
\<close>

definition infoFresh :: "dbState \<Rightarrow> bool" where
  "infoFresh db \<longleftrightarrow>
     (\<forall>uid c d. cacheOn db \<longrightarrow> queryCache db (getUserInfoEntityCacheId uid) = Some (c, d) \<longrightarrow>
        (\<exists>r. c = CachedInfos [r] \<and> filter (\<lambda>r. uiUid r = uid) (userInfos db) = [r]))"

lemma infoId_inject [simp]: "getUserInfoEntityCacheId u = getUserInfoEntityCacheId v \<longleftrightarrow> u = v"
  by (simp add: getUserInfoEntityCacheId_def)

lemma dto_conversions [simp]:
  "toUserInfoEntity (userInfoDaoFrom (spreadUserInfoDto dto)) = rowOf dto"
  "toUserInfoDto (userInfoDaoFrom (userInfoEntityAsInterface e)) = dtoOf e"
  "dtoOf (rowOf dto) = dto" "rowOf (dtoOf e) = e"
  "uiUid (rowOf dto) = dtoUid dto" "uiNickname (rowOf dto) = dtoNickname dto"
  "dtoUid (dtoOf e) = uiUid e" "dtoNickname (dtoOf e) = uiNickname e"
  "fitsUserInfo (rowOf dto) = fitsDto dto"
  by (simp_all add: userInfo_data rowOf_def dtoOf_def fitsUserInfo_def fitsDto_def)

lemma profilesOf_iff:
  "distinct (map uiUid (userInfos db)) \<Longrightarrow> profilesOf db uid = Some d \<longleftrightarrow>
     rowOf d \<in> set (userInfos db) \<and> dtoUid d = uid"
proof -
  have "dtoOf r = d \<longleftrightarrow> r = rowOf d" for r by auto
  then show "distinct (map uiUid (userInfos db)) \<Longrightarrow> ?thesis"
    by (auto simp: profilesOf_def find_unique)
qed

lemma profilesOf_None: "profilesOf db uid = None \<longleftrightarrow> uid \<notin> uiUid ` set (userInfos db)"
  by (auto simp: profilesOf_def find_None_iff)

lemma profilesOf_cong: "userInfos db' = userInfos db \<Longrightarrow> profilesOf db' = profilesOf db"
  by (rule ext) (simp add: profilesOf_def)

text \<open>A change of one user's row, with that user's cache entry removed, keeps the cache coherent.\<close>

lemma infoFresh_removed:
  assumes "infoFresh db" and "\<And>u. u \<noteq> uid \<Longrightarrow>
      filter (\<lambda>r. uiUid r = u) xs = filter (\<lambda>r. uiUid r = u) (userInfos db)"
    and "\<And>k. k \<noteq> getUserInfoEntityCacheId uid \<Longrightarrow> Q k = queryCache db k"
    and "cacheOn db \<Longrightarrow> Q (getUserInfoEntityCacheId uid) = None"
  shows "infoFresh (db\<lparr>userInfos := xs, queryCache := Q\<rparr>)"
  unfolding infoFresh_def
proof (intro allI impI)
  fix u c d assume "cacheOn (db\<lparr>userInfos := xs, queryCache := Q\<rparr>)"
    "queryCache (db\<lparr>userInfos := xs, queryCache := Q\<rparr>) (getUserInfoEntityCacheId u) = Some (c, d)"
  with assms show "\<exists>r. c = CachedInfos [r] \<and>
      filter (\<lambda>r. uiUid r = u) (userInfos (db\<lparr>userInfos := xs, queryCache := Q\<rparr>)) = [r]"
    by (cases "u = uid") (auto simp: infoFresh_def)
qed

lemma infoFresh_changed:
  assumes "infoFresh db" and "\<And>u. u \<noteq> uid \<Longrightarrow>
      filter (\<lambda>r. uiUid r = u) xs = filter (\<lambda>r. uiUid r = u) (userInfos db)"
  shows "infoFresh (db\<lparr>queryCache := queryCache db |` (- {getUserInfoEntityCacheId uid}), userInfos := xs\<rparr>)"
proof -
  have "infoFresh (db\<lparr>userInfos := xs, queryCache := queryCache db |` (- {getUserInfoEntityCacheId uid})\<rparr>)"
    using assms by (intro infoFresh_removed [where uid = uid]) auto
  then show ?thesis by (simp add: infoFresh_def)
qed

lemma read_step:
  assumes ok: "schemaOk db" "infoFresh db" and run: "svcGetUserInfoByUid sqlDb now uid db = (res, db')"
  shows "infoFresh db' \<and> userInfos db' = userInfos db \<and>
    res = (case profilesOf db uid of None \<Rightarrow> Inl (UserInfoNotFoundException uid) | Some d \<Rightarrow> Inr d)"
proof -
  let ?id = "getUserInfoEntityCacheId uid" and ?q = "\<lambda>db. filter (\<lambda>r. uiUid r = uid) (userInfos db)"
  have p: "profilesOf db uid = (case ?q db of [] \<Rightarrow> None | r # _ \<Rightarrow> Some (dtoOf r))"
    by (auto simp: profilesOf_def find_filter split: list.split)
  have f: "c = CachedInfos (?q db)" if "cacheOn db" "queryCache db ?id = Some (c, d)" for c d
    using ok(2) that unfolding infoFresh_def by metis
  obtain Q where q:
    "findUserInfoEntity sqlDb now uid db =
       (case ?q db of [] \<Rightarrow> Inl (UserInfoNotFoundException uid) | r # _ \<Rightarrow> Inr r, db\<lparr>queryCache := Q\<rparr>)"
    "\<And>k. k \<noteq> ?id \<Longrightarrow> Q k = queryCache db k"
    "\<And>c d. cacheOn db \<Longrightarrow> Q ?id = Some (c, d) \<Longrightarrow> c = CachedInfos (?q db) \<and> ?q db \<noteq> []"
    unfolding findUserInfoEntity_def removeUserInfoCache_def sqlDb_sel sqlFindUserInfo_def
    by (rule cachedFind [of db ?id CachedInfos ?q unInfos]) (auto dest: f)
  have one: "?q db = [] \<or> (\<exists>r. ?q db = [r])"
    using filter_key_cases [of uiUid "userInfos db" uid] ok(1) by (auto simp: schemaOk_def)
  have "infoFresh (db\<lparr>queryCache := Q\<rparr>)"
    unfolding infoFresh_def
  proof (intro allI impI)
    fix u c d assume "cacheOn (db\<lparr>queryCache := Q\<rparr>)"
      "queryCache (db\<lparr>queryCache := Q\<rparr>) (getUserInfoEntityCacheId u) = Some (c, d)"
    with ok(2) q(2,3) one show "\<exists>r. c = CachedInfos [r] \<and>
        filter (\<lambda>r. uiUid r = u) (userInfos (db\<lparr>queryCache := Q\<rparr>)) = [r]"
      by (cases "u = uid") (auto simp: infoFresh_def)
  qed
  with q(1) run p show ?thesis
    by (auto simp: svcGetUserInfoByUid_def bindR_def split: list.splits)
qed

lemma profilesOf_upd:
  assumes "\<And>u. List.find (\<lambda>r. uiUid r = u) xs =
      (if u = uid then r else List.find (\<lambda>r. uiUid r = u) (userInfos db))"
  shows "profilesOf (db\<lparr>userInfos := xs\<rparr>) = (profilesOf db)(uid := map_option dtoOf r)"
  using assms by (auto simp: profilesOf_def)

lemma profilesOf_queryCache [simp]:
  "profilesOf (db\<lparr>queryCache := Q\<rparr>) = profilesOf db"
  "profilesOf (db\<lparr>queryCache := Q, userInfos := xs\<rparr>) = profilesOf (db\<lparr>userInfos := xs\<rparr>)"
  by (auto simp: profilesOf_def)

lemma nickname_taken_iff:
  assumes "schemaOk db"
  shows "nicknameTaken (profilesOf db) dto \<longleftrightarrow>
    (\<exists>r \<in> set (userInfos db). uiUid r \<noteq> dtoUid dto \<and> uiNickname r = dtoNickname dto)"
proof -
  have d: "distinct (map uiUid (userInfos db))" using assms by (simp add: schemaOk_def)
  show ?thesis
  proof
    assume "nicknameTaken (profilesOf db) dto"
    then obtain d where "rowOf d \<in> set (userInfos db)" "dtoUid d \<noteq> dtoUid dto" "dtoNickname d = dtoNickname dto"
      by (auto simp: nicknameTaken_def profilesOf_iff [OF d])
    then show "\<exists>r \<in> set (userInfos db). uiUid r \<noteq> dtoUid dto \<and> uiNickname r = dtoNickname dto"
      by (intro bexI [of _ "rowOf d"]) simp_all
  next
    assume "\<exists>r \<in> set (userInfos db). uiUid r \<noteq> dtoUid dto \<and> uiNickname r = dtoNickname dto"
    then obtain r where r: "r \<in> set (userInfos db)" "uiUid r \<noteq> dtoUid dto" "uiNickname r = dtoNickname dto"
      by blast
    then have "profilesOf db (uiUid r) = Some (dtoOf r)" by (simp add: profilesOf_iff [OF d])
    with r show "nicknameTaken (profilesOf db) dto" unfolding nicknameTaken_def by (metis dto_conversions(8))
  qed
qed

lemma find_snoc: "List.find P (xs @ [x]) = (case List.find P xs of None \<Rightarrow> if P x then Some x else None | Some y \<Rightarrow> Some y)"
  by (induction xs) simp_all

lemma find_map_if:
  assumes "\<And>x. uiUid (g x) = uiUid x"
  shows "List.find (\<lambda>r. uiUid r = u) (map g xs) = map_option g (List.find (\<lambda>r. uiUid r = u) xs)"
  by (induction xs) (simp_all add: assms)

lemma create_step:
  assumes ok: "schemaOk db" "infoFresh db" and run: "svcCreateUserInfo sqlDb dto db = (res, db')"
  shows "infoFresh db' \<and> (map_sum id (\<lambda>_. None) res, profilesOf db') =
    profileSpec (hasAuth db) (CreateProfile dto) (profilesOf db)"
proof (cases "profilesOf db (dtoUid dto)")
  case None
  then have n: "dtoUid dto \<notin> uiUid ` set (userInfos db)" by (simp add: profilesOf_None)
  then have t: "dtoNickname dto \<in> uiNickname ` set (userInfos db) \<longleftrightarrow> nicknameTaken (profilesOf db) dto"
    by (auto simp: nickname_taken_iff [OF ok(1)] image_iff) metis+
  have "List.find (\<lambda>r. uiUid r = dtoUid dto) (userInfos db) = None"
    using n by (simp add: find_None_key)
  then have "List.find (\<lambda>r. uiUid r = u) (userInfos db @ [rowOf dto]) =
      (if u = dtoUid dto then Some (rowOf dto) else List.find (\<lambda>r. uiUid r = u) (userInfos db))" for u
    by (auto simp: find_snoc split: option.split)
  then have p: "profilesOf (db\<lparr>userInfos := userInfos db @ [rowOf dto]\<rparr>) = (profilesOf db)(dtoUid dto \<mapsto> dto)"
    using profilesOf_upd [of "userInfos db @ [rowOf dto]" "dtoUid dto" "Some (rowOf dto)" db] by simp
  have "filter (\<lambda>r. uiUid r = dtoUid dto) (userInfos db) = []" using n by (rule filter_absent)
  then have "infoFresh (db\<lparr>userInfos := userInfos db @ [rowOf dto]\<rparr>)"
    using ok(2) unfolding infoFresh_def by fastforce
  with None n t p ok(2) run show ?thesis
    by (auto simp: userInfo_defs sqlExistUserInfo_def sqlInsertUserInfo_def run_simps split: if_splits)
next
  case (Some d)
  then have "dtoUid dto \<in> uiUid ` set (userInfos db)" by (metis profilesOf_None option.discI)
  with Some ok(2) run show ?thesis
    by (auto simp: userInfo_defs sqlExistUserInfo_def run_simps)
qed

lemma hasRow_iff: "uid \<in> uiUid ` set (userInfos db) \<longleftrightarrow> profilesOf db uid \<noteq> None"
  by (simp add: profilesOf_None)

lemma update_step:
  assumes ok: "schemaOk db" "infoFresh db" and run: "svcUpdateUserInfo sqlDb dto db = (res, db')"
  shows "infoFresh db' \<and> (map_sum id (\<lambda>_. None) res, profilesOf db') =
    profileSpec (hasAuth db) (UpdateProfile dto) (profilesOf db)"
proof (cases "profilesOf db (dtoUid dto)")
  case None
  with ok(2) run show ?thesis
    by (auto simp: userInfo_defs sqlExistUserInfo_def run_simps hasRow_iff)
next
  case (Some d)
  let ?id = "getUserInfoEntityCacheId (dtoUid dto)" and ?u = "dtoUid dto"
  let ?g = "\<lambda>r. if uiUid r = ?u then rowOf dto else r"
  let ?xs = "map ?g (userInfos db)"
  define db1 where "db1 = (if cacheOn db then db\<lparr>queryCache := queryCache db |` (- {?id})\<rparr> else db)"
  have db1: "userInfos db1 = userInfos db" "profilesOf db1 = profilesOf db" by (simp_all add: db1_def)
  have "\<exists>r. List.find (\<lambda>r. uiUid r = ?u) (userInfos db) = Some r"
    using Some by (auto simp: profilesOf_def)
  then have "List.find (\<lambda>r. uiUid r = u) ?xs =
      (if u = ?u then Some (rowOf dto) else List.find (\<lambda>r. uiUid r = u) (userInfos db))" for u
    by (auto simp: find_map_if [of ?g] find_Some_iff) (auto simp: find_Some_iff option.map_id0
        split: option.splits intro!: option.map_ident_strong)
  then have p: "profilesOf (db1\<lparr>userInfos := ?xs\<rparr>) = (profilesOf db)(?u \<mapsto> dto)"
    using profilesOf_upd [of ?xs ?u "Some (rowOf dto)" db1] by (simp add: db1)
  have f: "filter (\<lambda>r. uiUid r = u) ?xs = filter (\<lambda>r. uiUid r = u) (userInfos db)" if "u \<noteq> ?u" for u
    using that by (simp add: filter_replace_other)
  have fresh: "infoFresh (db1\<lparr>userInfos := xs\<rparr>)" if "xs = ?xs \<or> xs = userInfos db" for xs
  proof (cases "cacheOn db")
    case True
    have "infoFresh (db\<lparr>queryCache := queryCache db |` (- {?id}), userInfos := xs\<rparr>)"
      using ok(2) that f by (intro infoFresh_changed) auto
    with True show ?thesis by (simp add: db1_def)
  qed (simp add: db1_def infoFresh_def)
  have fresh1: "infoFresh db1" using fresh [of "userInfos db"] by (simp add: infoFresh_def db1)
  have t: "list_ex (\<lambda>r. uiUid r \<noteq> ?u \<and> uiNickname r = dtoNickname dto) (userInfos db)
      \<longleftrightarrow> nicknameTaken (profilesOf db) dto"
    by (simp add: nickname_taken_iff [OF ok(1)] list_ex_iff)
  have e: "list_ex (\<lambda>r. uiUid r = ?u) (userInfos db)"
    using Some hasRow_iff [of ?u db] by (auto simp: list_ex_iff)
  have "sqlUpdateUserInfo (rowOf dto) db1 =
     (if \<not> fitsDto dto then (Inl tooLong, db1) else if nicknameTaken (profilesOf db) dto then (Inl duplicate, db1)
      else (Inr (), db1\<lparr>userInfos := ?xs\<rparr>))"
    using e t by (simp add: sqlUpdateUserInfo_def Let_def db1)
  moreover have "sqlRemoveCached [?id] db = (Inr (), db1)" by (simp add: sqlRemoveCached_def db1_def)
  ultimately show ?thesis using Some ok(2) run p fresh [of ?xs] fresh1 db1
    by (auto simp: userInfo_defs sqlExistUserInfo_def run_simps hasRow_iff split: if_splits)
qed

lemma delete_step:
  assumes ok: "schemaOk db" "infoFresh db" and run: "svcDeleteUserInfoByUid sqlDb uid db = (res, db')"
  shows "infoFresh db' \<and> (map_sum id (\<lambda>_. None) res, profilesOf db') =
    profileSpec (hasAuth db) (DeleteProfile uid) (profilesOf db)"
proof (cases "profilesOf db uid")
  case None
  with ok(2) run show ?thesis
    by (auto simp: userInfo_defs sqlExistUserInfo_def run_simps hasRow_iff)
next
  case (Some d)
  let ?id = "getUserInfoEntityCacheId uid" and ?xs = "filter (\<lambda>r. uiUid r \<noteq> uid) (userInfos db)"
  define db1 where "db1 = (if cacheOn db then db\<lparr>queryCache := queryCache db |` (- {?id})\<rparr> else db)"
  have db1: "userInfos db1 = userInfos db" "profilesOf db1 = profilesOf db" by (simp_all add: db1_def)
  have "List.find (\<lambda>r. uiUid r = u) ?xs =
      (if u = uid then None else List.find (\<lambda>r. uiUid r = u) (userInfos db))" for u
    by (rule find_removed)
  then have p: "profilesOf (db1\<lparr>userInfos := ?xs\<rparr>) = (profilesOf db)(uid := None)"
    using profilesOf_upd [of ?xs uid None db1] by (simp add: db1)
  have f: "filter (\<lambda>r. uiUid r = u) ?xs = filter (\<lambda>r. uiUid r = u) (userInfos db)" if "u \<noteq> uid" for u
    using that by (rule filter_removed_other)
  have fresh: "infoFresh (db1\<lparr>userInfos := ?xs\<rparr>)"
  proof (cases "cacheOn db")
    case True
    have "infoFresh (db\<lparr>queryCache := queryCache db |` (- {?id}), userInfos := ?xs\<rparr>)"
      using ok(2) f by (rule infoFresh_changed)
    with True show ?thesis by (simp add: db1_def)
  qed (simp add: db1_def infoFresh_def)
  have "sqlRemoveCached [?id] db = (Inr (), db1)" by (simp add: sqlRemoveCached_def db1_def)
  with Some ok(2) run p fresh db1 show ?thesis
    by (auto simp: userInfo_defs sqlExistUserInfo_def sqlDeleteUserInfo_def run_simps hasRow_iff)
qed

section \<open>The component as a store of profiles\<close>

text \<open>The tables, without the query cache: reads do not change them.\<close>

definition tablesOf ::
  "dbState \<Rightarrow> UserAuthEntity list \<times> UserInfoEntity list \<times> PostEntity list \<times> PostLikeEntity list \<times> int" where
  "tablesOf db = (userAuths db, userInfos db, posts db, postLikes db, nextPostId db)"

lemma tablesOf_queryCache [simp]: "tablesOf (db\<lparr>queryCache := q\<rparr>) = tablesOf db"
  by (simp add: tablesOf_def)

lemma keeps_tables_read: "keeps (\<lambda>db. tablesOf db = T) (svcGetUserInfoByUid sqlDb now uid)"
  unfolding userInfo_defs sqlDb_sel by (intro keeps_intros keeps_reads) simp_all

lemma keeps_accounts: "keeps (\<lambda>db. userAuths db = A) (profileCall sqlDb op)"
proof -
  have w: "keeps (\<lambda>db. userAuths db = A) (sqlInsertUserInfo row)"
    "keeps (\<lambda>db. userAuths db = A) (sqlUpdateUserInfo row)"
    "keeps (\<lambda>db. userAuths db = A) (sqlDeleteUserInfo uid)" for row uid
    by (simp_all add: keeps_def sqlInsertUserInfo_def sqlUpdateUserInfo_def sqlDeleteUserInfo_def Let_def)
  show ?thesis
    by (cases op) (simp_all only: profileCall.simps userInfo_defs sqlDb_sel,
        (rule keeps_intros keeps_reads w | simp)+)
qed

lemma keeps_schema_profile [keeps_intros]: "keeps schemaOk (profileCall sqlDb op)"
  by (cases op) (simp_all only: profileCall.simps userInfo_defs sqlDb_sel, (rule keeps_intros | simp)+)

text \<open>One call on the reference database.\<close>

lemma profile_step:
  assumes ok: "schemaOk db" "infoFresh db" and run: "profileCall sqlDb op db = (res, db')"
  shows "schemaOk db' \<and> infoFresh db' \<and> userAuths db' = userAuths db \<and>
    (res, profilesOf db') = profileSpec (hasAuth db) op (profilesOf db)"
proof -
  have "infoFresh db' \<and> (res, profilesOf db') = profileSpec (hasAuth db) op (profilesOf db)"
  proof (cases op)
    case (CreateProfile dto)
    obtain r where "svcCreateUserInfo sqlDb dto db = (r, db')" "res = map_sum id (\<lambda>_. None) r"
      using run CreateProfile by (auto simp: bindR_def split: prod.splits sum.splits)
    with create_step [OF ok this(1)] CreateProfile show ?thesis by simp
  next
    case (ReadProfile now uid)
    obtain r where r: "svcGetUserInfoByUid sqlDb now uid db = (r, db')" "res = map_sum id Some r"
      using run ReadProfile by (auto simp: bindR_def split: prod.splits sum.splits)
    with read_step [OF ok r(1)] profilesOf_cong [of db' db] ReadProfile show ?thesis
      by (auto split: option.split)
  next
    case (UpdateProfile dto)
    obtain r where "svcUpdateUserInfo sqlDb dto db = (r, db')" "res = map_sum id (\<lambda>_. None) r"
      using run UpdateProfile by (auto simp: bindR_def split: prod.splits sum.splits)
    with update_step [OF ok this(1)] UpdateProfile show ?thesis by simp
  next
    case (DeleteProfile uid)
    obtain r where "svcDeleteUserInfoByUid sqlDb uid db = (r, db')" "res = map_sum id (\<lambda>_. None) r"
      using run DeleteProfile by (auto simp: bindR_def split: prod.splits sum.splits)
    with delete_step [OF ok this(1)] DeleteProfile show ?thesis by simp
  qed
  with keepsD [OF keeps_schema_profile ok(1) run] keepsD [OF keeps_accounts refl run] show ?thesis by simp
qed

text \<open>
  The interface through which other components read profiles: \<open>prof\<close> is the stored map, \<open>frame\<close>
  what a read leaves alone.
\<close>

locale profile_store =
  fixes get :: "nat \<Rightarrow> string \<Rightarrow> ('d, exn, UserInfoDto) run"
    and prof :: "'d \<Rightarrow> string \<Rightarrow> UserInfoDto option"
    and good :: "'d \<Rightarrow> bool" and frame :: "'d \<Rightarrow> 'f"
  assumes get_result: "good s \<Longrightarrow> get now uid s = (res, s') \<Longrightarrow>
      res = (case prof s uid of None \<Rightarrow> Inl (UserInfoNotFoundException uid) | Some d \<Rightarrow> Inr d)"
    and get_good: "good s \<Longrightarrow> get now uid s = (res, s') \<Longrightarrow> good s'"
    and get_frame: "good s \<Longrightarrow> get now uid s = (res, s') \<Longrightarrow> prof s' = prof s \<and> frame s' = frame s"

sublocale orm \<subseteq> profiles: profile_store "svcGetUserInfoByUid D" "\<lambda>s. profilesOf (abst s)"
  "\<lambda>s. schemaOk (abst s) \<and> infoFresh (abst s)" "\<lambda>s. tablesOf (abst s)"
proof unfold_locales
  fix s now uid res s' assume g: "schemaOk (abst s) \<and> infoFresh (abst s)"
    and run: "svcGetUserInfoByUid D now uid s = (res, s')"
  have r: "svcGetUserInfoByUid sqlDb now uid (abst s) = (res, abst s')"
    by (rule sim_apply [OF sim_svcGetUserInfoByUid run])
  note st = read_step [OF conjunct1 [OF g] conjunct2 [OF g] r]
  show "res = (case profilesOf (abst s) uid of None \<Rightarrow> Inl (UserInfoNotFoundException uid) | Some d \<Rightarrow> Inr d)"
    using st by blast
  have "profileCall sqlDb (ReadProfile now uid) (abst s) = (map_sum id Some res, abst s')"
    using r by (cases res) (simp_all add: bindR_def)
  from profile_step [OF conjunct1 [OF g] conjunct2 [OF g] this]
  show "schemaOk (abst s') \<and> infoFresh (abst s')" by simp
  show "profilesOf (abst s') = profilesOf (abst s) \<and> tablesOf (abst s') = tablesOf (abst s)"
    using st profilesOf_cong keepsD [OF keeps_tables_read refl r] by blast
qed

section \<open>Properties\<close>

fun profileCalls ::
  "('d, 'z) ormOps_scheme \<Rightarrow> profileOp list \<Rightarrow> 'd \<Rightarrow> (exn + UserInfoDto option) list \<times> 'd" where
  "profileCalls D [] s = ([], s)"
| "profileCalls D (op # calls) s =
     (case profileCall D op s of (res, s1) \<Rightarrow>
        (case profileCalls D calls s1 of (rs, s2) \<Rightarrow> (res # rs, s2)))"

fun profileSpecs ::
  "(string \<Rightarrow> bool) \<Rightarrow> profileOp list \<Rightarrow> (string \<Rightarrow> UserInfoDto option) \<Rightarrow>
   (exn + UserInfoDto option) list \<times> (string \<Rightarrow> UserInfoDto option)" where
  "profileSpecs account [] m = ([], m)"
| "profileSpecs account (op # calls) m =
     (case profileSpec account op m of (res, m1) \<Rightarrow>
        (case profileSpecs account calls m1 of (rs, m2) \<Rightarrow> (res # rs, m2)))"


lemma demoDb_infoFresh [simp]: "infoFresh demoDb"
  by (simp add: demoDb_def infoFresh_def)

lemma demoDb_sel [simp]:
  "hasAuth demoDb u \<longleftrightarrow> u = ''a'' \<or> u = ''b''" "profilesOf demoDb = (\<lambda>_. None)"
  by (auto simp: hasAuth_def demoDb_def demoAuth_def profilesOf_def)


end
