(* ===== verification/Post.thy ===== *)
theory Post
  imports UserInfo
begin

text \<open>
  Posts and likes: DTOs and DAOs (\<open>blog/dto/\<close>, \<open>blog/dao/\<close>), repositories
  (\<open>blog/repository/\<close>) and services (\<open>blog/service/\<close>), over any database of the locale \<open>orm\<close>. The
  like service reads nicknames through the interface \<open>profile_store\<close>.
\<close>

section \<open>Data\<close>

record PostInterface =
  ipPostId :: int
  ipPostUid :: string
  ipTitle :: string
  ipWriteDatetime :: nat
  ipContents :: string
  ipHits :: int

record PostDao =
  pdPostId :: int
  pdPostUid :: string
  pdTitle :: string
  pdWriteDatetime :: nat
  pdContents :: string
  pdHits :: int
  pdPostLikeNicknameList :: "string list option"

record PostDto =
  ptPostId :: int
  ptPostUid :: string
  ptTitle :: string
  ptWriteDatetime :: nat
  ptContents :: string
  ptHits :: int
  ptPostLikeNicknameList :: "string list option"

text \<open>The spread of a row into an object literal: its properties.\<close>

definition spreadPostEntity :: "PostEntity \<Rightarrow> PostInterface" where
  "spreadPostEntity e =
     \<lparr>ipPostId = peId e, ipPostUid = peUid e, ipTitle = peTitle e, ipWriteDatetime = peWriteDatetime e,
      ipContents = peContents e, ipHits = peHits e\<rparr>"

definition postDaoFrom :: "PostInterface \<Rightarrow> PostDao" where
  "postDaoFrom i =
     \<lparr>pdPostId = ipPostId i, pdPostUid = ipPostUid i, pdTitle = ipTitle i,
      pdWriteDatetime = ipWriteDatetime i, pdContents = ipContents i, pdHits = ipHits i,
      pdPostLikeNicknameList = None\<rparr>"

definition setPostLikeNicknameList :: "string list \<Rightarrow> PostDao \<Rightarrow> PostDao" where
  "setPostLikeNicknameList ns d = d\<lparr>pdPostLikeNicknameList := Some ns\<rparr>"

definition toPostDto :: "PostDao \<Rightarrow> PostDto" where
  "toPostDto d =
     \<lparr>ptPostId = pdPostId d, ptPostUid = pdPostUid d, ptTitle = pdTitle d,
      ptWriteDatetime = pdWriteDatetime d, ptContents = pdContents d, ptHits = pdHits d,
      ptPostLikeNicknameList = pdPostLikeNicknameList d\<rparr>"

record PostLikeDto =
  ldPostId :: int
  ldUid :: string

record PostLikeDao =
  lkPostId :: int
  lkUid :: string

definition postLikeDaoFrom :: "int \<Rightarrow> string \<Rightarrow> PostLikeDao" where
  "postLikeDaoFrom postId uid = \<lparr>lkPostId = postId, lkUid = uid\<rparr>"

definition daoToPostLikeEntity :: "PostLikeDao \<Rightarrow> PostLikeEntity" where
  "daoToPostLikeEntity d = \<lparr>plPostId = lkPostId d, plUid = lkUid d\<rparr>"

text \<open>\<open>CreatePostDto\<close>: the validated body. \<open>PatchPostDto\<close> is \<open>postPatch\<close>.\<close>

record CreatePostDto =
  cdTitle :: string
  cdContents :: string

section \<open>Repository of likes\<close>

definition removePostLikeEntityListCache :: "('d, 'z) ormOps_scheme \<Rightarrow> int \<Rightarrow> ('d, exn, unit) run" where
  "removePostLikeEntityListCache D postId = removeCached D [getPostLikeEntityListCacheId postId]"

definition postLikeIsExist :: "('d, 'z) ormOps_scheme \<Rightarrow> PostLikeEntity \<Rightarrow> ('d, exn, bool) run" where
  "postLikeIsExist D e = existPostLike D (plPostId e) (plUid e)"

definition findPostLikeEntityList ::
  "('d, 'z) ormOps_scheme \<Rightarrow> nat \<Rightarrow> int \<Rightarrow> ('d, exn, PostLikeEntity list) run" where
  "findPostLikeEntityList D now postId =
     findPostLikes D now postId (getPostLikeEntityListCacheId postId) (getTicTimeHMS 24 0 0)"

definition findPostLikeEntitiesByPostIds ::
  "('d, 'z) ormOps_scheme \<Rightarrow> int list \<Rightarrow> ('d, exn, PostLikeEntity list) run" where
  "findPostLikeEntitiesByPostIds D postIds =
     (if postIds = [] then returnR [] else findPostLikesIn D postIds)"

definition savePostLikeEntity :: "('d, 'z) ormOps_scheme \<Rightarrow> PostLikeEntity \<Rightarrow> ('d, exn, unit) run" where
  "savePostLikeEntity D e =
     bindR (removePostLikeEntityListCache D (plPostId e)) (\<lambda>_. insertPostLike D e)"

definition removePostLikeEntity :: "('d, 'z) ormOps_scheme \<Rightarrow> PostLikeEntity \<Rightarrow> ('d, exn, unit) run" where
  "removePostLikeEntity D e =
     bindR (removePostLikeEntityListCache D (plPostId e)) (\<lambda>_. deletePostLike D (plPostId e) (plUid e))"

section \<open>Service of likes\<close>

definition toPostLikeEntity :: "PostLikeDto \<Rightarrow> PostLikeEntity" where
  "toPostLikeEntity dto = daoToPostLikeEntity (postLikeDaoFrom (ldPostId dto) (ldUid dto))"

definition addPostLikeUser :: "('d, 'z) ormOps_scheme \<Rightarrow> PostLikeDto \<Rightarrow> ('d, exn, unit) run" where
  "addPostLikeUser D dto =
     (let e = toPostLikeEntity dto in
      bindR (postLikeIsExist D e) (\<lambda>isExist.
        if isExist then throwR PostLikeAlreadyExistsException else savePostLikeEntity D e))"

definition removePostLikeUser :: "('d, 'z) ormOps_scheme \<Rightarrow> PostLikeDto \<Rightarrow> ('d, exn, unit) run" where
  "removePostLikeUser D dto =
     (let e = toPostLikeEntity dto in
      bindR (postLikeIsExist D e) (\<lambda>isExist.
        if \<not> isExist then throwR PostLikeNotFoundException else removePostLikeEntity D e))"

text \<open>\<open>get\<close> is the profile service's \<open>getUserInfoByUid\<close>.\<close>

definition getNicknameList ::
  "(nat \<Rightarrow> string \<Rightarrow> ('d, exn, UserInfoDto) run) \<Rightarrow> nat \<Rightarrow> PostLikeEntity list \<Rightarrow> ('d, exn, string list) run" where
  "getNicknameList get now es =
     mapR (\<lambda>e. bindR (get now (plUid e)) (\<lambda>dto. returnR (dtoNickname dto))) es"

text \<open>The \<open>Map\<close> of groups, in insertion order.\<close>

fun pushLike :: "PostLikeEntity \<Rightarrow> (int \<times> PostLikeEntity list) list \<Rightarrow> (int \<times> PostLikeEntity list) list" where
  "pushLike e [] = [(plPostId e, [e])]"
| "pushLike e ((k, es) # groups) =
     (if k = plPostId e then (k, es @ [e]) # groups else (k, es) # pushLike e groups)"

definition groupedByPostId :: "PostLikeEntity list \<Rightarrow> (int \<times> PostLikeEntity list) list" where
  "groupedByPostId es = foldl (\<lambda>groups e. pushLike e groups) [] es"

text \<open>
  The result map. Its entries are set to the empty list for every id, then to the nicknames of each
  group in turn; the pairs of the second loop are collected before they are entered.
\<close>

definition getPostLikeMapByPostIds ::
  "('d, 'z) ormOps_scheme \<Rightarrow> (nat \<Rightarrow> string \<Rightarrow> ('d, exn, UserInfoDto) run) \<Rightarrow> nat \<Rightarrow> int list \<Rightarrow>
   ('d, exn, int \<Rightarrow> string list option) run" where
  "getPostLikeMapByPostIds D get now postIds =
     bindR (findPostLikeEntitiesByPostIds D postIds) (\<lambda>es.
     bindR (mapR (\<lambda>(postId, ls). bindR (getNicknameList get now ls) (\<lambda>ns. returnR (postId, ns)))
              (groupedByPostId es)) (\<lambda>pairs.
     returnR (foldl (\<lambda>m (postId, ns). m(postId \<mapsto> ns))
                (foldl (\<lambda>m postId. m(postId \<mapsto> [])) Map.empty postIds) pairs)))"

section \<open>Repository of posts\<close>

definition repoCreatePost ::
  "('d, 'z) ormOps_scheme \<Rightarrow> nat \<Rightarrow> string \<Rightarrow> CreatePostDto \<Rightarrow> ('d, exn, unit) run" where
  "repoCreatePost D now authUid dto =
     insertPost D now \<lparr>npUid = authUid, npTitle = cdTitle dto, npContents = cdContents dto\<rparr>"

definition findPostEntityListAndCountByPage ::
  "('d, 'z) ormOps_scheme \<Rightarrow> nat \<Rightarrow> int \<Rightarrow> ('d, exn, PostEntity list \<times> int) run" where
  "findPostEntityListAndCountByPage D now page =
     bindR (liftR (getSkip page)) (\<lambda>skip.
       findPosts D now None TAKE skip (getPostEntityListByPageCacheId page) (getTicTimeMS 5 0))"

definition findPostEntityListAndCountByPostPageDto ::
  "('d, 'z) ormOps_scheme \<Rightarrow> nat \<Rightarrow> PostPageDto \<Rightarrow> ('d, exn, PostEntity list \<times> int) run" where
  "findPostEntityListAndCountByPostPageDto D now dto =
     bindR (liftR (getSkip (dtoPage dto))) (\<lambda>skip.
       findPosts D now (Some (dtoPostUid dto)) TAKE skip (getPostEntityListByPostPageDtoCacheId dto)
         (getTicTimeHMS 24 0 0))"

definition findPostEntityByPostId :: "('d, 'z) ormOps_scheme \<Rightarrow> int \<Rightarrow> ('d, exn, PostEntity) run" where
  "findPostEntityByPostId D postId =
     catchR (findPost D postId)
       (\<lambda>error. if error = EntityNotFoundError then throwR (PostNotFoundException postId) else throwR error)"

definition repoUpdatePost ::
  "('d, 'z) ormOps_scheme \<Rightarrow> string \<Rightarrow> int \<Rightarrow> postPatch \<Rightarrow> ('d, exn, unit) run" where
  "repoUpdatePost D postUid postId patch =
     (if patchTitle patch = None \<and> patchContents patch = None then returnR ()
      else updatePostRow D postId postUid patch)"

definition repoDeletePost :: "('d, 'z) ormOps_scheme \<Rightarrow> string \<Rightarrow> int \<Rightarrow> ('d, exn, unit) run" where
  "repoDeletePost D postUid postId = deletePostRow D postId postUid"

section \<open>Service of posts\<close>

definition toPostDaoList ::
  "('d, 'z) ormOps_scheme \<Rightarrow> (nat \<Rightarrow> string \<Rightarrow> ('d, exn, UserInfoDto) run) \<Rightarrow> nat \<Rightarrow> PostEntity list \<Rightarrow>
   ('d, exn, PostDao list) run" where
  "toPostDaoList D get now es =
     (let daos = map (\<lambda>e. postDaoFrom (spreadPostEntity e)) es in
      bindR (getPostLikeMapByPostIds D get now (map pdPostId daos)) (\<lambda>m.
        returnR (map (\<lambda>d. setPostLikeNicknameList
           (case m (pdPostId d) of None \<Rightarrow> [] | Some ns \<Rightarrow> ns) d) daos)))"

definition svcCreatePost ::
  "('d, 'z) ormOps_scheme \<Rightarrow> nat \<Rightarrow> string \<Rightarrow> CreatePostDto \<Rightarrow> ('d, exn, unit) run" where
  "svcCreatePost D now authUid dto = repoCreatePost D now authUid dto"

definition getPostPageListByPage ::
  "('d, 'z) ormOps_scheme \<Rightarrow> (nat \<Rightarrow> string \<Rightarrow> ('d, exn, UserInfoDto) run) \<Rightarrow> nat \<Rightarrow> int \<Rightarrow>
   ('d, exn, PostDto PaginationDto) run" where
  "getPostPageListByPage D get now page =
     bindR (findPostEntityListAndCountByPage D now page) (\<lambda>(initial, n).
       (let lastPage = getLastPage n in
        bindR (if lastPage < page
               then bindR (findPostEntityListAndCountByPage D now lastPage) (\<lambda>(es, _). returnR (es, lastPage))
               else returnR (initial, page)) (\<lambda>(es, currentPage).
        bindR (toPostDaoList D get now es) (\<lambda>daos.
        liftR (toPaginationDto (map toPostDto daos) n currentPage)))))"

definition getPostPageListByPostUid ::
  "('d, 'z) ormOps_scheme \<Rightarrow> (nat \<Rightarrow> string \<Rightarrow> ('d, exn, UserInfoDto) run) \<Rightarrow> nat \<Rightarrow> string \<Rightarrow> int \<Rightarrow>
   ('d, exn, PostDto PaginationDto) run" where
  "getPostPageListByPostUid D get now postUid page =
     bindR (findPostEntityListAndCountByPostPageDto D now \<lparr>dtoPostUid = postUid, dtoPage = page\<rparr>)
       (\<lambda>(initial, n).
       (let lastPage = getLastPage n in
        bindR (if lastPage < page
               then bindR (findPostEntityListAndCountByPostPageDto D now
                             \<lparr>dtoPostUid = postUid, dtoPage = lastPage\<rparr>) (\<lambda>(es, _). returnR (es, lastPage))
               else returnR (initial, page)) (\<lambda>(es, currentPage).
        bindR (toPostDaoList D get now es) (\<lambda>daos.
        liftR (toPaginationDto (map toPostDto daos) n currentPage)))))"

definition getPostByPostId ::
  "('d, 'z) ormOps_scheme \<Rightarrow> (nat \<Rightarrow> string \<Rightarrow> ('d, exn, UserInfoDto) run) \<Rightarrow> nat \<Rightarrow> int \<Rightarrow>
   ('d, exn, PostDto) run" where
  "getPostByPostId D get now postId =
     bindR (findPostEntityByPostId D postId) (\<lambda>e.
       (let dao = postDaoFrom (spreadPostEntity e) in
        bindR (getPostLikeMapByPostIds D get now [pdPostId dao]) (\<lambda>m.
          returnR (toPostDto (setPostLikeNicknameList
            (case m (pdPostId dao) of None \<Rightarrow> [] | Some ns \<Rightarrow> ns) dao)))))"

definition svcUpdatePost ::
  "('d, 'z) ormOps_scheme \<Rightarrow> string \<Rightarrow> int \<Rightarrow> postPatch \<Rightarrow> ('d, exn, unit) run" where
  "svcUpdatePost D authUid postId patch = repoUpdatePost D authUid postId patch"

definition svcDeletePost :: "('d, 'z) ormOps_scheme \<Rightarrow> string \<Rightarrow> int \<Rightarrow> ('d, exn, unit) run" where
  "svcDeletePost D authUid postId = repoDeletePost D authUid postId"

lemmas like_defs = removePostLikeEntityListCache_def postLikeIsExist_def findPostLikeEntitiesByPostIds_def
  savePostLikeEntity_def removePostLikeEntity_def addPostLikeUser_def removePostLikeUser_def
  getNicknameList_def getPostLikeMapByPostIds_def

lemmas post_defs = repoCreatePost_def findPostEntityListAndCountByPage_def
  findPostEntityListAndCountByPostPageDto_def findPostEntityByPostId_def repoUpdatePost_def repoDeletePost_def
  toPostDaoList_def svcCreatePost_def getPostPageListByPage_def getPostPageListByPostUid_def
  getPostByPostId_def svcUpdatePost_def svcDeletePost_def

section \<open>Over any database\<close>

context orm
begin

lemma sim_getPostLikeMap [sim_intros]:
  "sim abst (getPostLikeMapByPostIds D (svcGetUserInfoByUid D) now postIds)
     (getPostLikeMapByPostIds sqlDb (svcGetUserInfoByUid sqlDb) now postIds)"
  unfolding like_defs sqlDb_sel by (intro sim_intros sim_svcGetUserInfoByUid)

lemma sim_toPostDaoList [sim_intros]:
  "sim abst (toPostDaoList D (svcGetUserInfoByUid D) now es) (toPostDaoList sqlDb (svcGetUserInfoByUid sqlDb) now es)"
  unfolding toPostDaoList_def Let_def by (intro sim_intros)

lemma sim_posts [sim_intros]:
  "sim abst (getPostPageListByPage D (svcGetUserInfoByUid D) now page)
     (getPostPageListByPage sqlDb (svcGetUserInfoByUid sqlDb) now page)"
  "sim abst (getPostPageListByPostUid D (svcGetUserInfoByUid D) now postUid page)
     (getPostPageListByPostUid sqlDb (svcGetUserInfoByUid sqlDb) now postUid page)"
  "sim abst (getPostByPostId D (svcGetUserInfoByUid D) now postId)
     (getPostByPostId sqlDb (svcGetUserInfoByUid sqlDb) now postId)"
  unfolding getPostPageListByPage_def getPostPageListByPostUid_def getPostByPostId_def
    findPostEntityListAndCountByPage_def findPostEntityListAndCountByPostPageDto_def findPostEntityByPostId_def
    Let_def sqlDb_sel
  by (intro sim_intros sim_case_pair_fun)+

end

section \<open>The loop over the profiles\<close>

context profile_store
begin

text \<open>The nicknames of a list of likes: those of the profiles, or the first missing profile's error.\<close>

lemma nicknames:
  "good s \<Longrightarrow> getNicknameList get now es s = (res, s') \<Longrightarrow>
   good s' \<and> prof s' = prof s \<and> frame s' = frame s \<and>
   res = (case List.find (\<lambda>e. prof s (plUid e) = None) es of
       Some e \<Rightarrow> Inl (UserInfoNotFoundException (plUid e))
     | None \<Rightarrow> Inr (map (\<lambda>e. dtoNickname (the (prof s (plUid e)))) es))"
proof (induction es arbitrary: s res s')
  case (Cons e es)
  obtain r s1 where g: "get now (plUid e) s = (r, s1)" by fastforce
  note one = get_result [OF Cons.prems(1) g] get_good [OF Cons.prems(1) g] get_frame [OF Cons.prems(1) g]
  show ?case
  proof (cases "prof s (plUid e)")
    case None
    with one g Cons.prems show ?thesis by (auto simp: getNicknameList_def bindR_def)
  next
    case (Some d)
    obtain r2 s2 where i: "getNicknameList get now es s1 = (r2, s2)" by fastforce
    from Cons.IH [OF one(2) i] one g Some Cons.prems i show ?thesis
      by (auto simp: getNicknameList_def bindR_def split: option.splits sum.splits)
  qed
qed (simp add: getNicknameList_def)

lemma group_nicknames:
  "good s \<Longrightarrow>
   mapR (\<lambda>(postId, ls). bindR (getNicknameList get now ls) (\<lambda>ns. returnR (postId, ns))) groups s = (res, s') \<Longrightarrow>
   good s' \<and> prof s' = prof s \<and> frame s' = frame s \<and>
   (case List.find (\<lambda>e. prof s (plUid e) = None) (concat (map snd groups)) of
      Some e \<Rightarrow> res = Inl (UserInfoNotFoundException (plUid e))
    | None \<Rightarrow> res = Inr (map (\<lambda>(k, ls). (k, map (\<lambda>e. dtoNickname (the (prof s (plUid e)))) ls)) groups))"
proof (induction groups arbitrary: s res s')
  case (Cons g groups)
  obtain k ls where kl: "g = (k, ls)" by (cases g)
  obtain r s1 where n: "getNicknameList get now ls s = (r, s1)" by fastforce
  note one = nicknames [OF Cons.prems(1) n]
  have f: "List.find P (xs @ ys) = (case List.find P xs of None \<Rightarrow> List.find P ys | Some x \<Rightarrow> Some x)"
    for P and xs ys :: "PostLikeEntity list" by (induction xs) simp_all
  show ?case
  proof (cases "List.find (\<lambda>e. prof s (plUid e) = None) ls")
    case (Some e)
    with one n Cons.prems kl show ?thesis by (auto simp: bindR_def f)
  next
    case None
    obtain r2 s2 where i: "mapR (\<lambda>(postId, ls). bindR (getNicknameList get now ls) (\<lambda>ns. returnR (postId, ns)))
        groups s1 = (r2, s2)" by fastforce
    from one have g1: "good s1" "prof s1 = prof s" "frame s1 = frame s" by simp_all
    have "(res, s') =
        (case r2 of Inl e \<Rightarrow> (Inl e, s2)
         | Inr ps \<Rightarrow> (Inr ((k, map (\<lambda>e. dtoNickname (the (prof s (plUid e)))) ls) # ps), s2))"
    proof -
      have "(case g of (postId, ls) \<Rightarrow> bindR (getNicknameList get now ls) (\<lambda>ns. returnR (postId, ns))) s =
          (Inr (k, map (\<lambda>e. dtoNickname (the (prof s (plUid e)))) ls), s1)"
        using one n None kl by (simp add: bindR_def)
      from mapR_Cons_Inr [where xs = groups, OF this i] show ?thesis by (simp only: Cons.prems(2))
    qed
    with Cons.IH [OF g1(1) i] g1 None kl show ?thesis
      by (cases r2; cases "List.find (\<lambda>e. prof s (plUid e) = None) (concat (map snd groups))") (simp_all add: f)
  qed
qed simp

end

section \<open>Grouping\<close>

lemma pushLike_keys: "map fst (pushLike e gs) = (if plPostId e \<in> fst ` set gs then map fst gs else map fst gs @ [plPostId e])"
  by (induction e gs rule: pushLike.induct) auto

lemma pushLike_lookup: "distinct (map fst gs) \<Longrightarrow>
  map_of (pushLike e gs) = (map_of gs)(plPostId e \<mapsto> (case map_of gs (plPostId e) of None \<Rightarrow> [] | Some es \<Rightarrow> es) @ [e])"
  by (induction e gs rule: pushLike.induct) (auto simp: fun_eq_iff map_of_eq_None_iff split: option.split)

text \<open>The groups are the likes of each post, in table order, one group per liked post.\<close>

lemma groups_lookup:
  "distinct (map fst (groupedByPostId es)) \<and>
   map_of (groupedByPostId es) i =
     (if filter (\<lambda>e. plPostId e = i) es = [] then None else Some (filter (\<lambda>e. plPostId e = i) es))"
proof (induction es arbitrary: i rule: rev_induct)
  case Nil
  then show ?case by (simp add: groupedByPostId_def)
next
  case (snoc e es)
  have s: "groupedByPostId (es @ [e]) = pushLike e (groupedByPostId es)" by (simp add: groupedByPostId_def)
  show ?case using snoc.IH
    by (auto simp: s pushLike_keys pushLike_lookup)
qed

lemma groups_members: "set (concat (map snd (groupedByPostId es))) = set es"
proof (induction es rule: rev_induct)
  case (snoc e es)
  have "set (concat (map snd (pushLike e gs))) = insert e (set (concat (map snd gs)))" for gs
    by (induction e gs rule: pushLike.induct) auto
  then show ?case using snoc by (simp add: groupedByPostId_def)
qed (simp add: groupedByPostId_def)

lemma foldl_upd: "distinct (map fst ps) \<Longrightarrow> foldl (\<lambda>m (k, v). m(k \<mapsto> v)) m ps = m ++ map_of ps"
proof (induction ps arbitrary: m)
  case (Cons p ps)
  obtain k v where p: "p = (k, v)" by (cases p)
  have "map_of ps k = None" using Cons.prems p by (simp add: map_of_eq_None_iff)
  then show ?case using Cons p by (auto simp: fun_eq_iff map_add_def split: option.split)
qed simp

lemma foldl_empty: "foldl (\<lambda>m postId. m(postId \<mapsto> [])) m ids i = (if i \<in> set ids then Some [] else m i)"
  by (induction ids arbitrary: m) auto

end
