(* ===== verification/PostStore.thy ===== *)
theory PostStore
  imports Post
begin

text \<open>
  The writing operations on posts and likes refine an abstract store: a map from ids to posts and a
  set of likes, with ownership and referential integrity as guards.
\<close>

section \<open>The abstract store\<close>

record blog =
  blogPosts :: "int \<Rightarrow> PostEntity option"
  blogLikes :: "(int \<times> string) set"
  blogNext :: int

datatype blogOp =
    CreatePost nat string CreatePostDto
  | UpdatePost string int postPatch
  | DeletePost string int
  | AddLike string int
  | RemoveLike string int

text \<open>The user of an operation: the authenticated one.\<close>

fun actor :: "blogOp \<Rightarrow> string" where
  "actor (CreatePost now uid dto) = uid"
| "actor (UpdatePost uid postId patch) = uid"
| "actor (DeletePost uid postId) = uid"
| "actor (AddLike uid postId) = uid"
| "actor (RemoveLike uid postId) = uid"

fun blogCall :: "('d, 'z) ormOps_scheme \<Rightarrow> blogOp \<Rightarrow> ('d, exn, unit) run" where
  "blogCall D (CreatePost now uid dto) = svcCreatePost D now uid dto"
| "blogCall D (UpdatePost uid postId patch) = svcUpdatePost D uid postId patch"
| "blogCall D (DeletePost uid postId) = svcDeletePost D uid postId"
| "blogCall D (AddLike uid postId) = addPostLikeUser D \<lparr>ldPostId = postId, ldUid = uid\<rparr>"
| "blogCall D (RemoveLike uid postId) = removePostLikeUser D \<lparr>ldPostId = postId, ldUid = uid\<rparr>"

definition newRow :: "int \<Rightarrow> nat \<Rightarrow> string \<Rightarrow> CreatePostDto \<Rightarrow> PostEntity" where
  "newRow postId now uid dto =
     \<lparr>peId = postId, peUid = uid, peTitle = cdTitle dto, peWriteDatetime = now,
      peContents = cdContents dto, peHits = 0\<rparr>"

definition owns :: "blog \<Rightarrow> string \<Rightarrow> int \<Rightarrow> bool" where
  "owns b uid postId \<longleftrightarrow> (case blogPosts b postId of None \<Rightarrow> False | Some p \<Rightarrow> peUid p = uid)"

fun blogSpec :: "(string \<Rightarrow> bool) \<Rightarrow> blogOp \<Rightarrow> blog \<Rightarrow> (exn + unit) \<times> blog" where
  "blogSpec account (CreatePost now uid dto) b =
     (let row = newRow (blogNext b) now uid dto in
      if \<not> fitsPost row then (Inl tooLong, b)
      else if \<not> account uid then (Inl noParent, b\<lparr>blogNext := blogNext b + 1\<rparr>)
      else (Inr (), b\<lparr>blogPosts := (blogPosts b)(blogNext b \<mapsto> row), blogNext := blogNext b + 1\<rparr>))"
| "blogSpec account (UpdatePost uid postId patch) b =
     (if patchTitle patch = None \<and> patchContents patch = None \<or> \<not> owns b uid postId then (Inr (), b)
      else if patchTitle patch = Some None \<or> patchContents patch = Some None then (Inl notNull, b)
      else
        (let p = patchPost patch (the (blogPosts b postId)) in
         if \<not> fitsPost p then (Inl tooLong, b)
         else (Inr (), b\<lparr>blogPosts := (blogPosts b)(postId \<mapsto> p)\<rparr>)))"
| "blogSpec account (DeletePost uid postId) b =
     (if \<not> owns b uid postId then (Inr (), b)
      else if postId \<in> fst ` blogLikes b then (Inl hasChildren, b)
      else (Inr (), b\<lparr>blogPosts := (blogPosts b)(postId := None)\<rparr>))"
| "blogSpec account (AddLike uid postId) b =
     (if (postId, uid) \<in> blogLikes b then (Inl PostLikeAlreadyExistsException, b)
      else if 100 < length uid then (Inl tooLong, b)
      else if blogPosts b postId = None \<or> \<not> account uid then (Inl noParent, b)
      else (Inr (), b\<lparr>blogLikes := insert (postId, uid) (blogLikes b)\<rparr>))"
| "blogSpec account (RemoveLike uid postId) b =
     (if (postId, uid) \<notin> blogLikes b then (Inl PostLikeNotFoundException, b)
      else (Inr (), b\<lparr>blogLikes := blogLikes b - {(postId, uid)}\<rparr>))"

section \<open>The abstraction\<close>

definition likeOf :: "PostLikeEntity \<Rightarrow> int \<times> string" where
  "likeOf l = (plPostId l, plUid l)"

definition blogOf :: "dbState \<Rightarrow> blog" where
  "blogOf db =
     \<lparr>blogPosts = (\<lambda>postId. List.find (\<lambda>p. peId p = postId) (posts db)),
      blogLikes = likeOf ` set (postLikes db), blogNext = nextPostId db\<rparr>"

lemma likeOf_inject [simp]: "likeOf a = likeOf b \<longleftrightarrow> a = b"
  by (cases a; cases b) (auto simp: likeOf_def)

lemma blogOf_sel [simp]:
  "blogPosts (blogOf db) i = List.find (\<lambda>p. peId p = i) (posts db)" "blogNext (blogOf db) = nextPostId db"
  "blogLikes (blogOf db) = likeOf ` set (postLikes db)"
  by (simp_all add: blogOf_def)

lemma blogOf_cong:
  "posts db' = posts db \<Longrightarrow> postLikes db' = postLikes db \<Longrightarrow> nextPostId db' = nextPostId db \<Longrightarrow>
   blogOf db' = blogOf db"
  by (simp add: blogOf_def)

lemma liked_iff: "(i, u) \<in> likeOf ` set ls \<longleftrightarrow> \<lparr>plPostId = i, plUid = u\<rparr> \<in> set ls"
proof -
  have "(i, u) = likeOf \<lparr>plPostId = i, plUid = u\<rparr>" by (simp add: likeOf_def)
  moreover have "inj likeOf" by (simp add: inj_def)
  ultimately show ?thesis by (simp only: inj_image_mem_iff)
qed

lemma liked_ex: "list_ex (\<lambda>l. plPostId l = i \<and> plUid l = u) ls \<longleftrightarrow> (i, u) \<in> likeOf ` set ls"
  by (force simp: list_ex_iff likeOf_def)

lemma owns_iff:
  assumes "schemaOk db"
  shows "owns (blogOf db) uid postId \<longleftrightarrow> list_ex (\<lambda>p. peId p = postId \<and> peUid p = uid) (posts db)"
proof -
  have d: "distinct (map peId (posts db))" using assms by (simp add: schemaOk_def)
  show ?thesis
  proof (cases "List.find (\<lambda>p. peId p = postId) (posts db)")
    case None
    then have "postId \<notin> peId ` set (posts db)" by (simp add: find_None_key)
    with None show ?thesis by (auto simp: owns_def list_ex_iff)
  next
    case (Some p)
    then have "p \<in> set (posts db)" "peId p = postId" by (auto simp: find_unique [OF d])
    moreover have "q = p" if "q \<in> set (posts db)" "peId q = postId" for q
      using that Some find_unique [OF d, of postId q] by simp
    ultimately have "list_ex (\<lambda>p. peId p = postId \<and> peUid p = uid) (posts db) \<longleftrightarrow> peUid p = uid"
      unfolding list_ex_iff by metis
    with Some show ?thesis by (simp add: owns_def)
  qed
qed

lemma owned_row:
  assumes "schemaOk db" and "List.find (\<lambda>p. peId p = postId) (posts db) = Some q" and "p \<in> set (posts db)"
  shows "peId p = postId \<longleftrightarrow> p = q"
proof -
  have d: "distinct (map peId (posts db))" using assms(1) by (simp add: schemaOk_def)
  show ?thesis using assms(2,3) find_unique [OF d, of postId p] find_unique [OF d, of postId q] by auto
qed

section \<open>One operation\<close>

lemma create_refines:
  assumes "schemaOk db" and "blogCall sqlDb (CreatePost now uid dto) db = (res, db')"
  shows "(res, blogOf db') = blogSpec (hasAuth db) (CreatePost now uid dto) (blogOf db)"
proof -
  have "List.find (\<lambda>p. peId p = nextPostId db) (posts db) = None"
    using assms(1) by (auto simp: schemaOk_def find_None_iff)
  then have f: "List.find (\<lambda>p. peId p = i) (posts db @ [newRow (nextPostId db) now uid dto]) =
      (if i = nextPostId db then Some (newRow (nextPostId db) now uid dto)
       else List.find (\<lambda>p. peId p = i) (posts db))" for i
    by (auto simp: find_snoc newRow_def split: option.split)
  let ?row = "newRow (nextPostId db) now uid dto"
  have b: "blogOf (db\<lparr>posts := posts db @ [?row], nextPostId := nextPostId db + 1\<rparr>) =
      blogOf db\<lparr>blogPosts := (blogPosts (blogOf db))(nextPostId db \<mapsto> ?row), blogNext := nextPostId db + 1\<rparr>"
    by (auto simp: blogOf_def f)
  have "blogCall sqlDb (CreatePost now uid dto) db =
     (if \<not> fitsPost ?row then (Inl tooLong, db)
      else if \<not> hasAuth db uid then (Inl noParent, db\<lparr>nextPostId := nextPostId db + 1\<rparr>)
      else (Inr (), db\<lparr>posts := posts db @ [?row], nextPostId := nextPostId db + 1\<rparr>))"
    by (simp add: post_defs sqlInsertPost_def Let_def newRow_def)
  with assms(2) b show ?thesis by (auto simp: Let_def blogOf_def simp del: blogCall.simps split: if_splits)
qed

lemma update_refines:
  assumes ok: "schemaOk db" and run: "blogCall sqlDb (UpdatePost uid postId patch) db = (res, db')"
  shows "(res, blogOf db') = blogSpec (hasAuth db) (UpdatePost uid postId patch) (blogOf db)"
proof (cases "patchTitle patch = None \<and> patchContents patch = None \<or> \<not> owns (blogOf db) uid postId")
  case True
  then have "blogCall sqlDb (UpdatePost uid postId patch) db = (Inr (), db)"
    using owns_iff [OF ok, of uid postId] by (auto simp: post_defs sqlUpdatePost_def Let_def)
  with run have "res = Inr ()" "db' = db" by (simp_all del: blogCall.simps)
  with True show ?thesis by (simp only: blogSpec.simps if_True)
next
  case False
  then obtain q where q: "List.find (\<lambda>p. peId p = postId) (posts db) = Some q" "peUid q = uid"
    by (auto simp: owns_def split: option.splits)
  have "q \<in> set (posts db)" "peId q = postId" using q(1) by (auto dest: find_Some_key)
  have fits: "list_all (\<lambda>p. peId p = postId \<and> peUid p = uid \<longrightarrow> fitsPost (patchPost patch p)) (posts db) \<longleftrightarrow>
      fitsPost (patchPost patch q)"
    using \<open>q \<in> set (posts db)\<close> \<open>peId q = postId\<close> q owned_row [OF ok q(1)] by (auto simp: list_all_iff)
  let ?g = "\<lambda>p. if peId p = postId \<and> peUid p = uid then patchPost patch p else p"
  have "List.find (\<lambda>p. peId p = i) (map ?g (posts db)) =
      (if i = postId then Some (patchPost patch q) else List.find (\<lambda>p. peId p = i) (posts db))" for i
  proof -
    have "List.find (\<lambda>p. peId p = i) (map ?g xs) = map_option ?g (List.find (\<lambda>p. peId p = i) xs)" for xs
      by (induction xs) simp_all
    then show ?thesis using q \<open>peId q = postId\<close>
      by (cases "List.find (\<lambda>p. peId p = i) (posts db)") (auto dest: find_Some_key)
  qed
  then have "blogOf (db\<lparr>posts := map ?g (posts db)\<rparr>) =
      blogOf db\<lparr>blogPosts := (blogPosts (blogOf db))(postId \<mapsto> patchPost patch q)\<rparr>"
    by (auto simp: blogOf_def)
  moreover have "list_ex (\<lambda>p. peId p = postId \<and> peUid p = uid) (posts db)"
    using False by (simp add: owns_iff [OF ok])
  moreover have "blogCall sqlDb (UpdatePost uid postId patch) db = sqlUpdatePost postId uid patch db"
    using False by (auto simp: post_defs)
  ultimately have u: "blogCall sqlDb (UpdatePost uid postId patch) db =
     (if patchTitle patch = Some None \<or> patchContents patch = Some None then (Inl notNull, db)
      else if \<not> fitsPost (patchPost patch q) then (Inl tooLong, db)
      else (Inr (), db\<lparr>posts := map ?g (posts db)\<rparr>))"
    "blogOf (db\<lparr>posts := map ?g (posts db)\<rparr>) =
      blogOf db\<lparr>blogPosts := (blogPosts (blogOf db))(postId \<mapsto> patchPost patch q)\<rparr>"
    using fits by (simp_all add: sqlUpdatePost_def Let_def)
  from run u(1) have "(res, blogOf db') =
     (if patchTitle patch = Some None \<or> patchContents patch = Some None then (Inl notNull, blogOf db)
      else if \<not> fitsPost (patchPost patch q) then (Inl tooLong, blogOf db)
      else (Inr (), blogOf (db\<lparr>posts := map ?g (posts db)\<rparr>)))"
    by (auto simp del: blogCall.simps split: if_splits)
  with False q(1) show ?thesis unfolding u(2) by (auto simp: Let_def)
qed

lemma delete_refines:
  assumes ok: "schemaOk db" and run: "blogCall sqlDb (DeletePost uid postId) db = (res, db')"
  shows "(res, blogOf db') = blogSpec (hasAuth db) (DeletePost uid postId) (blogOf db)"
proof (cases "owns (blogOf db) uid postId")
  case False
  then have "\<not> list_ex (\<lambda>p. peId p = postId \<and> peUid p = uid) (posts db)" by (simp add: owns_iff [OF ok])
  moreover then have "filter (\<lambda>p. \<not> (peId p = postId \<and> peUid p = uid)) (posts db) = posts db"
    by (auto simp: list_ex_iff filter_id_conv)
  ultimately have "blogCall sqlDb (DeletePost uid postId) db = (Inr (), db)"
    by (simp add: post_defs sqlDeletePost_def Let_def)
  with run have "res = Inr ()" "db' = db" by (simp_all del: blogCall.simps)
  with False show ?thesis by simp
next
  case True
  then obtain q where q: "List.find (\<lambda>p. peId p = postId) (posts db) = Some q" "peUid q = uid"
    by (auto simp: owns_def split: option.splits)
  have e: "list_ex (\<lambda>p. peId p = postId \<and> peUid p = uid) (posts db)" using True by (simp add: owns_iff [OF ok])
  have l: "postId \<in> plPostId ` set (postLikes db) \<longleftrightarrow> postId \<in> fst ` likeOf ` set (postLikes db)"
    by (force simp: likeOf_def)
  have "filter (\<lambda>p. \<not> (peId p = postId \<and> peUid p = uid)) (posts db) = filter (\<lambda>p. peId p \<noteq> postId) (posts db)"
    using owned_row [OF ok q(1)] q(2) by (auto intro!: filter_cong)
  then have "blogOf (db\<lparr>posts := filter (\<lambda>p. \<not> (peId p = postId \<and> peUid p = uid)) (posts db)\<rparr>) =
      blogOf db\<lparr>blogPosts := (blogPosts (blogOf db))(postId := None)\<rparr>"
    by (auto simp: blogOf_def find_removed)
  then show ?thesis using run True e l
    by (auto simp: post_defs sqlDeletePost_def Let_def split: if_splits)
qed

lemma addLike_refines:
  assumes run: "blogCall sqlDb (AddLike uid postId) db = (res, db')"
  shows "(res, blogOf db') = blogSpec (hasAuth db) (AddLike uid postId) (blogOf db)"
proof -
  let ?e = "\<lparr>plPostId = postId, plUid = uid\<rparr>" and ?id = "getPostLikeEntityListCacheId postId"
  define db1 where "db1 = (if cacheOn db then db\<lparr>queryCache := queryCache db |` (- {?id})\<rparr> else db)"
  have e: "toPostLikeEntity \<lparr>ldPostId = postId, ldUid = uid\<rparr> = ?e"
    by (simp add: toPostLikeEntity_def daoToPostLikeEntity_def postLikeDaoFrom_def)
  have db1: "blogOf db1 = blogOf db" "postLikes db1 = postLikes db" "hasAuth db1 = hasAuth db" "hasPost db1 = hasPost db"
    by (auto simp: db1_def blogOf_def hasAuth_def hasPost_def)
  have p: "hasPost db postId \<longleftrightarrow> List.find (\<lambda>p. peId p = postId) (posts db) \<noteq> None"
    by (simp add: find_None_key hasPost_def)
  have ins: "blogOf (db1\<lparr>postLikes := postLikes db @ [?e]\<rparr>) =
      blogOf db\<lparr>blogLikes := insert (postId, uid) (blogLikes (blogOf db))\<rparr>"
    using db1(1) by (simp add: blogOf_def likeOf_def)
  have "blogCall sqlDb (AddLike uid postId) db =
     (if (postId, uid) \<in> likeOf ` set (postLikes db) then (Inl PostLikeAlreadyExistsException, db)
      else sqlInsertPostLike ?e db1)"
    by (simp add: like_defs Let_def e sqlExistPostLike_def bindR_def liked_ex sqlRemoveCached_def db1_def)
  moreover have "sqlInsertPostLike ?e db1 =
     (if 100 < length uid then (Inl tooLong, db1)
      else if (postId, uid) \<in> likeOf ` set (postLikes db) then (Inl duplicate, db1)
      else if \<not> hasPost db postId \<or> \<not> hasAuth db uid then (Inl noParent, db1)
      else (Inr (), db1\<lparr>postLikes := postLikes db @ [?e]\<rparr>))"
    by (simp add: sqlInsertPostLike_def db1 liked_iff)
  ultimately have "(res, blogOf db') =
     (if (postId, uid) \<in> likeOf ` set (postLikes db) then (Inl PostLikeAlreadyExistsException, blogOf db)
      else if 100 < length uid then (Inl tooLong, blogOf db)
      else if \<not> hasPost db postId \<or> \<not> hasAuth db uid then (Inl noParent, blogOf db)
      else (Inr (), blogOf (db1\<lparr>postLikes := postLikes db @ [?e]\<rparr>)))"
    using run db1(1) by (auto simp del: blogCall.simps split: if_splits)
  then show ?thesis unfolding ins by (simp add: p)
qed

lemma removeLike_refines:
  assumes run: "blogCall sqlDb (RemoveLike uid postId) db = (res, db')"
  shows "(res, blogOf db') = blogSpec (hasAuth db) (RemoveLike uid postId) (blogOf db)"
proof -
  let ?e = "\<lparr>plPostId = postId, plUid = uid\<rparr>" and ?id = "getPostLikeEntityListCacheId postId"
  define db1 where "db1 = (if cacheOn db then db\<lparr>queryCache := queryCache db |` (- {?id})\<rparr> else db)"
  let ?ls = "filter (\<lambda>l. \<not> (plPostId l = postId \<and> plUid l = uid)) (postLikes db)"
  have e: "toPostLikeEntity \<lparr>ldPostId = postId, ldUid = uid\<rparr> = ?e"
    by (simp add: toPostLikeEntity_def daoToPostLikeEntity_def postLikeDaoFrom_def)
  have del: "blogOf (db1\<lparr>postLikes := ?ls\<rparr>) = blogOf db\<lparr>blogLikes := blogLikes (blogOf db) - {(postId, uid)}\<rparr>"
    by (auto simp: blogOf_def db1_def likeOf_def image_iff)
  have "blogCall sqlDb (RemoveLike uid postId) db =
     (if (postId, uid) \<notin> likeOf ` set (postLikes db) then (Inl PostLikeNotFoundException, db)
      else (Inr (), db1\<lparr>postLikes := ?ls\<rparr>))"
    by (simp add: like_defs Let_def e sqlExistPostLike_def bindR_def liked_ex sqlRemoveCached_def
        sqlDeletePostLike_def db1_def)
  with run have "(res, blogOf db') =
     (if (postId, uid) \<notin> likeOf ` set (postLikes db) then (Inl PostLikeNotFoundException, blogOf db)
      else (Inr (), blogOf (db1\<lparr>postLikes := ?ls\<rparr>)))"
    by (auto simp del: blogCall.simps split: if_splits)
  then show ?thesis unfolding del by simp
qed

section \<open>Invariants\<close>

text \<open>The cached list of a post's likes is the current one.\<close>

definition likesFresh :: "dbState \<Rightarrow> bool" where
  "likesFresh db \<longleftrightarrow>
     (\<forall>postId c d. cacheOn db \<longrightarrow> queryCache db (getPostLikeEntityListCacheId postId) = Some (c, d) \<longrightarrow>
        c = CachedLikes (filter (\<lambda>l. plPostId l = postId) (postLikes db)))"

lemma likesId_inject [simp]: "getPostLikeEntityListCacheId i = getPostLikeEntityListCacheId j \<longleftrightarrow> i = j"
  by (simp add: getPostLikeEntityListCacheId_def)

lemma keeps_schema_blog [keeps_intros]: "keeps schemaOk (blogCall sqlDb op)"
  by (cases op) (simp_all only: blogCall.simps post_defs like_defs Let_def sqlDb_sel,
      (rule keeps_intros keeps_reads | simp)+)

lemma infoFresh_restrict: "infoFresh db \<Longrightarrow> infoFresh (db\<lparr>queryCache := queryCache db |` A\<rparr>)"
  by (auto simp: infoFresh_def restrict_map_def split: if_splits)

lemma infoFresh_blog [simp]:
  "infoFresh (db\<lparr>posts := ps\<rparr>) = infoFresh db" "infoFresh (db\<lparr>postLikes := ls\<rparr>) = infoFresh db"
  "infoFresh (db\<lparr>nextPostId := n\<rparr>) = infoFresh db"
  "infoFresh (db\<lparr>posts := ps, nextPostId := n\<rparr>) = infoFresh db"
  by (simp_all add: infoFresh_def)

text \<open>Writes on posts and likes leave profiles and accounts alone, and remove cache entries at most.\<close>

lemma keeps_others:
  "keeps (\<lambda>db. infoFresh db \<and> userAuths db = A \<and> userInfos db = I) (blogCall sqlDb op)"
proof -
  let ?P = "\<lambda>db. infoFresh db \<and> userAuths db = A \<and> userInfos db = I"
  have w: "keeps ?P (sqlInsertPost now np)" "keeps ?P (sqlUpdatePost i u patch)" "keeps ?P (sqlDeletePost i u)"
    "keeps ?P (sqlInsertPostLike pl)" "keeps ?P (sqlDeletePostLike i u)" "keeps ?P (sqlExistPostLike i u)"
    "keeps ?P (sqlRemoveCached ids)" for now np i u patch pl ids
    by (simp_all add: keeps_def sqlInsertPost_def sqlUpdatePost_def sqlDeletePost_def sqlInsertPostLike_def
        sqlDeletePostLike_def sqlExistPostLike_def sqlRemoveCached_def Let_def infoFresh_restrict)
  show ?thesis
    by (cases op) (simp_all only: blogCall.simps post_defs like_defs Let_def sqlDb_sel,
        (rule keeps_intros w | simp)+)
qed

lemma likesFresh_posts [simp]:
  "likesFresh (db\<lparr>posts := ps\<rparr>) = likesFresh db" "likesFresh (db\<lparr>nextPostId := n\<rparr>) = likesFresh db"
  "likesFresh (db\<lparr>posts := ps, nextPostId := n\<rparr>) = likesFresh db"
  by (simp_all add: likesFresh_def)

text \<open>A change of one post's likes, with that post's cache entry removed, keeps the lists current.\<close>

lemma likesFresh_changed:
  assumes "likesFresh db"
    and "\<And>i. i \<noteq> postId \<Longrightarrow> filter (\<lambda>l. plPostId l = i) ls = filter (\<lambda>l. plPostId l = i) (postLikes db)"
  shows "likesFresh (db\<lparr>queryCache := queryCache db |` (- {getPostLikeEntityListCacheId postId}), postLikes := ls\<rparr>)"
  unfolding likesFresh_def
proof (intro allI impI)
  fix i c d
  let ?db = "db\<lparr>queryCache := queryCache db |` (- {getPostLikeEntityListCacheId postId}), postLikes := ls\<rparr>"
  assume "cacheOn ?db" "queryCache ?db (getPostLikeEntityListCacheId i) = Some (c, d)"
  then have "i \<noteq> postId" "cacheOn db" "queryCache db (getPostLikeEntityListCacheId i) = Some (c, d)"
    by (auto simp: restrict_map_def split: if_splits)
  with assms show "c = CachedLikes (filter (\<lambda>l. plPostId l = i) (postLikes ?db))"
    by (simp add: likesFresh_def)
qed

lemma keeps_likesFresh: "keeps likesFresh (blogCall sqlDb op)"
proof -
  have w: "keeps likesFresh (sqlInsertPost now np)" "keeps likesFresh (sqlUpdatePost i u patch)"
    "keeps likesFresh (sqlDeletePost i u)" for now np i u patch
    by (simp_all add: keeps_def sqlInsertPost_def sqlUpdatePost_def sqlDeletePost_def Let_def)
  have l: "keeps likesFresh (bindR (sqlExistPostLike i u) (\<lambda>isExist. if b isExist then throwR e else
      bindR (sqlRemoveCached [getPostLikeEntityListCacheId i]) (\<lambda>_. m)))"
    if m: "\<And>db. snd (m db) = db\<lparr>postLikes := postLikes (snd (m db))\<rparr> \<and>
      (\<forall>j. j \<noteq> i \<longrightarrow> filter (\<lambda>l. plPostId l = j) (postLikes (snd (m db))) =
         filter (\<lambda>l. plPostId l = j) (postLikes db))"
    for i u b e and m :: "unit sql"
    unfolding keeps_def
  proof (intro allI impI)
    fix db assume ok: "likesFresh db"
    let ?id = "getPostLikeEntityListCacheId i"
    define db1 where "db1 = (if cacheOn db then db\<lparr>queryCache := queryCache db |` (- {?id})\<rparr> else db)"
    have ch: "likesFresh (db1\<lparr>postLikes := ls\<rparr>)"
      if "\<And>j. j \<noteq> i \<Longrightarrow> filter (\<lambda>l. plPostId l = j) ls = filter (\<lambda>l. plPostId l = j) (postLikes db)" for ls
      using likesFresh_changed [OF ok that] by (auto simp: db1_def likesFresh_def)
    have "postLikes db1 = postLikes db" by (simp add: db1_def)
    with m [of db1] ch [of "postLikes (snd (m db1))"] have "likesFresh (snd (m db1))" by metis
    then show "likesFresh (snd (bindR (sqlExistPostLike i u) (\<lambda>isExist. if b isExist then throwR e else
      bindR (sqlRemoveCached [?id]) (\<lambda>_. m)) db))"
      using ok unfolding db1_def
      by (cases "cacheOn db") (simp_all add: bindR_def sqlExistPostLike_def sqlRemoveCached_def)
  qed
  show ?thesis
  proof (cases op)
    case (AddLike uid postId)
    then show ?thesis
      by (auto simp: like_defs Let_def toPostLikeEntity_def daoToPostLikeEntity_def postLikeDaoFrom_def
          sqlInsertPostLike_def cong: if_cong intro!: l [where b = "\<lambda>x. x"])
  next
    case (RemoveLike uid postId)
    have "filter (\<lambda>l. plPostId l = j) (filter (\<lambda>l. \<not> (plPostId l = postId \<and> plUid l = uid)) ls) =
        filter (\<lambda>l. plPostId l = j) ls" if "j \<noteq> postId" for j ls
      using that by (auto simp: intro!: filter_cong)
    with RemoveLike show ?thesis
      by (auto simp: like_defs Let_def toPostLikeEntity_def daoToPostLikeEntity_def postLikeDaoFrom_def
          sqlDeletePostLike_def cong: if_cong intro!: l [where b = "\<lambda>x. \<not> x"])
  qed (simp_all only: blogCall.simps post_defs sqlDb_sel, (rule keeps_intros w | simp)+)
qed

lemma blog_step:
  assumes ok: "schemaOk db" and run: "blogCall sqlDb op db = (res, db')"
  shows "schemaOk db' \<and> userAuths db' = userAuths db \<and> userInfos db' = userInfos db \<and>
    (infoFresh db \<longrightarrow> infoFresh db') \<and> (likesFresh db \<longrightarrow> likesFresh db') \<and>
    (res, blogOf db') = blogSpec (hasAuth db) op (blogOf db)"
proof -
  have "(res, blogOf db') = blogSpec (hasAuth db) op (blogOf db)"
    using run create_refines [OF ok] update_refines [OF ok] delete_refines [OF ok] addLike_refines removeLike_refines
    by (cases op) (simp_all only:)
  moreover have "userAuths db' = userAuths db \<and> userInfos db' = userInfos db"
    using run by (cases op) (auto simp: post_defs like_defs Let_def sqlInsertPost_def sqlUpdatePost_def
        sqlDeletePost_def sqlInsertPostLike_def sqlDeletePostLike_def sqlExistPostLike_def sqlRemoveCached_def
        bindR_def split: if_splits)
  moreover have "infoFresh db \<longrightarrow> infoFresh db'"
    using keepsD [OF keeps_others _ run, of "userAuths db" "userInfos db"] by blast
  ultimately show ?thesis
    using keepsD [OF keeps_schema_blog ok run] keepsD [OF keeps_likesFresh _ run] by blast
qed

section \<open>Over any database\<close>

context orm
begin

lemma sim_blogCall [sim_intros]: "sim abst (blogCall D op) (blogCall sqlDb op)"
  by (cases op) (simp_all only: blogCall.simps post_defs like_defs Let_def sqlDb_sel, (intro sim_intros)+)

lemma sim_findPostLikeEntityList [sim_intros]:
  "sim abst (findPostLikeEntityList D now postId) (findPostLikeEntityList sqlDb now postId)"
  unfolding findPostLikeEntityList_def sqlDb_sel by (rule ops)

end

lemma blog_on:
  assumes "orm D abst" and "schemaOk (abst s)" and "blogCall D op s = (res, s')"
  shows "schemaOk (abst s') \<and> userAuths (abst s') = userAuths (abst s) \<and>
    userInfos (abst s') = userInfos (abst s) \<and>
    (infoFresh (abst s) \<longrightarrow> infoFresh (abst s')) \<and> (likesFresh (abst s) \<longrightarrow> likesFresh (abst s')) \<and>
    (res, blogOf (abst s')) = blogSpec (hasAuth (abst s)) op (blogOf (abst s))"
  by (rule blog_step [OF assms(2) sim_apply [OF orm.sim_blogCall [OF assms(1)] assms(3)]])

text \<open>The cached list of likes, where it is current: the answer is that of the table.\<close>

lemma likes_cached:
  assumes "likesFresh db" and "findPostLikeEntityList sqlDb now postId db = (res, db')"
  shows "res = Inr (filter (\<lambda>l. plPostId l = postId) (postLikes db)) \<and> likesFresh db' \<and> infoFresh db' = infoFresh db \<and>
    (\<exists>Q. db' = db\<lparr>queryCache := Q\<rparr>)"
proof -
  have f: "unLikes c = Some (filter (\<lambda>l. plPostId l = postId) (postLikes db))"
    if "cacheOn db" "queryCache db (getPostLikeEntityListCacheId postId) = Some (c, d)" for c d
    using that assms(1) unfolding likesFresh_def by force
  let ?Q = "(queryCache db)(getPostLikeEntityListCacheId postId \<mapsto>
      (CachedLikes (filter (\<lambda>l. plPostId l = postId) (postLikes db)), Some (now + getTicTimeHMS 24 0 0)))"
  have "res = Inr (filter (\<lambda>l. plPostId l = postId) (postLikes db)) \<and> (db' = db \<or> db' = db\<lparr>queryCache := ?Q\<rparr>)"
    using assms(2) f by (cases "queryCache db (getPostLikeEntityListCacheId postId)")
      (auto simp: findPostLikeEntityList_def sqlFindPostLikes_def cachedQuery_def live_def liveEntry_def
        split: option.splits if_splits)
  moreover have "likesFresh (db\<lparr>queryCache := ?Q\<rparr>)" using assms(1) by (simp add: likesFresh_def)
  moreover have "infoFresh (db\<lparr>queryCache := ?Q\<rparr>) = infoFresh db"
    by (simp add: infoFresh_def cache_id_defs)
  moreover have "db = db\<lparr>queryCache := queryCache db\<rparr>" by simp
  ultimately show ?thesis using assms(1) by metis
qed

text \<open>Only the acting user's posts and likes change.\<close>

lemma blog_own:
  assumes "orm D abst" and "schemaOk (abst s)" and "blogCall D op s = (res, s')"
  shows "(\<forall>i p. blogPosts (blogOf (abst s)) i = Some p \<and> peUid p \<noteq> actor op \<longrightarrow>
       blogPosts (blogOf (abst s')) i = Some p) \<and>
    (\<forall>i p. blogPosts (blogOf (abst s')) i = Some p \<longrightarrow>
       blogPosts (blogOf (abst s)) i = Some p \<or> peUid p = actor op) \<and>
    (\<forall>i u. u \<noteq> actor op \<longrightarrow>
       ((i, u) \<in> blogLikes (blogOf (abst s')) \<longleftrightarrow> (i, u) \<in> blogLikes (blogOf (abst s))))"
proof -
  let ?b = "blogOf (abst s)"
  have "(res, blogOf (abst s')) = blogSpec (hasAuth (abst s)) op ?b" using blog_on [OF assms] by simp
  moreover have "blogPosts ?b (blogNext ?b) = None"
    using assms(2) by (auto simp: schemaOk_def find_None_iff)
  ultimately show ?thesis
    by (cases op) (auto simp: Let_def owns_def newRow_def simp del: blogOf_sel split: if_splits option.splits)
qed

fun blogCalls :: "('d, 'z) ormOps_scheme \<Rightarrow> blogOp list \<Rightarrow> 'd \<Rightarrow> (exn + unit) list \<times> 'd" where
  "blogCalls D [] s = ([], s)"
| "blogCalls D (op # calls) s =
     (case blogCall D op s of (res, s1) \<Rightarrow>
        (case blogCalls D calls s1 of (rs, s2) \<Rightarrow> (res # rs, s2)))"

fun blogSpecs :: "(string \<Rightarrow> bool) \<Rightarrow> blogOp list \<Rightarrow> blog \<Rightarrow> (exn + unit) list \<times> blog" where
  "blogSpecs account [] b = ([], b)"
| "blogSpecs account (op # calls) b =
     (case blogSpec account op b of (res, b1) \<Rightarrow>
        (case blogSpecs account calls b1 of (rs, b2) \<Rightarrow> (res # rs, b2)))"

lemma blogCalls_on:
  assumes "orm D abst" and "schemaOk (abst s)" and "blogCalls D calls s = (results, s')"
  shows "(results, blogOf (abst s')) = blogSpecs (hasAuth (abst s)) calls (blogOf (abst s)) \<and>
    schemaOk (abst s')"
  using assms(2,3)
proof (induction calls arbitrary: s results)
  case (Cons op calls)
  obtain res s1 where r: "blogCall D op s = (res, s1)" by fastforce
  obtain rs where rs: "blogCalls D calls s1 = (rs, s')" "results = res # rs"
    using Cons.prems(2) r by (auto split: prod.splits)
  from blog_on [OF assms(1) Cons.prems(1) r] have
    st: "schemaOk (abst s1)" "(res, blogOf (abst s1)) = blogSpec (hasAuth (abst s)) op (blogOf (abst s))"
      "userAuths (abst s1) = userAuths (abst s)" by simp_all
  have "hasAuth (abst s1) = hasAuth (abst s)" using st(3) by (intro ext) (simp add: hasAuth_def)
  with Cons.IH [OF st(1) rs(1)] have
    "(rs, blogOf (abst s')) = blogSpecs (hasAuth (abst s)) calls (blogOf (abst s1))" "schemaOk (abst s')"
    by simp_all
  then show ?case
    by (simp only: blogSpecs.simps st(2) [symmetric] prod.case rs(2)) (metis prod.case)
qed simp

section \<open>Properties\<close>

text \<open>C6: Posts and likes behave as the abstract store. Any sequence of creating, changing and deleting
  posts and of liking and unliking them gives, call by call, the results of the store: posts get
  fresh ids, only the author changes or deletes a post, a change keeps the fields it does not
  mention, each user likes a post at most once, likes refer to existing posts and accounts, and the
  errors are those of the specification; the schema's invariants hold again afterwards.\<close>

theorem blog_refines_store:
  assumes "orm D abst" and "schemaOk (abst s)" and "blogCalls D calls s = (results, s')"
  shows "(results, blogOf (abst s')) = blogSpecs (hasAuth (abst s)) calls (blogOf (abst s)) \<and>
    schemaOk (abst s')"
  by (rule blogCalls_on [OF assms])

text \<open>Users change only what is theirs. Whatever operation a user requests: every post of another
  user stays exactly as it was, and no post changes its author; every post that appears or changes
  is the user's own; and of the likes only those of this user come or go.\<close>

lemma users_change_only_their_own:
  assumes "orm D abst" and "schemaOk (abst s)" and "blogCall D op s = (res, s')"
  shows "(\<forall>i p. blogPosts (blogOf (abst s)) i = Some p \<and> peUid p \<noteq> actor op \<longrightarrow>
       blogPosts (blogOf (abst s')) i = Some p) \<and>
    (\<forall>i p. blogPosts (blogOf (abst s')) i = Some p \<longrightarrow>
       blogPosts (blogOf (abst s)) i = Some p \<or> peUid p = actor op) \<and>
    (\<forall>i u. u \<noteq> actor op \<longrightarrow>
       ((i, u) \<in> blogLikes (blogOf (abst s')) \<longleftrightarrow> (i, u) \<in> blogLikes (blogOf (abst s))))"
  by (rule blog_own [OF assms])

text \<open>A change or deletion that hits no post of the user is reported as a success: for a post that does
  not exist or belongs to somebody else the request succeeds and changes nothing.\<close>

lemma foreign_changes_succeed_silently:
  assumes "orm D abst" and "schemaOk (abst s)" and "\<not> owns (blogOf (abst s)) uid postId"
    and "op = UpdatePost uid postId patch \<or> op = DeletePost uid postId" and "blogCall D op s = (res, s')"
  shows "res = Inr () \<and> blogOf (abst s') = blogOf (abst s)"
  using blog_on [OF assms(1,2,5)] assms(3,4) by auto

text \<open>C31: A liked post cannot be deleted. If anybody likes a post, its author's deletion fails with a
  database error, which the client sees as an internal error (code 90006 with HTTP status 200), and
  post and likes are unchanged; once no like is left it succeeds and the post is gone.\<close>

theorem liked_post_cannot_be_deleted:
  assumes "orm D abst" and "schemaOk (abst s)" and "owns (blogOf (abst s)) uid postId"
    and "blogCall D (DeletePost uid postId) s = (res, s')"
  shows "if postId \<in> fst ` blogLikes (blogOf (abst s))
    then res = Inl hasChildren \<and> respCode (replyBody (handleException hasChildren)) = 90006 \<and>
      blogOf (abst s') = blogOf (abst s)
    else res = Inr () \<and> blogPosts (blogOf (abst s')) postId = None"
proof -
  have "(res, blogOf (abst s')) = blogSpec (hasAuth (abst s)) (DeletePost uid postId) (blogOf (abst s))"
    using blog_on [OF assms(1,2,4)] by blast
  moreover have "respCode (replyBody (handleException hasChildren)) = 90006"
    by (simp add: hasChildren_def filter_defs)
  ultimately show ?thesis using assms(3)
    by (cases "postId \<in> fst ` blogLikes (blogOf (abst s))") (simp_all del: blogOf_sel)
qed

text \<open>C20: The cached list of likes is never stale. After any sequence of operations on posts and likes, the
  24 hour cached query for the likes of a post returns the likes now stored.\<close>

theorem cached_likes_are_current:
  assumes "orm D abst" and "schemaOk (abst s)" and "likesFresh (abst s)"
    and "blogCalls D calls s = (results, s')"
  shows "fst (findPostLikeEntityList D now postId s') =
    Inr (filter (\<lambda>l. plPostId l = postId) (postLikes (abst s')))"
proof -
  have "schemaOk (abst s') \<and> likesFresh (abst s')"
    using assms(2-4)
  proof (induction calls arbitrary: s results)
    case (Cons op calls)
    obtain res s1 where r: "blogCall D op s = (res, s1)" by fastforce
    with Cons.prems(3) obtain rs where "blogCalls D calls s1 = (rs, s')" by (auto split: prod.splits)
    with Cons.IH blog_on [OF assms(1) Cons.prems(1) r] Cons.prems(2) show ?case by blast
  qed simp
  then have "likesFresh (abst s')" by blast
  moreover obtain r s2 where r: "findPostLikeEntityList D now postId s' = (r, s2)" by fastforce
  ultimately show ?thesis
    using likes_cached [OF _ sim_apply [OF orm.sim_findPostLikeEntityList [OF assms(1)] r]] by simp
qed

section \<open>Instances\<close>

lemma demoDb_blog [simp]: "likesFresh demoDb"
  "blogOf demoDb = \<lparr>blogPosts = (\<lambda>_. None), blogLikes = {}, blogNext = 1\<rparr>"
  by (simp_all add: likesFresh_def demoDb_def blogOf_def)

abbreviation demoPost :: CreatePostDto where
  "demoPost \<equiv> \<lparr>cdTitle = ''t'', cdContents = ''c''\<rparr>"

lemma demoPost_fits: "fitsPost (newRow i now ''a'' demoPost)"
  by (simp add: fitsPost_def newRow_def utf8Length_def)

theorem blog_refines_store_witness:
  "fst (blogCalls sqlDb [CreatePost 5 ''a'' demoPost, AddLike ''b'' 1, AddLike ''b'' 1, DeletePost ''a'' 1,
       RemoveLike ''b'' 1, DeletePost ''b'' 1, DeletePost ''a'' 1, AddLike ''b'' 1] demoDb) =
   [Inr (), Inr (), Inl PostLikeAlreadyExistsException, Inl hasChildren, Inr (), Inr (), Inr (), Inl noParent]"
    (is "fst (blogCalls sqlDb ?ops demoDb) = ?r")
proof -
  obtain results s' where r: "blogCalls sqlDb ?ops demoDb = (results, s')" by fastforce
  from blog_refines_store [OF sql.orm_axioms demoDb_schemaOk r]
  have "results = fst (blogSpecs (hasAuth demoDb) ?ops (blogOf demoDb))" by (metis fst_conv)
  also have "\<dots> = ?r"
    using demoPost_fits [of 1 5] by (simp add: Let_def owns_def newRow_def hasAuth_def demoDb_def demoAuth_def del: demoDb_blog(1))
  finally show ?thesis by (simp only: r fst_conv)
qed

text \<open>A database with a post of user \<open>a\<close>, liked by \<open>b\<close>.\<close>

definition demoLiked :: dbState where
  "demoLiked = snd (blogCalls sqlDb [CreatePost 5 ''a'' demoPost, AddLike ''b'' 1] demoDb)"

lemma demoLiked_ok [simp]:
  "schemaOk demoLiked"
  "blogOf demoLiked = \<lparr>blogPosts = [1 \<mapsto> newRow 1 5 ''a'' demoPost], blogLikes = {(1, ''b'')}, blogNext = 2\<rparr>"
proof -
  let ?ops = "[CreatePost 5 ''a'' demoPost, AddLike ''b'' 1]"
  obtain results s' where r: "blogCalls sqlDb ?ops demoDb = (results, s')" by fastforce
  then have s': "demoLiked = s'" by (simp add: demoLiked_def del: blogCalls.simps)
  have "blogSpecs (hasAuth demoDb) ?ops (blogOf demoDb) = ([Inr (), Inr ()],
      \<lparr>blogPosts = [1 \<mapsto> newRow 1 5 ''a'' demoPost], blogLikes = {(1, ''b'')}, blogNext = 2\<rparr>)"
    using demoPost_fits [of 1 5] by (simp add: Let_def)
  with blogCalls_on [OF sql.orm_axioms demoDb_schemaOk r]
  show "schemaOk demoLiked" "blogOf demoLiked =
      \<lparr>blogPosts = [1 \<mapsto> newRow 1 5 ''a'' demoPost], blogLikes = {(1, ''b'')}, blogNext = 2\<rparr>"
    by (simp_all add: s' del: blogSpecs.simps)
qed

theorem liked_post_cannot_be_deleted_witness:
  "fst (blogCall sqlDb (DeletePost ''a'' 1) demoLiked) = Inl hasChildren"
proof -
  obtain res s' where r: "blogCall sqlDb (DeletePost ''a'' 1) demoLiked = (res, s')" by fastforce
  have "owns (blogOf demoLiked) ''a'' 1" by (simp add: owns_def newRow_def del: blogOf_sel)
  from liked_post_cannot_be_deleted [OF sql.orm_axioms demoLiked_ok(1) this r] r
  show ?thesis by (simp del: blogOf_sel blogCall.simps)
qed

theorem cached_likes_are_current_witness:
  "fst (findPostLikeEntityList sqlDb 7 1 demoLiked) =
     Inr (filter (\<lambda>l. plPostId l = 1) (postLikes demoLiked))"
proof -
  obtain results s' where r: "blogCalls sqlDb [CreatePost 5 ''a'' demoPost, AddLike ''b'' 1] demoDb = (results, s')"
    by fastforce
  then have "demoLiked = s'" by (simp add: demoLiked_def del: blogCalls.simps)
  with cached_likes_are_current [OF sql.orm_axioms demoDb_schemaOk demoDb_blog(1) r] show ?thesis by simp
qed

end
