(* ===== verification/PostRead.thy ===== *)
theory PostRead
  imports PostStore
begin

text \<open>
  Reading posts and lists of posts: what the services answer, as a function of the tables. The
  like lists of a page are read with one query for all posts and grouped in memory; the reference
  reads them post by post. Pages are cached queries, so a page answers for the tables at the time
  its cache entries were filled.
\<close>

section \<open>Reference\<close>

text \<open>The nicknames of a post's likes, and the users among the likes of some posts who have no profile.\<close>

definition nicknamesOf :: "dbState \<Rightarrow> int \<Rightarrow> string list" where
  "nicknamesOf db postId =
     map (\<lambda>l. dtoNickname (the (profilesOf db (plUid l)))) (filter (\<lambda>l. plPostId l = postId) (postLikes db))"

definition strangers :: "dbState \<Rightarrow> int list \<Rightarrow> string list" where
  "strangers db postIds =
     map plUid (filter (\<lambda>l. plPostId l \<in> set postIds \<and> profilesOf db (plUid l) = None) (postLikes db))"

definition viewOf :: "dbState \<Rightarrow> PostEntity \<Rightarrow> PostDto" where
  "viewOf db p =
     \<lparr>ptPostId = peId p, ptPostUid = peUid p, ptTitle = peTitle p, ptWriteDatetime = peWriteDatetime p,
      ptContents = peContents p, ptHits = peHits p, ptPostLikeNicknameList = Some (nicknamesOf db (peId p))\<rparr>"

text \<open>The answer of a read that needs the likes of some posts.\<close>

definition readAnswer :: "dbState \<Rightarrow> int list \<Rightarrow> 'a \<Rightarrow> exn + 'a \<Rightarrow> bool" where
  "readAnswer db postIds value res \<longleftrightarrow>
     (case res of
        Inl e \<Rightarrow> \<exists>u \<in> set (strangers db postIds). e = UserInfoNotFoundException u
      | Inr v \<Rightarrow> strangers db postIds = [] \<and> v = value)"

lemma strangers_Nil: "strangers db postIds = [] \<longleftrightarrow>
  (\<forall>l \<in> set (postLikes db). plPostId l \<in> set postIds \<longrightarrow> profilesOf db (plUid l) \<noteq> None)"
  by (auto simp: strangers_def filter_empty_conv)

lemma tablesOf_cong:
  "tablesOf db' = tablesOf db \<Longrightarrow> profilesOf db' = profilesOf db \<and> postLikes db' = postLikes db \<and>
   posts db' = posts db \<and> userAuths db' = userAuths db \<and> nextPostId db' = nextPostId db"
  by (auto simp: tablesOf_def intro!: profilesOf_cong)

lemma read_cong:
  assumes "tablesOf db' = tablesOf db"
  shows "nicknamesOf db' = nicknamesOf db" "strangers db' = strangers db" "viewOf db' = viewOf db"
    "orderedPosts owner db' = orderedPosts owner db" "readAnswer db' = readAnswer db"
  using tablesOf_cong [OF assms]
  by (auto simp: fun_eq_iff nicknamesOf_def strangers_def viewOf_def orderedPosts_def readAnswer_def
      split: option.split sum.split)

section \<open>Likes of many posts\<close>

lemma find_None_all: "List.find P xs = None \<longleftrightarrow> (\<forall>x \<in> set xs. \<not> P x)"
  by (auto simp: find_None_iff)

lemma find_Some_in: "List.find P xs = Some y \<Longrightarrow> y \<in> set xs \<and> P y"
  by (induction xs) (auto split: if_splits)

lemma likeMap_entries:
  assumes "es = filter (\<lambda>l. plPostId l \<in> set postIds) ls"
  shows "foldl (\<lambda>m (postId, ns). m(postId \<mapsto> ns)) (foldl (\<lambda>m postId. m(postId \<mapsto> [])) Map.empty postIds)
      (map (\<lambda>(k, es). (k, map f es)) (groupedByPostId es)) i =
    (if i \<in> set postIds then Some (map f (filter (\<lambda>l. plPostId l = i) ls)) else None)"
proof -
  let ?gs = "groupedByPostId es" and ?ps = "map (\<lambda>(k, es). (k, map f es)) (groupedByPostId es)"
  have keys: "map fst (map (\<lambda>(k, es). (k, map f es)) gs) = map fst gs" for gs :: "(int \<times> PostLikeEntity list) list"
    by (induction gs) auto
  have look: "map_of (map (\<lambda>(k, es). (k, map f es)) gs) i = map_option (map f) (map_of gs i)"
    for gs :: "(int \<times> PostLikeEntity list) list" by (induction gs) auto
  have sel: "filter (\<lambda>l. plPostId l = i) es =
      (if i \<in> set postIds then filter (\<lambda>l. plPostId l = i) ls else [])"
    unfolding assms by (auto intro!: filter_cong simp: filter_empty_conv)
  have "distinct (map fst ?ps)" unfolding keys using groups_lookup by blast
  from foldl_upd [OF this] groups_lookup [of es i] show ?thesis
    by (auto simp: foldl_empty map_add_def look sel split: option.split)
qed

text \<open>The batched read, over any database.\<close>

lemma groups_find:
  "List.find P (concat (map snd (groupedByPostId es))) = None \<longleftrightarrow> (\<forall>l \<in> set es. \<not> P l)"
  unfolding find_None_all groups_members ..

context orm
begin

lemma likes_read:
  "findPostLikeEntitiesByPostIds D postIds s = (res, s') \<Longrightarrow>
   res = Inr (filter (\<lambda>l. plPostId l \<in> set postIds) (postLikes (abst s))) \<and> abst s' = abst s"
proof (cases "postIds = []")
  case False
  assume run: "findPostLikeEntitiesByPostIds D postIds s = (res, s')"
  with False have r: "findPostLikesIn D postIds s = (res, s')" by (simp add: findPostLikeEntitiesByPostIds_def)
  have "sim abst (findPostLikesIn D postIds) (sqlFindPostLikesIn postIds)" by (rule ops)
  from sim_apply [OF this r] show ?thesis by (auto simp: sqlFindPostLikesIn_def)
qed (simp add: findPostLikeEntitiesByPostIds_def)

lemma likeMap_read:
  assumes ok: "schemaOk (abst s)" "infoFresh (abst s)"
    and run: "getPostLikeMapByPostIds D (svcGetUserInfoByUid D) now postIds s = (res, s')"
  shows "schemaOk (abst s') \<and> infoFresh (abst s') \<and> tablesOf (abst s') = tablesOf (abst s) \<and>
    readAnswer (abst s) postIds
      (\<lambda>i. if i \<in> set postIds then Some (nicknamesOf (abst s) i) else None) res"
proof -
  let ?es = "filter (\<lambda>l. plPostId l \<in> set postIds) (postLikes (abst s))"
  let ?loop = "mapR (\<lambda>(postId, ls). bindR (getNicknameList (svcGetUserInfoByUid D) now ls)
      (\<lambda>ns. returnR (postId, ns))) (groupedByPostId ?es)"
  let ?name = "\<lambda>e. dtoNickname (the (profilesOf (abst s) (plUid e)))"
  obtain r1 s1 where f: "findPostLikeEntitiesByPostIds D postIds s = (r1, s1)" by fastforce
  note one = likes_read [OF f]
  obtain r2 s2 where l: "?loop s1 = (r2, s2)" by fastforce
  have a: "abst s1 = abst s" using one by simp
  with ok have "schemaOk (abst s1) \<and> infoFresh (abst s1)" by simp
  from profiles.group_nicknames [OF this l, unfolded a] have
    two: "schemaOk (abst s2) \<and> infoFresh (abst s2)" "tablesOf (abst s2) = tablesOf (abst s)"
      "case List.find (\<lambda>e. profilesOf (abst s) (plUid e) = None) (concat (map snd (groupedByPostId ?es))) of
         Some e \<Rightarrow> r2 = Inl (UserInfoNotFoundException (plUid e))
       | None \<Rightarrow> r2 = Inr (map (\<lambda>(k, ls). (k, map ?name ls)) (groupedByPostId ?es))" by simp_all
  from run f one l have res: "s' = s2" "res = (case r2 of Inl e \<Rightarrow> Inl e
      | Inr pairs \<Rightarrow> Inr (foldl (\<lambda>m (postId, ns). m(postId \<mapsto> ns))
                (foldl (\<lambda>m postId. m(postId \<mapsto> [])) Map.empty postIds) pairs))"
    by (auto simp: getPostLikeMapByPostIds_def bindR_def split: sum.splits prod.splits)
  have "readAnswer (abst s) postIds
      (\<lambda>i. if i \<in> set postIds then Some (nicknamesOf (abst s) i) else None) res"
  proof (cases "List.find (\<lambda>e. profilesOf (abst s) (plUid e) = None) (concat (map snd (groupedByPostId ?es)))")
    case None
    then have "strangers (abst s) postIds = []" unfolding groups_find strangers_Nil by auto
    moreover have "res = Inr (\<lambda>i. if i \<in> set postIds then Some (nicknamesOf (abst s) i) else None)"
      using two(3) res(2) None likeMap_entries [OF refl, where f = ?name and postIds = postIds and ls = "postLikes (abst s)"]
      by (simp add: nicknamesOf_def fun_eq_iff)
    ultimately show ?thesis by (simp add: readAnswer_def)
  next
    case (Some e)
    note find_Some_in [OF Some]
    then have "plUid e \<in> set (strangers (abst s) postIds)" unfolding groups_members by (auto simp: strangers_def)
    with Some two(3) res(2) show ?thesis by (auto simp: readAnswer_def)
  qed
  with two(1,2) res(1) show ?thesis by simp
qed

text \<open>One post, and the rows of a page with their likes.\<close>

lemma post_read:
  assumes ok: "schemaOk (abst s)" "infoFresh (abst s)"
    and run: "getPostByPostId D (svcGetUserInfoByUid D) now postId s = (res, s')"
  shows "schemaOk (abst s') \<and> infoFresh (abst s') \<and> tablesOf (abst s') = tablesOf (abst s) \<and>
    (case blogPosts (blogOf (abst s)) postId of
       None \<Rightarrow> res = Inl (PostNotFoundException postId)
     | Some p \<Rightarrow> readAnswer (abst s) [postId] (viewOf (abst s) p) res)"
proof -
  obtain r1 s1 where f: "findPostEntityByPostId D postId s = (r1, s1)" by fastforce
  have "sim abst (findPostEntityByPostId D postId) (findPostEntityByPostId sqlDb postId)"
    unfolding findPostEntityByPostId_def sqlDb_sel by (intro sim_intros)
  from sim_apply [OF this f] have one: "abst s1 = abst s"
    "r1 = (case blogPosts (blogOf (abst s)) postId of None \<Rightarrow> Inl (PostNotFoundException postId) | Some p \<Rightarrow> Inr p)"
    by (auto simp: findPostEntityByPostId_def catchR_def sqlFindPost_def find_filter split: list.splits if_splits)
  show ?thesis
  proof (cases "blogPosts (blogOf (abst s)) postId")
    case None
    with run f one ok show ?thesis by (simp add: getPostByPostId_def bindR_def)
  next
    case (Some p)
    then have p: "peId p = postId" by (auto dest: find_Some_key)
    obtain r2 s2 where m: "getPostLikeMapByPostIds D (svcGetUserInfoByUid D) now [postId] s1 = (r2, s2)" by fastforce
    from run f one Some m p have "s' = s2" "res = (case r2 of Inl e \<Rightarrow> Inl e
        | Inr m \<Rightarrow> Inr (toPostDto (setPostLikeNicknameList
            (case m postId of None \<Rightarrow> [] | Some ns \<Rightarrow> ns) (postDaoFrom (spreadPostEntity p)))))"
      by (auto simp: getPostByPostId_def bindR_def Let_def postDaoFrom_def spreadPostEntity_def split: sum.splits)
    with likeMap_read [OF _ _ m, unfolded one(1), OF ok] Some p show ?thesis
      by (auto simp: readAnswer_def toPostDto_def setPostLikeNicknameList_def postDaoFrom_def
          spreadPostEntity_def viewOf_def split: sum.splits)
  qed
qed

lemma rows_read:
  assumes ok: "schemaOk (abst s)" "infoFresh (abst s)"
    and run: "toPostDaoList D (svcGetUserInfoByUid D) now es s = (res, s')"
  shows "schemaOk (abst s') \<and> infoFresh (abst s') \<and> tablesOf (abst s') = tablesOf (abst s) \<and>
    readAnswer (abst s) (map peId es) (map (viewOf (abst s)) es) (map_sum id (map toPostDto) res)"
proof -
  let ?daos = "map (\<lambda>e. postDaoFrom (spreadPostEntity e)) es"
  have ids: "map pdPostId ?daos = map peId es" by (simp add: postDaoFrom_def spreadPostEntity_def)
  obtain r2 s2 where m: "getPostLikeMapByPostIds D (svcGetUserInfoByUid D) now (map peId es) s = (r2, s2)" by fastforce
  have "s' = s2" "res = (case r2 of Inl e \<Rightarrow> Inl e
      | Inr m \<Rightarrow> Inr (map (\<lambda>d. setPostLikeNicknameList
           (case m (pdPostId d) of None \<Rightarrow> [] | Some ns \<Rightarrow> ns) d) ?daos))"
    using run unfolding toPostDaoList_def Let_def ids bindR_def m by (auto split: sum.splits)
  with likeMap_read [OF ok m] show ?thesis
    by (auto simp: readAnswer_def toPostDto_def setPostLikeNicknameList_def postDaoFrom_def
        spreadPostEntity_def viewOf_def split: sum.splits)
qed

end

section \<open>Lists\<close>

text \<open>The two listings, of all users and of one; \<open>listRows\<close> is their query for one page.\<close>

fun listPosts ::
  "('d, 'z) ormOps_scheme \<Rightarrow> nat \<Rightarrow> string option \<Rightarrow> int \<Rightarrow> ('d, exn, PostDto PaginationDto) run" where
  "listPosts D now None page = getPostPageListByPage D (svcGetUserInfoByUid D) now page"
| "listPosts D now (Some uid) page = getPostPageListByPostUid D (svcGetUserInfoByUid D) now uid page"

fun listRows ::
  "('d, 'z) ormOps_scheme \<Rightarrow> nat \<Rightarrow> string option \<Rightarrow> int \<Rightarrow> ('d, exn, PostEntity list \<times> int) run" where
  "listRows D now None page = findPostEntityListAndCountByPage D now page"
| "listRows D now (Some uid) page =
     findPostEntityListAndCountByPostPageDto D now \<lparr>dtoPostUid = uid, dtoPage = page\<rparr>"

fun pageId :: "string option \<Rightarrow> int \<Rightarrow> string" where
  "pageId None page = cacheIdOf (PostsPage page)"
| "pageId (Some uid) page = cacheIdOf (UserPostsPage \<lparr>dtoPostUid = uid, dtoPage = page\<rparr>)"

fun pageMillis :: "string option \<Rightarrow> nat" where
  "pageMillis None = getTicTimeMS 5 0"
| "pageMillis (Some uid) = getTicTimeHMS 24 0 0"

lemma listPosts_unfold:
  "listPosts D now owner page =
     bindR (listRows D now owner page) (\<lambda>(initial, n).
        bindR (if getLastPage n < page
               then bindR (listRows D now owner (getLastPage n)) (\<lambda>(es, _). returnR (es, getLastPage n))
               else returnR (initial, page)) (\<lambda>(es, currentPage).
        bindR (toPostDaoList D (svcGetUserInfoByUid D) now es) (\<lambda>daos.
        liftR (toPaginationDto (map toPostDto daos) n currentPage))))"
  by (cases owner) (simp_all only: listPosts.simps listRows.simps getPostPageListByPage_def
      getPostPageListByPostUid_def Let_def)

lemma pageIds [simp]:
  "pageId owner page \<noteq> countId (pageId owner' page')" "countId (pageId owner' page') \<noteq> pageId owner page"
  "pageId owner page = pageId owner' page' \<longleftrightarrow> owner = owner' \<and> page = page'"
proof -
  show n: "pageId owner page \<noteq> countId (pageId owner' page')" for owner page owner' page'
    by (cases owner; cases owner') (simp_all del: cacheIdOf.simps)
  show "countId (pageId owner' page') \<noteq> pageId owner page" using n [of owner page owner' page'] by metis
  show "pageId owner page = pageId owner' page' \<longleftrightarrow> owner = owner' \<and> page = page'"
    by (cases owner; cases owner') (simp_all del: cacheIdOf.simps)
qed

text \<open>A cached query: the value of the entry that is hit, if any, and what a miss enters.\<close>

definition cacheHit :: "dbState \<Rightarrow> nat \<Rightarrow> string \<Rightarrow> (cachedRows \<Rightarrow> 'x option) \<Rightarrow> 'x option" where
  "cacheHit db now cid unwrap = (if cacheOn db then Option.bind (live (queryCache db) now cid) unwrap else None)"

lemma cachedQuery_apply:
  "cachedQuery now cid millis wrap unwrap query db =
     (case cacheHit db now cid unwrap of
        Some x \<Rightarrow> (Inr x, db)
      | None \<Rightarrow> (Inr (query db),
          if cacheOn db
          then db\<lparr>queryCache := (queryCache db)(cid \<mapsto> (wrap (query db), Some (now + millis)))\<rparr> else db))"
  by (simp add: cachedQuery_def cacheHit_def split: option.split)

lemma cacheHit_upd [simp]:
  "cid \<noteq> cid' \<Longrightarrow> cacheHit (db\<lparr>queryCache := (queryCache db)(cid' \<mapsto> e)\<rparr>) now cid unwrap = cacheHit db now cid unwrap"
  by (simp add: cacheHit_def live_def liveEntry_def)

definition hitPage :: "dbState \<Rightarrow> nat \<Rightarrow> string option \<Rightarrow> int \<Rightarrow> PostEntity list option" where
  "hitPage db now owner page = cacheHit db now (pageId owner page) unPosts"

definition hitCount :: "dbState \<Rightarrow> nat \<Rightarrow> string option \<Rightarrow> int \<Rightarrow> int option" where
  "hitCount db now owner page = cacheHit db now (countId (pageId owner page)) unCount"

definition rowsAt :: "dbState \<Rightarrow> nat \<Rightarrow> string option \<Rightarrow> int \<Rightarrow> PostEntity list" where
  "rowsAt db now owner page =
     (case hitPage db now owner page of Some rows \<Rightarrow> rows | None \<Rightarrow> pageOf page (orderedPosts owner db))"

definition countAt :: "dbState \<Rightarrow> nat \<Rightarrow> string option \<Rightarrow> int \<Rightarrow> int" where
  "countAt db now owner page =
     (case hitCount db now owner page of Some n \<Rightarrow> n | None \<Rightarrow> int (length (orderedPosts owner db)))"

lemma listRows_sql:
  "1 \<le> page \<Longrightarrow> listRows sqlDb now owner page =
     sqlFindPosts now owner TAKE ((page - 1) * TAKE) (pageId owner page) (pageMillis owner)"
  by (cases owner) (simp_all add: findPostEntityListAndCountByPage_def
      findPostEntityListAndCountByPostPageDto_def getSkip_def bindR_def liftR_def)

lemma listRows_invalid: "page < 1 \<Longrightarrow> listRows D now owner page = throwR (InvalidPageException page)"
  by (cases owner) (simp_all add: findPostEntityListAndCountByPage_def
      findPostEntityListAndCountByPostPageDto_def getSkip_def bindR_def liftR_def throwR_def)

text \<open>
  After the query the cache differs at most in the two entries of the page; an entry there is an old
  one or holds what the query returned.
\<close>

lemma listRows_apply:
  assumes "1 \<le> page" and run: "listRows sqlDb now owner page db = (res, db')"
  obtains Q where "res = Inr (rowsAt db now owner page, countAt db now owner page)"
    and "db' = db\<lparr>queryCache := Q\<rparr>"
    and "\<And>k. k \<noteq> pageId owner page \<Longrightarrow> k \<noteq> countId (pageId owner page) \<Longrightarrow> Q k = queryCache db k"
    and "hitPage db now owner page = None \<Longrightarrow> cacheOn db \<Longrightarrow> Q (pageId owner page) =
      Some (CachedPosts (rowsAt db now owner page), Some (now + pageMillis owner))"
    and "hitPage db now owner page \<noteq> None \<Longrightarrow> Q (pageId owner page) = queryCache db (pageId owner page)"
    and "hitCount db now owner page = None \<Longrightarrow> cacheOn db \<Longrightarrow> Q (countId (pageId owner page)) =
      Some (CachedCount (countAt db now owner page), Some (now + pageMillis owner))"
    and "hitCount db now owner page \<noteq> None \<Longrightarrow>
      Q (countId (pageId owner page)) = queryCache db (countId (pageId owner page))"
proof -
  let ?p = "pageId owner page" and ?t = "Some (now + pageMillis owner)"
  let ?Q1 = "if cacheOn db \<and> hitPage db now owner page = None
      then (queryCache db)(?p \<mapsto> (CachedPosts (rowsAt db now owner page), ?t)) else queryCache db"
  let ?Q = "if cacheOn db \<and> hitCount db now owner page = None
      then ?Q1(countId ?p \<mapsto> (CachedCount (countAt db now owner page), ?t)) else ?Q1"
  have o: "orderedPosts owner (db\<lparr>queryCache := q\<rparr>) = orderedPosts owner db" for q
    by (simp add: orderedPosts_def split: option.split)
  have "(res, db') = (Inr (rowsAt db now owner page, countAt db now owner page), db\<lparr>queryCache := ?Q\<rparr>)"
    using run unfolding listRows_sql [OF assms(1)] sqlFindPosts_def
    by (auto simp: bindR_def cachedQuery_apply o rowsAt_def countAt_def hitPage_def hitCount_def pageOf_def
        split: option.splits if_splits)
  then show thesis by (intro that [of ?Q]) auto
qed

text \<open>What a listing answers, given the rows and the count of the page query.\<close>

definition pageAnswer :: "dbState \<Rightarrow> nat \<Rightarrow> string option \<Rightarrow> int \<Rightarrow> PostEntity list \<times> PostDto PaginationDto" where
  "pageAnswer db now owner page =
     (let n = countAt db now owner page; current = min page (getLastPage n); rows = rowsAt db now owner current in
      (rows, \<lparr>pageData = map (viewOf db) rows,
              paginationMeta = newPaginationMetaDto n current (getLastPage n)\<rparr>))"

lemma rowsAt_other:
  assumes "\<And>k. k \<noteq> pageId owner page \<Longrightarrow> k \<noteq> countId (pageId owner page) \<Longrightarrow> Q k = queryCache db k"
    and "page' \<noteq> page"
  shows "rowsAt (db\<lparr>queryCache := Q\<rparr>) now owner page' = rowsAt db now owner page'"
proof -
  have "Q (pageId owner page') = queryCache db (pageId owner page')" using assms by simp
  moreover have "orderedPosts owner (db\<lparr>queryCache := Q\<rparr>) = orderedPosts owner db"
    by (simp add: orderedPosts_def split: option.split)
  ultimately show ?thesis
    by (simp add: rowsAt_def hitPage_def cacheHit_def live_def liveEntry_def split: option.split)
qed

text \<open>The two queries of a listing: the page asked for, and the last one where that is too far.\<close>

definition listQuery ::
  "('d, 'z) ormOps_scheme \<Rightarrow> nat \<Rightarrow> string option \<Rightarrow> int \<Rightarrow> ('d, exn, (PostEntity list \<times> int) \<times> int) run" where
  "listQuery D now owner page =
     bindR (listRows D now owner page) (\<lambda>(initial, n).
        bindR (if getLastPage n < page
               then bindR (listRows D now owner (getLastPage n)) (\<lambda>(es, _). returnR (es, getLastPage n))
               else returnR (initial, page)) (\<lambda>p. returnR (p, n)))"

lemma listPosts_query:
  "listPosts D now owner page =
     bindR (listQuery D now owner page) (\<lambda>((es, currentPage), n).
        bindR (toPostDaoList D (svcGetUserInfoByUid D) now es) (\<lambda>daos.
        liftR (toPaginationDto (map toPostDto daos) n currentPage)))"
  by (rule ext) (auto simp: listPosts_unfold listQuery_def bindR_def split: prod.splits sum.splits)

lemma listQuery_apply:
  assumes "1 \<le> page" and run: "listQuery sqlDb now owner page db = (res, db')"
  shows "\<exists>Q. db' = db\<lparr>queryCache := Q\<rparr> \<and>
    res = Inr ((rowsAt db now owner (min page (getLastPage (countAt db now owner page))),
      min page (getLastPage (countAt db now owner page))), countAt db now owner page) \<and>
    (\<forall>k. (\<forall>p. k \<noteq> pageId owner p \<and> k \<noteq> countId (pageId owner p)) \<longrightarrow> Q k = queryCache db k)"
proof -
  let ?n = "countAt db now owner page"
  obtain r1 db1 where f: "listRows sqlDb now owner page db = (r1, db1)" by fastforce
  from listRows_apply [OF assms(1) f] obtain Q1 where
    one: "r1 = Inr (rowsAt db now owner page, ?n)" "db1 = db\<lparr>queryCache := Q1\<rparr>"
      "\<And>k. k \<noteq> pageId owner page \<Longrightarrow> k \<noteq> countId (pageId owner page) \<Longrightarrow> Q1 k = queryCache db k" by metis
  show ?thesis
  proof (cases "getLastPage ?n < page")
    case False
    with run f one have "res = Inr ((rowsAt db now owner page, page), ?n)" "db' = db\<lparr>queryCache := Q1\<rparr>"
      by (simp_all add: listQuery_def bindR_def)
    with False one(3) show ?thesis by (auto simp: min_def)
  next
    case True
    obtain r2 db2 where g: "listRows sqlDb now owner (getLastPage ?n) db1 = (r2, db2)" by fastforce
    from listRows_apply [OF getLastPage_ge g] obtain Q2 where
      two: "r2 = Inr (rowsAt db1 now owner (getLastPage ?n), countAt db1 now owner (getLastPage ?n))"
        "db2 = db1\<lparr>queryCache := Q2\<rparr>"
        "\<And>k. k \<noteq> pageId owner (getLastPage ?n) \<Longrightarrow> k \<noteq> countId (pageId owner (getLastPage ?n)) \<Longrightarrow>
           Q2 k = queryCache db1 k" by metis
    have "rowsAt db1 now owner (getLastPage ?n) = rowsAt db now owner (getLastPage ?n)"
      unfolding one(2) by (rule rowsAt_other [OF one(3)]) (use True in auto)
    with run f g one(1) two(1) True have
      "res = Inr ((rowsAt db now owner (getLastPage ?n), getLastPage ?n), ?n)" "db' = db2"
      by (simp_all add: listQuery_def bindR_def)
    with True one(2,3) two(2,3) show ?thesis by (auto simp: min_def)
  qed
qed

context orm
begin

lemma sim_listQuery: "sim abst (listQuery D now owner page) (listQuery sqlDb now owner page)"
  unfolding listQuery_def
  by (cases owner) (simp_all only: listRows.simps findPostEntityListAndCountByPage_def
      findPostEntityListAndCountByPostPageDto_def sqlDb_sel, (intro sim_intros sim_case_pair_fun)+)

lemma list_read:
  assumes ok: "schemaOk (abst s)" "infoFresh (abst s)" and "1 \<le> page"
    and run: "listPosts D now owner page s = (res, s')"
  shows "schemaOk (abst s') \<and> infoFresh (abst s') \<and> tablesOf (abst s') = tablesOf (abst s) \<and>
    readAnswer (abst s) (map peId (fst (pageAnswer (abst s) now owner page)))
      (snd (pageAnswer (abst s) now owner page)) res"
proof -
  let ?n = "countAt (abst s) now owner page"
  let ?cur = "min page (getLastPage ?n)"
  let ?rows = "rowsAt (abst s) now owner ?cur"
  obtain r1 s1 where q: "listQuery D now owner page s = (r1, s1)" by fastforce
  from listQuery_apply [OF assms(3) sim_apply [OF sim_listQuery q]] obtain Q where
    one: "abst s1 = (abst s)\<lparr>queryCache := Q\<rparr>" "r1 = Inr ((?rows, ?cur), ?n)"
      "\<And>k. (\<forall>p. k \<noteq> pageId owner p \<and> k \<noteq> countId (pageId owner p)) \<Longrightarrow> Q k = queryCache (abst s) k" by metis
  have "Q (getUserInfoEntityCacheId u) = queryCache (abst s) (getUserInfoEntityCacheId u)" for u
    by (rule one(3)) (cases owner; simp add: cache_id_defs countId_def)
  with ok one(1) have ok1: "schemaOk (abst s1)" "infoFresh (abst s1)" by (simp_all add: infoFresh_def)
  have t: "tablesOf (abst s1) = tablesOf (abst s)" by (simp add: one(1))
  obtain r2 s2 where d: "toPostDaoList D (svcGetUserInfoByUid D) now ?rows s1 = (r2, s2)" by fastforce
  note two = rows_read [OF ok1 d, unfolded read_cong [OF t] t]
  have "1 \<le> ?cur" "min ?cur (getLastPage ?n) = ?cur" using assms(3) getLastPage_ge [of ?n] by simp_all
  then have "s' = s2" "res = (case r2 of Inl e \<Rightarrow> Inl e | Inr daos \<Rightarrow>
      Inr \<lparr>pageData = map toPostDto daos, paginationMeta = newPaginationMetaDto ?n ?cur (getLastPage ?n)\<rparr>)"
    using run unfolding listPosts_query bindR_def q one(2)
    by (auto simp: d toPaginationDto_def Let_def split: sum.splits)
  with two show ?thesis
    by (auto simp: readAnswer_def pageAnswer_def Let_def split: sum.splits)
qed

end

section \<open>Cached pages stay\<close>

text \<open>Neither reading profiles nor changing posts and likes touches the entries of the listings.\<close>

definition holds :: "string \<Rightarrow> cachedRows entry \<Rightarrow> dbState \<Rightarrow> bool" where
  "holds k e db \<longleftrightarrow> cacheOn db \<and> queryCache db k = Some e"

lemma holds_simps [simp]:
  "holds k e (db\<lparr>posts := ps\<rparr>) = holds k e db" "holds k e (db\<lparr>postLikes := ls\<rparr>) = holds k e db"
  "holds k e (db\<lparr>nextPostId := n\<rparr>) = holds k e db" "holds k e (db\<lparr>posts := ps, nextPostId := n\<rparr>) = holds k e db"
  by (simp_all add: holds_def)

lemma keeps_holds_cached:
  "k \<noteq> cid \<Longrightarrow> keeps (holds k e) (cachedQuery now cid millis wrap unwrap query)"
  "k \<notin> set ids \<Longrightarrow> keeps (holds k e) (sqlRemoveCached ids)"
  by (auto simp: keeps_def holds_def cachedQuery_def sqlRemoveCached_def split: option.split)

lemma keeps_holds_profile:
  "(\<And>u. k \<noteq> getUserInfoEntityCacheId u) \<Longrightarrow> keeps (holds k e) (svcGetUserInfoByUid sqlDb now uid)"
  unfolding userInfo_defs sqlDb_sel sqlFindUserInfo_def orFail_def
  by (intro keeps_intros keeps_holds_cached) simp_all

lemma keeps_holds_blog:
  assumes "\<And>i. k \<noteq> getPostLikeEntityListCacheId i"
  shows "keeps (holds k e) (blogCall sqlDb op)"
proof -
  have w: "keeps (holds k e) (sqlInsertPost now np)" "keeps (holds k e) (sqlUpdatePost i u patch)"
    "keeps (holds k e) (sqlDeletePost i u)" "keeps (holds k e) (sqlInsertPostLike pl)"
    "keeps (holds k e) (sqlDeletePostLike i u)" "keeps (holds k e) (sqlExistPostLike i u)"
    for now np i u patch pl
    by (simp_all add: keeps_def sqlInsertPost_def sqlUpdatePost_def sqlDeletePost_def sqlInsertPostLike_def
        sqlDeletePostLike_def sqlExistPostLike_def Let_def)
  show ?thesis
    by (cases op) (simp_all only: blogCall.simps post_defs like_defs Let_def sqlDb_sel,
        (rule keeps_intros w keeps_holds_cached | simp add: assms)+)
qed

lemma pageId_slots:
  "pageId owner page \<noteq> getUserInfoEntityCacheId u" "pageId owner page \<noteq> getPostLikeEntityListCacheId i"
  "countId (pageId owner page) \<noteq> getUserInfoEntityCacheId u"
  "countId (pageId owner page) \<noteq> getPostLikeEntityListCacheId i"
  by (cases owner; simp add: cache_id_defs countId_def)+

context orm
begin

lemma holds_rows:
  assumes "\<And>u. k \<noteq> getUserInfoEntityCacheId u" and "holds k e (abst s)"
    and "toPostDaoList D (svcGetUserInfoByUid D) now es s = (res, s')"
  shows "holds k e (abst s')"
proof -
  have "keeps (holds k e) (sqlFindPostLikesIn ids)" for ids
    by (simp add: keeps_def sqlFindPostLikesIn_def)
  moreover note keeps_holds_profile [OF assms(1)]
  ultimately have "keeps (holds k e) (toPostDaoList sqlDb (svcGetUserInfoByUid sqlDb) now es)"
    unfolding toPostDaoList_def like_defs Let_def sqlDb_sel by (intro keeps_intros)
  from keepsD [OF this assms(2) sim_apply [OF sim_toPostDaoList assms(3)]] show ?thesis .
qed

lemma holds_blogCalls:
  assumes "\<And>i. k \<noteq> getPostLikeEntityListCacheId i" and "holds k e (abst s)"
    and "blogCalls D calls s = (results, s')"
  shows "holds k e (abst s')"
  using assms(2,3)
proof (induction calls arbitrary: s results)
  case (Cons op calls)
  obtain res s1 where r: "blogCall D op s = (res, s1)" by fastforce
  with Cons.prems(2) obtain rs where "blogCalls D calls s1 = (rs, s')" by (auto split: prod.splits)
  with Cons.IH keepsD [OF keeps_holds_blog [OF assms(1)] Cons.prems(1) sim_apply [OF sim_blogCall r]]
  show ?case by blast
qed simp

text \<open>A listing of an uncached page that is not beyond the last leaves its answer in the cache.\<close>

lemma list_fills:
  assumes "1 \<le> page" and "page \<le> getLastPage (int (length (orderedPosts owner (abst s))))"
    and "cacheOn (abst s)" and "hitPage (abst s) now owner page = None" and "hitCount (abst s) now owner page = None"
    and "listPosts D now owner page s = (res, s')"
  shows "holds (pageId owner page)
      (CachedPosts (pageOf page (orderedPosts owner (abst s))), Some (now + pageMillis owner)) (abst s') \<and>
    holds (countId (pageId owner page))
      (CachedCount (int (length (orderedPosts owner (abst s)))), Some (now + pageMillis owner)) (abst s')"
proof -
  let ?db = "abst s"
  have r: "rowsAt ?db now owner page = pageOf page (orderedPosts owner ?db)"
    "countAt ?db now owner page = int (length (orderedPosts owner ?db))"
    using assms(4,5) by (simp_all add: rowsAt_def countAt_def)
  obtain r1 s1 where q: "listQuery D now owner page s = (r1, s1)" by fastforce
  obtain x d1 where f: "listRows sqlDb now owner page ?db = (x, d1)" by fastforce
  from listRows_apply [OF assms(1) f] assms(3-5) obtain Q where
    one: "x = Inr (rowsAt ?db now owner page, countAt ?db now owner page)" "d1 = ?db\<lparr>queryCache := Q\<rparr>"
      "Q (pageId owner page) = Some (CachedPosts (rowsAt ?db now owner page), Some (now + pageMillis owner))"
      "Q (countId (pageId owner page)) = Some (CachedCount (countAt ?db now owner page), Some (now + pageMillis owner))"
    by metis
  have "listQuery sqlDb now owner page ?db = (Inr ((rowsAt ?db now owner page, page), countAt ?db now owner page), d1)"
    using f one(1) assms(2) r by (simp add: listQuery_def bindR_def)
  with sim_apply [OF sim_listQuery q] have s1: "abst s1 = d1" "r1 = Inr ((rowsAt ?db now owner page, page), countAt ?db now owner page)"
    by simp_all
  obtain r2 s2 where t: "toPostDaoList D (svcGetUserInfoByUid D) now (rowsAt ?db now owner page) s1 = (r2, s2)"
    by fastforce
  have "s' = s2" using assms(6) unfolding listPosts_query bindR_def q s1(2) by (auto simp: t split: sum.splits)
  moreover have "holds (pageId owner page) (CachedPosts (pageOf page (orderedPosts owner ?db)), Some (now + pageMillis owner)) (abst s1)"
    "holds (countId (pageId owner page)) (CachedCount (int (length (orderedPosts owner ?db))), Some (now + pageMillis owner)) (abst s1)"
    using one(2-4) s1(1) assms(3) r by (simp_all add: holds_def)
  ultimately show ?thesis using holds_rows [OF pageId_slots(1) _ t] holds_rows [OF pageId_slots(3) _ t] by blast
qed

end

section \<open>One query for all posts, or one for each\<close>

text \<open>The unoptimised reading: for each post its own cached query, then the nicknames.\<close>

definition likesOneByOne ::
  "('d, 'z) ormOps_scheme \<Rightarrow> (nat \<Rightarrow> string \<Rightarrow> ('d, exn, UserInfoDto) run) \<Rightarrow> nat \<Rightarrow> int list \<Rightarrow>
   ('d, exn, (int \<times> string list) list) run" where
  "likesOneByOne D get now postIds =
     mapR (\<lambda>postId. bindR (findPostLikeEntityList D now postId) (\<lambda>es.
        bindR (getNicknameList get now es) (\<lambda>ns. returnR (postId, ns)))) postIds"

lemma keeps_likes_profile: "keeps likesFresh (svcGetUserInfoByUid sqlDb now uid)"
proof -
  have "keeps likesFresh (cachedQuery now (getUserInfoEntityCacheId u) m w u' q)" for u m w u' q
    by (auto simp: keeps_def likesFresh_def cachedQuery_def cache_id_defs split: option.split)
  moreover have "keeps likesFresh (sqlRemoveCached ids)" for ids
    by (auto simp: keeps_def likesFresh_def sqlRemoveCached_def restrict_map_def)
  ultimately show ?thesis
    unfolding userInfo_defs sqlDb_sel sqlFindUserInfo_def orFail_def by (intro keeps_intros)
qed

context orm
begin

lemma one_post:
  assumes ok: "schemaOk (abst s)" "infoFresh (abst s)" "likesFresh (abst s)"
    and run: "bindR (findPostLikeEntityList D now postId) (\<lambda>es.
        bindR (getNicknameList (svcGetUserInfoByUid D) now es) (\<lambda>ns. returnR (postId, ns))) s = (res, s')"
  shows "schemaOk (abst s') \<and> infoFresh (abst s') \<and> likesFresh (abst s') \<and> tablesOf (abst s') = tablesOf (abst s) \<and>
    readAnswer (abst s) [postId] (postId, nicknamesOf (abst s) postId) res"
proof -
  let ?es = "filter (\<lambda>l. plPostId l = postId) (postLikes (abst s))"
  obtain r1 s1 where f: "findPostLikeEntityList D now postId s = (r1, s1)" by fastforce
  from likes_cached [OF ok(3) sim_apply [OF sim_findPostLikeEntityList f]] obtain Q where
    one: "r1 = Inr ?es" "likesFresh (abst s1)" "infoFresh (abst s1)" "abst s1 = (abst s)\<lparr>queryCache := Q\<rparr>"
    using ok(2) by auto
  then have t: "tablesOf (abst s1) = tablesOf (abst s)" "schemaOk (abst s1)" using ok by simp_all
  obtain r2 s2 where n: "getNicknameList (svcGetUserInfoByUid D) now ?es s1 = (r2, s2)" by fastforce
  have si: "sim abst (getNicknameList (svcGetUserInfoByUid D) now ?es) (getNicknameList (svcGetUserInfoByUid sqlDb) now ?es)"
    unfolding getNicknameList_def by (intro sim_intros)
  have "keeps likesFresh (getNicknameList (svcGetUserInfoByUid sqlDb) now ?es)"
    unfolding getNicknameList_def by (intro keeps_intros keeps_likes_profile)
  from keepsD [OF this one(2) sim_apply [OF si n]] have l: "likesFresh (abst s2)" .
  have p: "profilesOf (abst s1) = profilesOf (abst s)" using tablesOf_cong [OF t(1)] by simp
  from profiles.nicknames [OF _ n, unfolded p t(1)] one t have
    two: "schemaOk (abst s2) \<and> infoFresh (abst s2)" "tablesOf (abst s2) = tablesOf (abst s)"
      "r2 = (case List.find (\<lambda>e. profilesOf (abst s) (plUid e) = None) ?es of
         Some e \<Rightarrow> Inl (UserInfoNotFoundException (plUid e))
       | None \<Rightarrow> Inr (map (\<lambda>e. dtoNickname (the (profilesOf (abst s) (plUid e)))) ?es))" by simp_all
  have res: "s' = s2" "res = map_sum id (\<lambda>ns. (postId, ns)) r2"
    using run f one(1) n by (auto simp: bindR_def split: sum.splits)
  have "readAnswer (abst s) [postId] (postId, nicknamesOf (abst s) postId) res"
  proof (cases "List.find (\<lambda>e. profilesOf (abst s) (plUid e) = None) ?es")
    case None
    then have "res = Inr (postId, nicknamesOf (abst s) postId)" using two(3) res(2) by (simp add: nicknamesOf_def)
    moreover have "strangers (abst s) [postId] = []" using None unfolding find_None_all strangers_Nil by auto
    ultimately show ?thesis by (simp add: readAnswer_def)
  next
    case (Some e)
    with two(3) res(2) find_Some_in [OF Some] show ?thesis by (auto simp: readAnswer_def strangers_def)
  qed
  with two l res(1) show ?thesis by simp
qed

lemma one_by_one_read:
  assumes "schemaOk (abst s)" and "infoFresh (abst s)" and "likesFresh (abst s)"
    and "likesOneByOne D (svcGetUserInfoByUid D) now postIds s = (res, s')"
  shows "readAnswer (abst s) postIds (map (\<lambda>i. (i, nicknamesOf (abst s) i)) postIds) res"
  using assms
proof (induction postIds arbitrary: s res s')
  case (Cons i postIds)
  let ?one = "bindR (findPostLikeEntityList D now i) (\<lambda>es.
        bindR (getNicknameList (svcGetUserInfoByUid D) now es) (\<lambda>ns. returnR (i, ns)))"
  obtain r1 s1 where f: "?one s = (r1, s1)" by fastforce
  note one = one_post [OF Cons.prems(1-3) f]
  obtain r2 s2 where g: "likesOneByOne D (svcGetUserInfoByUid D) now postIds s1 = (r2, s2)" by fastforce
  have t: "tablesOf (abst s1) = tablesOf (abst s)" using one by simp
  have two: "readAnswer (abst s) postIds (map (\<lambda>i. (i, nicknamesOf (abst s) i)) postIds) r2"
    using Cons.IH [OF _ _ _ g, unfolded read_cong [OF t]] one by simp
  have "res = (case r1 of Inl e \<Rightarrow> Inl e | Inr p \<Rightarrow> map_sum id (\<lambda>ps. p # ps) r2)"
    using Cons.prems(4) f g by (auto simp: likesOneByOne_def bindR_def split: sum.splits)
  moreover have "strangers (abst s) (i # postIds) = [] \<longleftrightarrow>
      strangers (abst s) [i] = [] \<and> strangers (abst s) postIds = []" by (auto simp: strangers_Nil)
  moreover have "set (strangers (abst s) (i # postIds)) = set (strangers (abst s) [i]) \<union> set (strangers (abst s) postIds)"
    by (auto simp: strangers_def)
  ultimately show ?case using one two by (cases r1; cases r2) (auto simp: readAnswer_def)
qed (auto simp: likesOneByOne_def readAnswer_def strangers_def)

end

context orm
begin

lemma blogCalls_fresh:
  assumes "schemaOk (abst s)" and "infoFresh (abst s)" and "blogCalls D calls s = (results, s')"
  shows "schemaOk (abst s') \<and> infoFresh (abst s')"
  using assms
proof (induction calls arbitrary: s results)
  case (Cons op calls)
  obtain res s1 where r: "blogCall D op s = (res, s1)" by fastforce
  with Cons.prems(3) obtain rs where "blogCalls D calls s1 = (rs, s')" by (auto split: prod.splits)
  with Cons.IH blog_on [OF orm_axioms Cons.prems(1) r] Cons.prems(2) show ?case by blast
qed simp

end

text \<open>Sorting with a new element of a new key.\<close>

lemma sort_key_snoc: "f x \<notin> f ` set xs \<Longrightarrow> sort_key f (xs @ [x]) = insort_key f x (sort_key f xs)"
proof (induction xs)
  case (Cons y ys)
  then show ?case by (simp add: insort_key_left_comm)
qed simp

lemma newest_first:
  assumes "\<forall>p \<in> set ps. peId p < peId row"
  shows "sort_key (\<lambda>p. - peId p) (ps @ [row]) = row # sort_key (\<lambda>p. - peId p) (ps :: PostEntity list)"
proof -
  have "insort_key (\<lambda>p. - peId p) row qs = row # qs" if "\<forall>p \<in> set qs. peId p < peId row" for qs :: "PostEntity list"
    using that by (cases qs) auto
  moreover have "- peId row \<notin> (\<lambda>p. - peId p) ` set ps" using assms by force
  ultimately show ?thesis using assms sort_key_snoc [of "\<lambda>p. - peId p" row ps] by simp
qed

section \<open>Properties\<close>



text \<open>C17: An uncached listing is exact. If no page of the list (of all posts, or of one user's) is in the
  cache, asking for any page from 1 on gives the posts of that page, newest first and 20 to a page,
  each with the nicknames of its likers; a page beyond the last is answered with the last page; the
  metadata give the number of posts and of pages. The only failure is a liker without a profile
  among the posts of the page. No table changes.\<close>

theorem uncached_listing_exact:
  assumes "orm D abst" and "schemaOk (abst s)" and "infoFresh (abst s)" and "1 \<le> page"
    and "\<And>p. hitPage (abst s) now owner p = None \<and> hitCount (abst s) now owner p = None"
    and "listPosts D now owner page s = (res, s')"
  shows "(let xs = orderedPosts owner (abst s); lastPage = getLastPage (int (length xs));
      current = min page lastPage; rows = pageOf current xs in
      sorted_wrt (\<lambda>p q. peId q \<le> peId p) xs \<and>
      (if strangers (abst s) (map peId rows) = []
       then res = Inr \<lparr>pageData = map (viewOf (abst s)) rows,
              paginationMeta = newPaginationMetaDto (int (length xs)) current lastPage\<rparr>
       else \<exists>u \<in> set (strangers (abst s) (map peId rows)). res = Inl (UserInfoNotFoundException u))) \<and>
    tablesOf (abst s') = tablesOf (abst s)"
proof -
  have r: "rowsAt (abst s) now owner p = pageOf p (orderedPosts owner (abst s))"
    "countAt (abst s) now owner p = int (length (orderedPosts owner (abst s)))" for p
    using assms(5) [of p] by (simp_all add: rowsAt_def countAt_def)
  have "sorted_wrt (\<lambda>p q. peId q \<le> peId p) (sort_key (\<lambda>p. - peId p) ps)" for ps :: "PostEntity list"
    using sorted_sort_key [of "\<lambda>p. - peId p" ps] by (simp add: sorted_map)
  then have "sorted_wrt (\<lambda>p q. peId q \<le> peId p) (orderedPosts owner (abst s))"
    by (simp add: orderedPosts_def split: option.split)
  with orm.list_read [OF assms(1-4,6)] show ?thesis
    by (auto simp: r pageAnswer_def Let_def readAnswer_def split: sum.splits)
qed

text \<open>C24: A listed page is frozen until its cache entry expires: 24 hours for a user's posts. After a
  listing of a page that was not cached, whatever posts are created, changed or deleted and
  whatever likes come and go, every successful listing of that page before the entry's end shows
  exactly the same posts with the same texts and the same page counts, deleted posts included.\<close>

theorem listed_page_is_frozen:
  assumes "orm D abst" and "schemaOk (abst s)" and "infoFresh (abst s)" and "1 \<le> page"
    and "cacheOn (abst s)" and "hitPage (abst s) now owner page = None" and "hitCount (abst s) now owner page = None"
    and "page \<le> getLastPage (int (length (orderedPosts owner (abst s))))"
    and "listPosts D now owner page s = (Inr before, s1)"
    and "blogCalls D calls s1 = (results, s2)" and "later < now + pageMillis owner"
    and "listPosts D later owner page s2 = (Inr after, s3)"
  shows "map (\<lambda>d. d\<lparr>ptPostLikeNicknameList := None\<rparr>) (pageData after) =
      map (\<lambda>d. d\<lparr>ptPostLikeNicknameList := None\<rparr>) (pageData before) \<and>
    paginationMeta after = paginationMeta before"
proof -
  let ?xs = "orderedPosts owner (abst s)"
  let ?rows = "pageOf page ?xs" and ?n = "int (length ?xs)"
  note fill = orm.list_fills [OF assms(1,4,8,5,6,7,9)]
  from orm.holds_blogCalls [OF assms(1) pageId_slots(2) conjunct1 [OF fill] assms(10)]
    orm.holds_blogCalls [OF assms(1) pageId_slots(4) conjunct2 [OF fill] assms(10)]
  have "hitPage (abst s2) later owner page = Some ?rows" "hitCount (abst s2) later owner page = Some ?n"
    using assms(11) by (simp_all add: holds_def hitPage_def hitCount_def cacheHit_def live_def liveEntry_def)
  then have two: "rowsAt (abst s2) later owner page = ?rows" "countAt (abst s2) later owner page = ?n"
    by (simp_all add: rowsAt_def countAt_def)
  have one: "rowsAt (abst s) now owner page = ?rows" "countAt (abst s) now owner page = ?n"
    using assms(6,7) by (simp_all add: rowsAt_def countAt_def)
  have m: "min page (getLastPage ?n) = page" using assms(8) by simp
  note r1 = orm.list_read [OF assms(1-4,9)]
  then have ok1: "schemaOk (abst s1)" "infoFresh (abst s1)" by simp_all
  have ok2: "schemaOk (abst s2) \<and> infoFresh (abst s2)"
    using orm.blogCalls_fresh [OF assms(1) ok1 assms(10)] .
  note r2 = orm.list_read [OF assms(1) conjunct1 [OF ok2] conjunct2 [OF ok2] assms(4,12)]
  have v: "(viewOf db p)\<lparr>ptPostLikeNicknameList := None\<rparr> = (viewOf db' p)\<lparr>ptPostLikeNicknameList := None\<rparr>" for db db' p
    by (simp add: viewOf_def)
  have "map (\<lambda>d. d\<lparr>ptPostLikeNicknameList := None\<rparr>) (map (viewOf (abst s2)) ?rows) =
      map (\<lambda>d. d\<lparr>ptPostLikeNicknameList := None\<rparr>) (map (viewOf (abst s)) ?rows)"
    by (simp add: comp_def v [of "abst s2" _ "abst s"])
  with r1 r2 show ?thesis by (simp add: readAnswer_def pageAnswer_def Let_def one two m)
qed

text \<open>A created post reads back. After a successful creation, reading the next free id gives the post
  as it was sent, under its author, with no hits and nobody liking it; it heads the author's list
  and the list of all posts, which hold the earlier posts unchanged behind it.\<close>

lemma created_post_reads_back:
  assumes "orm D abst" and "schemaOk (abst s)" and "infoFresh (abst s)"
    and "svcCreatePost D now uid dto s = (Inr (), s1)"
  shows "fst (getPostByPostId D (svcGetUserInfoByUid D) later (nextPostId (abst s)) s1) =
      Inr \<lparr>ptPostId = nextPostId (abst s), ptPostUid = uid, ptTitle = cdTitle dto, ptWriteDatetime = now,
           ptContents = cdContents dto, ptHits = 0, ptPostLikeNicknameList = Some []\<rparr> \<and>
    (\<forall>owner \<in> {None, Some uid}. orderedPosts owner (abst s1) =
       newRow (nextPostId (abst s)) now uid dto # orderedPosts owner (abst s))"
proof -
  let ?db = "abst s" and ?row = "newRow (nextPostId (abst s)) now uid dto"
  have c: "svcCreatePost sqlDb now uid dto ?db = (Inr (), abst s1)"
    using sim_apply [OF orm.sim_blogCall [OF assms(1), of "CreatePost now uid dto"]] assms(4) by simp
  then have s1: "abst s1 = ?db\<lparr>posts := posts ?db @ [?row], nextPostId := nextPostId ?db + 1\<rparr>"
    by (auto simp: post_defs sqlInsertPost_def Let_def newRow_def split: if_splits)
  have b: "blogCall D (CreatePost now uid dto) s = (Inr (), s1)" using assms(4) by simp
  from blog_on [OF assms(1,2) b] assms(3) have ok: "schemaOk (abst s1)" "infoFresh (abst s1)" by simp_all
  have new: "peId p < nextPostId ?db" if "p \<in> set (posts ?db)" for p using that assms(2) by (simp add: schemaOk_def)
  have "List.find (\<lambda>p. peId p = nextPostId ?db) (posts ?db) = None" unfolding find_None_key using new by force
  then have p: "blogPosts (blogOf (abst s1)) (nextPostId ?db) = Some ?row"
    by (simp add: s1 find_snoc newRow_def)
  have "filter (\<lambda>l. plPostId l = nextPostId ?db) (postLikes ?db) = []"
    using assms(2) new by (force simp: schemaOk_def hasPost_def filter_empty_conv)
  then have "strangers (abst s1) [nextPostId ?db] = []" "nicknamesOf (abst s1) (nextPostId ?db) = []"
    by (auto simp: strangers_def nicknamesOf_def s1 filter_empty_conv)
  moreover obtain r s2 where r: "getPostByPostId D (svcGetUserInfoByUid D) later (nextPostId ?db) s1 = (r, s2)" by fastforce
  ultimately have one: "r = Inr (viewOf (abst s1) ?row)" "nicknamesOf (abst s1) (nextPostId ?db) = []"
    using orm.post_read [OF assms(1) ok r] p by (auto simp: readAnswer_def simp del: blogOf_sel split: sum.splits)
  have "sort_key (\<lambda>p. - peId p) (ps @ [?row]) = ?row # sort_key (\<lambda>p. - peId p) ps" if "set ps \<subseteq> set (posts ?db)" for ps
    using that new by (intro newest_first) (auto simp: newRow_def)
  moreover have "peUid ?row = uid" by (simp add: newRow_def)
  ultimately have "orderedPosts owner (abst s1) = ?row # orderedPosts owner ?db" if "owner \<in> {None, Some uid}" for owner
    using that by (auto simp: orderedPosts_def s1)
  with r one show ?thesis by (simp add: viewOf_def newRow_def)
qed

section \<open>Instances\<close>

text \<open>A post of \<open>a\<close>, liked by \<open>b\<close>, who has a profile; and the same without the profile.\<close>

definition demoNamed :: dbState where
  "demoNamed = demoDb\<lparr>userInfos := [\<lparr>uiUid = ''b'', uiNickname = ''bee'', uiIntroduce = ''hi''\<rparr>],
     posts := [newRow 1 5 ''a'' demoPost], postLikes := [\<lparr>plPostId = 1, plUid = ''b''\<rparr>], nextPostId := 2\<rparr>"

definition demoUnnamed :: dbState where
  "demoUnnamed = demoNamed\<lparr>userInfos := []\<rparr>"

lemma demoNamed_ok [simp]:
  "schemaOk demoNamed" "infoFresh demoNamed" "likesFresh demoNamed" "cacheOn demoNamed"
  "schemaOk demoUnnamed" "infoFresh demoUnnamed"
  by (simp_all add: demoNamed_def demoUnnamed_def demoDb_def demoAuth_def schemaOk_def infoFresh_def likesFresh_def
      hasAuth_def hasPost_def newRow_def)

lemma demoNamed_sel [simp]:
  "postLikes demoNamed = [\<lparr>plPostId = 1, plUid = ''b''\<rparr>]" "posts demoNamed = [newRow 1 5 ''a'' demoPost]"
  "profilesOf demoNamed ''b'' = Some \<lparr>dtoUid = ''b'', dtoNickname = ''bee'', dtoIntroduce = ''hi''\<rparr>"
  "postLikes demoUnnamed = [\<lparr>plPostId = 1, plUid = ''b''\<rparr>]" "posts demoUnnamed = [newRow 1 5 ''a'' demoPost]"
  "profilesOf demoUnnamed ''b'' = None" "queryCache demoNamed k = None"
  "hasAuth demoNamed u \<longleftrightarrow> u = ''a'' \<or> u = ''b''"
  by (auto simp: demoNamed_def demoUnnamed_def profilesOf_def dtoOf_def hasAuth_def demoDb_def demoAuth_def)

lemma demoNamed_read [simp]:
  "nicknamesOf demoNamed 1 = [''bee'']" "strangers demoNamed ids = []"
  "orderedPosts (Some ''a'') demoNamed = [newRow 1 5 ''a'' demoPost]"
  "hitPage demoNamed now owner p = None" "hitCount demoNamed now owner p = None"
  by (simp_all add: nicknamesOf_def strangers_def orderedPosts_def newRow_def hitPage_def hitCount_def
      cacheHit_def live_def liveEntry_def)

lemma readAnswer_total: "readAnswer db ids v res \<Longrightarrow> strangers db ids = [] \<Longrightarrow> res = Inr v"
  by (simp add: readAnswer_def split: sum.splits)



theorem uncached_listing_exact_witness:
  "\<exists>page. fst (listPosts sqlDb 9 (Some ''a'') 4 demoNamed) = Inr page \<and>
     map ptPostLikeNicknameList (pageData page) = [Some [''bee'']] \<and> metaCurrentPage (paginationMeta page) = 1"
proof -
  obtain res s' where r: "listPosts sqlDb 9 (Some ''a'') 4 demoNamed = (res, s')" by fastforce
  have "peId (newRow 1 5 ''a'' demoPost) = 1" by (simp add: newRow_def)
  with uncached_listing_exact [OF sql.orm_axioms demoNamed_ok(1,2) _ _ r] r show ?thesis
    by (simp add: Let_def pageOf_def TAKE_def getLastPage_def newPaginationMetaDto_def viewOf_def)
qed

theorem listed_page_is_frozen_witness:
  "\<exists>page. fst (listPosts sqlDb 20 (Some ''a'') 1 (snd (blogCalls sqlDb [RemoveLike ''b'' 1, DeletePost ''a'' 1]
       (snd (listPosts sqlDb 10 (Some ''a'') 1 demoNamed))))) = Inr page \<and>
     map ptPostId (pageData page) = [1]"
proof -
  let ?ops = "[RemoveLike ''b'' 1, DeletePost ''a'' 1]"
  obtain r1 s1 where a: "listPosts sqlDb 10 (Some ''a'') 1 demoNamed = (r1, s1)" by fastforce
  note l1 = sql.list_read [OF demoNamed_ok(1,2) _ a]
  have "rowsAt demoNamed 10 (Some ''a'') 1 = [newRow 1 5 ''a'' demoPost]" "countAt demoNamed 10 (Some ''a'') 1 = 1"
    by (simp_all add: rowsAt_def countAt_def pageOf_def TAKE_def)
  with l1 have b: "r1 = Inr \<lparr>pageData = [viewOf demoNamed (newRow 1 5 ''a'' demoPost)],
      paginationMeta = newPaginationMetaDto 1 1 1\<rparr>" "schemaOk s1" "infoFresh s1" "tablesOf s1 = tablesOf demoNamed"
    by (auto simp: pageAnswer_def Let_def getLastPage_def TAKE_def dest: readAnswer_total)
  obtain results s2 where c: "blogCalls sqlDb ?ops s1 = (results, s2)" by fastforce
  have "blogOf s1 = blogOf demoNamed" using b(4) by (intro blogOf_cong) (simp_all add: tablesOf_def)
  with blogCalls_on [OF sql.orm_axioms b(2) c] have
    "blogLikes (blogOf s2) = blogLikes (snd (blogSpecs (hasAuth s1) ?ops (blogOf demoNamed)))"
    by (metis snd_conv)
  also have "\<dots> = {}" by (simp add: likeOf_def owns_def newRow_def)
  finally have "postLikes s2 = []" by simp
  then have st: "strangers s2 ids = []" for ids by (simp add: strangers_def)
  obtain r3 s3 where d: "listPosts sqlDb 20 (Some ''a'') 1 s2 = (r3, s3)" by fastforce
  have "schemaOk s2 \<and> infoFresh s2" by (rule sql.blogCalls_fresh [OF b(2,3) c])
  with sql.list_read [OF _ _ _ d] st obtain page where e: "r3 = Inr page" by (auto dest: readAnswer_total)
  have "map (\<lambda>d. d\<lparr>ptPostLikeNicknameList := None\<rparr>) (pageData page) =
      map (\<lambda>d. d\<lparr>ptPostLikeNicknameList := None\<rparr>) [viewOf demoNamed (newRow 1 5 ''a'' demoPost)]"
    using listed_page_is_frozen [OF sql.orm_axioms demoNamed_ok(1,2) _ demoNamed_ok(4) _ _ _ a [unfolded b(1)] c _ d [unfolded e]]
    by (simp add: getLastPage_def TAKE_def time_defs)
  then have "map ptPostId (map (\<lambda>d. d\<lparr>ptPostLikeNicknameList := None\<rparr>) (pageData page)) = [1]"
    by (simp only:) (simp add: viewOf_def newRow_def)
  then have "map ptPostId (pageData page) = [1]" by (simp add: comp_def)
  with a c d e show ?thesis by (simp del: blogCalls.simps)
qed

end
