(* ===== verification/Crypto.thy ===== *)
theory Crypto
  imports Utils
begin

text \<open>
  Encrypted identifiers: \<open>utils/crypto.utils.ts\<close>, the pipe that decrypts path parameters
  (\<open>pipe/decrypt-primary-key.pipe.ts\<close>) and the interceptor that encrypts the annotated fields of
  responses (\<open>interceptor/encrypt-primary-key.interceptor.ts\<close>, \<open>decorator/encrypt-field.decorator.ts\<close>).
  AES is not part of the repository: it is a parameter with the laws of the locale \<open>aes_cipher\<close>.
  Strings hold characters up to code 255; texts with other characters are outside the model.
\<close>

section \<open>URI components\<close>

definition hexDigit :: "nat \<Rightarrow> char" where
  "hexDigit n = (if n < 10 then char_of (48 + n) else char_of (55 + n))"

definition hexValue :: "char \<Rightarrow> nat option" where
  "hexValue c =
     (let n = of_char c in
      if 48 \<le> n \<and> n \<le> 57 then Some (n - 48)
      else if 65 \<le> n \<and> n \<le> 70 then Some (n - 55)
      else if 97 \<le> n \<and> n \<le> 102 then Some (n - 87)
      else None)"

definition isUnreserved :: "char \<Rightarrow> bool" where
  "isUnreserved c \<longleftrightarrow>
     (let n = (of_char c :: nat) in
      48 \<le> n \<and> n \<le> 57 \<or> 65 \<le> n \<and> n \<le> 90 \<or> 97 \<le> n \<and> n \<le> 122 \<or>
      n \<in> {45, 95, 46, 33, 126, 42, 39, 40, 41})"

definition pctEncode :: "nat \<Rightarrow> string" where
  "pctEncode n = [CHR ''%'', hexDigit (n div 16), hexDigit (n mod 16)]"

text \<open>Characters from 128 on are two bytes in UTF-8.\<close>

definition encodeChar :: "char \<Rightarrow> string" where
  "encodeChar c =
     (let n = of_char c in
      if isUnreserved c then [c]
      else if n < 128 then pctEncode n
      else pctEncode (192 + n div 64) @ pctEncode (128 + n mod 64))"

definition encodeURIComponent :: "string \<Rightarrow> string" where
  "encodeURIComponent s = concat (map encodeChar s)"

text \<open>The two hexadecimal digits after a percent sign.\<close>

definition pctByte :: "string \<Rightarrow> (nat \<times> string) option" where
  "pctByte s =
     (case s of
        a # b # rest \<Rightarrow>
          (case (hexValue a, hexValue b) of
             (Some h, Some l) \<Rightarrow> Some (16 * h + l, rest)
           | _ \<Rightarrow> None)
      | _ \<Rightarrow> None)"

definition pctNext :: "string \<Rightarrow> (nat \<times> string) option" where
  "pctNext s = (case s of [] \<Rightarrow> None | c # cs \<Rightarrow> if c = CHR ''%'' then pctByte cs else None)"

lemma pctByte_length: "pctByte s = Some (n, rest) \<Longrightarrow> length rest < length s"
  by (auto simp: pctByte_def split: list.splits option.splits)

lemma pctNext_length: "pctNext s = Some (n, rest) \<Longrightarrow> length rest < length s"
  by (auto simp: pctNext_def dest: pctByte_length split: list.splits if_splits)

definition URIError :: exn where
  "URIError = OtherError ''URIError'' ''URI malformed''"

definition consOk :: "char \<Rightarrow> exn + string \<Rightarrow> exn + string" where
  "consOk c r = (case r of Inl e \<Rightarrow> Inl e | Inr s \<Rightarrow> Inr (c # s))"

function decodeURIComponent :: "string \<Rightarrow> exn + string" where
  "decodeURIComponent [] = Inr []"
| "decodeURIComponent (c # cs) =
     (if c \<noteq> CHR ''%'' then consOk c (decodeURIComponent cs)
      else (case pctByte cs of
        None \<Rightarrow> Inl URIError
      | Some (n, rest) \<Rightarrow>
          if n < 128 then consOk (char_of n) (decodeURIComponent rest)
          else if n = 194 \<or> n = 195 then
            (case pctNext rest of
               None \<Rightarrow> Inl URIError
             | Some (m, rest') \<Rightarrow>
                 if 128 \<le> m \<and> m < 192
                 then consOk (char_of ((n - 192) * 64 + (m - 128))) (decodeURIComponent rest')
                 else Inl URIError)
          else Inl URIError))"
  by pat_completeness auto

termination
  by (relation "measure length") (auto dest!: pctByte_length pctNext_length)

lemma hexValue_hexDigit [simp]: "n < 16 \<Longrightarrow> hexValue (hexDigit n) = Some n"
  by (simp add: hexValue_def hexDigit_def)

lemma pctByte_encode [simp]:
  "n < 256 \<Longrightarrow> pctByte (hexDigit (n div 16) # hexDigit (n mod 16) # t) = Some (n, t)"
  by (simp add: pctByte_def)

lemma pctNext_encode [simp]: "n < 256 \<Longrightarrow> pctNext (pctEncode n @ t) = Some (n, t)"
  by (simp add: pctNext_def pctEncode_def)

lemma decode_encodeChar:
  "decodeURIComponent (encodeChar c @ t) = consOk c (decodeURIComponent t)"
proof (cases "isUnreserved c")
  case True
  then have "c \<noteq> CHR ''%''" by (auto simp: isUnreserved_def)
  with True show ?thesis by (simp add: encodeChar_def)
next
  case False
  let ?n = "of_char c :: nat"
  show ?thesis
  proof (cases "?n < 128")
    case True
    with False show ?thesis by (simp add: encodeChar_def pctEncode_def Let_def)
  next
    case big: False
    have "?n < 256" by simp
    with big have q: "?n div 64 = 2 \<or> ?n div 64 = 3" by linarith
    have b: "192 + ?n div 64 < 256" "128 + ?n mod 64 < 256" using q by auto
    have v: "char_of (?n div 64 * 64 + ?n mod 64) = c" by simp
    have m: "pctNext (pctEncode (128 + ?n mod 64) @ t) = Some (128 + ?n mod 64, t)" using b(2) by simp
    have "encodeChar c @ t = CHR ''%'' # hexDigit ((192 + ?n div 64) div 16) #
        hexDigit ((192 + ?n div 64) mod 16) # pctEncode (128 + ?n mod 64) @ t"
      using False big by (simp add: encodeChar_def pctEncode_def Let_def)
    then show ?thesis using q pctByte_encode [OF b(1)] m v by (auto simp del: pctNext_encode)
  qed
qed

lemma decode_encode_append:
  "decodeURIComponent (encodeURIComponent s @ t) =
     (case decodeURIComponent t of Inl e \<Rightarrow> Inl e | Inr u \<Rightarrow> Inr (s @ u))"
  by (induction s) (auto simp: encodeURIComponent_def decode_encodeChar consOk_def split: sum.splits)

lemma decode_encode [simp]: "decodeURIComponent (encodeURIComponent s) = Inr s"
  using decode_encode_append [of s "[]"] by simp

lemma decode_plain: "CHR ''%'' \<notin> set s \<Longrightarrow> decodeURIComponent s = Inr s"
  by (induction s) (auto simp: consOk_def)

section \<open>Encryption of primary keys\<close>

text \<open>
  The cipher: \<open>aesEncrypt\<close> draws a salt (its number in the sequence of draws is the first argument)
  and returns Base64 text; \<open>aesDecrypt\<close> throws on text that does not decrypt to UTF-8.
\<close>

record aes =
  aesEncrypt :: "nat \<Rightarrow> string \<Rightarrow> string \<Rightarrow> string"
  aesDecrypt :: "string \<Rightarrow> string \<Rightarrow> exn + string"

definition encryptPrimaryKey :: "aes \<Rightarrow> string \<Rightarrow> string \<Rightarrow> (nat, exn, string) run" where
  "encryptPrimaryKey A val pkSecretKey draw =
     (Inr (encodeURIComponent (aesEncrypt A draw val pkSecretKey)), Suc draw)"

definition decryptPrimaryKey :: "aes \<Rightarrow> string \<Rightarrow> string \<Rightarrow> exn + string" where
  "decryptPrimaryKey A val pkSecretKey =
     (case decodeURIComponent val of
        Inl e \<Rightarrow> Inl e
      | Inr text \<Rightarrow> aesDecrypt A text pkSecretKey)"

text \<open>The pipe: an empty result is an error like any other, and every error becomes the same one.\<close>

definition decryptPrimaryKeyPipe :: "aes \<Rightarrow> string \<Rightarrow> string \<Rightarrow> exn + string" where
  "decryptPrimaryKeyPipe A pkSecretKey val =
     (case decryptPrimaryKey A val pkSecretKey of
        Inl e \<Rightarrow> Inl InvalidEncryptedParameterException
      | Inr decrypted \<Rightarrow>
          if decrypted = [] then Inl InvalidEncryptedParameterException else Inr decrypted)"

locale aes_cipher =
  fixes A :: aes
  assumes dec_enc: "aesDecrypt A (aesEncrypt A draw v k) k = Inr v"
    and base64_text: "CHR ''%'' \<notin> set (aesEncrypt A draw v k)"
begin

lemma decrypt_encrypt:
  "encryptPrimaryKey A v k draw = (Inr c, draw') \<Longrightarrow> decryptPrimaryKey A c k = Inr v"
  by (auto simp: encryptPrimaryKey_def decryptPrimaryKey_def dec_enc)

text \<open>A path parameter reaches the pipe after the router has decoded it once.\<close>

lemma decrypt_decoded:
  assumes "encryptPrimaryKey A v k draw = (Inr c, draw')" and "decodeURIComponent c = Inr c'"
  shows "decryptPrimaryKey A c' k = Inr v"
proof -
  have c: "c = encodeURIComponent (aesEncrypt A draw v k)" using assms(1) by (simp add: encryptPrimaryKey_def)
  then have "c' = aesEncrypt A draw v k" using assms(2) by simp
  then show ?thesis by (simp add: decryptPrimaryKey_def decode_plain [OF base64_text] dec_enc)
qed

lemma encrypt_separates:
  assumes "encryptPrimaryKey A v k draw = (Inr c, d1)" and "encryptPrimaryKey A v' k draw' = (Inr c, d2)"
  shows "v = v'"
  using decrypt_encrypt [OF assms(1)] decrypt_encrypt [OF assms(2)] by simp

end

text \<open>
  A stand-in cipher for the witnesses: the text carries key and value, with percent signs
  and the escape character itself escaped.
\<close>

definition escapeChar :: "char \<Rightarrow> string" where
  "escapeChar c = (if c = CHR ''%'' then ''~p'' else if c = CHR ''~'' then ''~t'' else [c])"

fun unescape :: "string \<Rightarrow> string" where
  "unescape [] = []"
| "unescape [c] = [c]"
| "unescape (c # d # cs) =
     (if c = CHR ''~'' then (if d = CHR ''p'' then CHR ''%'' else CHR ''~'') # unescape cs
      else c # unescape (d # cs))"

lemma unescape_plain: "c \<noteq> CHR ''~'' \<Longrightarrow> unescape (c # cs) = c # unescape cs"
  by (cases cs) simp_all

lemma unescape_escapeChar: "unescape (escapeChar c @ t) = c # unescape t"
  by (simp add: escapeChar_def unescape_plain)

lemma unescape_escape: "unescape (concat (map escapeChar s)) = s"
  by (induction s) (simp_all add: unescape_escapeChar)

definition toyAes :: aes where
  "toyAes =
     \<lparr>aesEncrypt = (\<lambda>draw v k. concat (map escapeChar (k @ v))),
      aesDecrypt = (\<lambda>c k. let t = unescape c in
        if take (length k) t = k then Inr (drop (length k) t)
        else Inl (OtherError ''Error'' ''Malformed UTF-8 data''))\<rparr>"

interpretation toyc: aes_cipher toyAes
proof unfold_locales
  show "aesDecrypt toyAes (aesEncrypt toyAes draw v k) k = Inr v" for draw v k
    using unescape_escape [of "k @ v"] by (simp add: toyAes_def)
  show "CHR ''%'' \<notin> set (aesEncrypt toyAes draw v k)" for draw v k
    by (auto simp: toyAes_def escapeChar_def)
qed

section \<open>Encryption of response fields\<close>

text \<open>
  JavaScript values, objects with the name of their class. A response is one of the objects of
  the controllers; the operations are total on all values nevertheless.
\<close>

datatype jsval =
    VUndefined
  | VNull
  | VBool bool
  | VNum int
  | VStr string
  | VArr "jsval list"
  | VObj string "(string \<times> jsval) list"

text \<open>The decorator appends the property to the metadata of the class.\<close>

definition EncryptField :: "string list \<Rightarrow> string \<Rightarrow> string list" where
  "EncryptField annotated propertyKey = annotated @ [propertyKey]"

text \<open>The metadata after loading: \<open>PostDto\<close> annotates two properties, no other class any.\<close>

definition encryptMetadata :: "string \<Rightarrow> string list" where
  "encryptMetadata cls =
     (if cls = ''PostDto'' then EncryptField (EncryptField [] ''postId'') ''postUid'' else [])"

fun truthy :: "jsval \<Rightarrow> bool" where
  "truthy VUndefined = False"
| "truthy VNull = False"
| "truthy (VBool b) = b"
| "truthy (VNum n) = (n \<noteq> 0)"
| "truthy (VStr s) = (s \<noteq> [])"
| "truthy (VArr xs) = True"
| "truthy (VObj c fs) = True"

fun constructorName :: "jsval \<Rightarrow> string" where
  "constructorName (VObj c fs) = c"
| "constructorName _ = ''''"

definition indexed :: "jsval list \<Rightarrow> (string \<times> jsval) list" where
  "indexed xs = zip (map showNat [0..<length xs]) xs"

text \<open>The own properties that the spread \<open>{ ...obj }\<close> copies.\<close>

fun spread :: "jsval \<Rightarrow> (string \<times> jsval) list" where
  "spread (VObj c fs) = fs"
| "spread (VArr xs) = indexed xs"
| "spread (VStr s) = indexed (map (\<lambda>c. VStr [c]) s)"
| "spread _ = []"

text \<open>\<open>String(value)\<close>, elements of arrays joined by commas, \<open>undefined\<close> and \<open>null\<close> in them empty.\<close>

fun stringOf :: "jsval \<Rightarrow> string" and elementString :: "jsval \<Rightarrow> string"
  and joinElements :: "jsval list \<Rightarrow> string" where
  "stringOf VUndefined = ''undefined''"
| "stringOf VNull = ''null''"
| "stringOf (VBool b) = (if b then ''true'' else ''false'')"
| "stringOf (VNum n) = showInt n"
| "stringOf (VStr s) = s"
| "stringOf (VArr xs) = joinElements xs"
| "stringOf (VObj c fs) = ''[object Object]''"
| "elementString VUndefined = ''''"
| "elementString VNull = ''''"
| "elementString v = stringOf v"
| "joinElements [] = ''''"
| "joinElements [v] = elementString v"
| "joinElements (v # w # vs) = elementString v @ '','' @ joinElements (w # vs)"

definition setField :: "string \<Rightarrow> jsval \<Rightarrow> (string \<times> jsval) list \<Rightarrow> (string \<times> jsval) list" where
  "setField k v fs = map (\<lambda>(k', v'). if k' = k then (k', v) else (k', v')) fs"

fun encryptFields ::
  "aes \<Rightarrow> string \<Rightarrow> string list \<Rightarrow> (string \<times> jsval) list \<Rightarrow> (nat, exn, (string \<times> jsval) list) run" where
  "encryptFields A key [] fs = returnR fs"
| "encryptFields A key (field # annotated) fs =
     (case map_of fs field of
        None \<Rightarrow> encryptFields A key annotated fs
      | Some v \<Rightarrow>
          if v = VUndefined \<or> v = VNull then encryptFields A key annotated fs
          else bindR (encryptPrimaryKey A (stringOf v) key) (\<lambda>c.
                 encryptFields A key annotated (setField field (VStr c) fs)))"

definition encryptObject :: "aes \<Rightarrow> string \<Rightarrow> jsval \<Rightarrow> (nat, exn, jsval) run" where
  "encryptObject A key obj =
     (if \<not> truthy obj then returnR obj
      else bindR (encryptFields A key (encryptMetadata (constructorName obj)) (spread obj))
             (\<lambda>fs. returnR (VObj ''Object'' fs)))"

fun isObject :: "jsval \<Rightarrow> bool" where
  "isObject (VArr xs) = True"
| "isObject (VObj c fs) = True"
| "isObject _ = False"

definition encryptItem :: "aes \<Rightarrow> string \<Rightarrow> jsval \<Rightarrow> (nat, exn, jsval) run" where
  "encryptItem A key item = (if isObject item then encryptObject A key item else returnR item)"

definition encryptProperty :: "aes \<Rightarrow> string \<Rightarrow> string \<times> jsval \<Rightarrow> (nat, exn, string \<times> jsval) run" where
  "encryptProperty A key p =
     (case snd p of
        VArr items \<Rightarrow> bindR (mapR (encryptItem A key) items) (\<lambda>items'. returnR (fst p, VArr items'))
      | _ \<Rightarrow> returnR p)"

definition encryptResponse :: "aes \<Rightarrow> string \<Rightarrow> jsval \<Rightarrow> (nat, exn, jsval) run" where
  "encryptResponse A key data =
     (if \<not> truthy data then returnR data
      else bindR (encryptObject A key data) (\<lambda>result.
             bindR (mapR (encryptProperty A key) (spread result)) (\<lambda>fs.
               returnR (VObj ''Object'' fs))))"

definition encryptPrimaryKeyInterceptor ::
  "aes \<Rightarrow> string \<Rightarrow> (nat, exn, jsval) run \<Rightarrow> (nat, exn, jsval) run" where
  "encryptPrimaryKeyInterceptor A key handler =
     bindR handler (\<lambda>data. encryptResponse A key data)"

section \<open>What the encryption keeps\<close>

text \<open>
  The relation between an object's properties before and after: annotated values that are present
  are replaced by their encryptions, all others are unchanged.
\<close>

definition fieldCovered :: "aes \<Rightarrow> string \<Rightarrow> string list \<Rightarrow> string \<times> jsval \<Rightarrow> string \<times> jsval \<Rightarrow> bool" where
  "fieldCovered A key annotated p q \<longleftrightarrow>
     fst q = fst p \<and>
     (if fst p \<in> set annotated \<and> snd p \<noteq> VUndefined \<and> snd p \<noteq> VNull
      then \<exists>c draw. snd q = VStr c \<and> fst (encryptPrimaryKey A (stringOf (snd p)) key draw) = Inr c
      else snd q = snd p)"

lemma setField_keys [simp]: "map fst (setField k v fs) = map fst fs"
  by (simp add: setField_def case_prod_beta comp_def if_distrib cong: if_cong)

context aes_cipher
begin

lemma encryptFields_covered:
  assumes "encryptFields A key annotated fs draw = (Inr gs, draw')"
    and "distinct (map fst fs)" and "distinct annotated"
  shows "list_all2 (fieldCovered A key annotated) fs gs"
  using assms
proof (induction annotated arbitrary: fs draw)
  case Nil
  then show ?case by (auto simp: fieldCovered_def list_all2_same)
next
  case (Cons f annotated)
  show ?case
  proof (cases "map_of fs f")
    case None
    then have "f \<notin> fst ` set fs" by (simp add: map_of_eq_None_iff)
    moreover have "list_all2 (fieldCovered A key annotated) fs gs"
      using Cons.IH [of fs draw] Cons.prems None by simp
    ultimately show ?thesis
      by (auto elim!: list.rel_mono_strong simp: fieldCovered_def)
  next
    case (Some v)
    have only: "b = v" if "(f, b) \<in> set fs" for b
      using that Some Cons.prems(2) by (metis map_of_eq_Some_iff option.inject)
    show ?thesis
    proof (cases "v = VUndefined \<or> v = VNull")
      case True
      then have "list_all2 (fieldCovered A key annotated) fs gs"
        using Cons.IH [of fs draw] Cons.prems Some by simp
      then show ?thesis
        by (rule list.rel_mono_strong)
          (use True in \<open>auto simp: fieldCovered_def dest: only\<close>)
    next
      case False
      obtain c d where e: "encryptPrimaryKey A (stringOf v) key draw = (Inr c, d)"
        by (simp add: encryptPrimaryKey_def)
      let ?fs = "setField f (VStr c) fs"
      have r: "list_all2 (fieldCovered A key annotated) ?fs gs"
        using Cons.IH [of ?fs d] Cons.prems Some False e by (simp add: bindR_Inr)
      show ?thesis
      proof (rule list_all2_all_nthI)
        show "length fs = length gs" using list_all2_lengthD [OF r] by (simp add: setField_def)
        fix i assume i: "i < length fs"
        have j: "fieldCovered A key annotated (?fs ! i) (gs ! i)"
          using list_all2_nthD [OF r, of i] i by (simp add: setField_def)
        have "fs ! i = (f, v)" if "fst (fs ! i) = f"
          using only that nth_mem [OF i] by (metis prod.collapse)
        moreover have "\<exists>draw. fst (encryptPrimaryKey A (stringOf v) key draw) = Inr c"
          using e by (intro exI [of _ draw]) simp
        ultimately show "fieldCovered A key (f # annotated) (fs ! i) (gs ! i)"
          using j i False Cons.prems(3)
          by (cases "fst (fs ! i) = f") (auto simp: fieldCovered_def setField_def case_prod_beta)
      qed
    qed
  qed
qed

end

section \<open>Properties\<close>

text \<open>Encrypted identifiers round-trip. For a cipher that decrypts what it encrypted, the text the
  server hands out for a non-empty identifier is turned back into that identifier by the pipe,
  whether the client sends it back as it is or the router has already undone its URI encoding.\<close>

lemma path_parameter_roundtrip:
  assumes "aes_cipher A" and "v \<noteq> []" and "encryptPrimaryKey A v key draw = (Inr c, draw')"
  shows "decryptPrimaryKeyPipe A key c = Inr v \<and>
    (\<exists>c'. decodeURIComponent c = Inr c' \<and> decryptPrimaryKeyPipe A key c' = Inr v)"
proof -
  obtain c' where c': "decodeURIComponent c = Inr c'"
    using assms(3) by (auto simp: encryptPrimaryKey_def)
  with aes_cipher.decrypt_encrypt [OF assms(1,3)] aes_cipher.decrypt_decoded [OF assms(1,3)] assms(2)
  show ?thesis by (simp add: decryptPrimaryKeyPipe_def)
qed

text \<open>The pipe fails in one way only: on a parameter that does not URI-decode, does not decrypt or
  decrypts to nothing it throws the invalid-parameter exception, which the client sees with code
  91001 and HTTP status 200; otherwise it returns the non-empty decrypted text.\<close>

lemma decrypt_pipe_outcomes:
  "case decryptPrimaryKeyPipe A key val of
     Inl e \<Rightarrow> (\<forall>v. decryptPrimaryKey A val key = Inr v \<longrightarrow> v = []) \<and>
       httpStatus (handleException e) = 200 \<and> respCode (replyBody (handleException e)) = 91001
   | Inr v \<Rightarrow> v \<noteq> [] \<and> decryptPrimaryKey A val key = Inr v"
  by (auto simp: decryptPrimaryKeyPipe_def exn_defs mkBase_def filter_defs split: sum.splits)

lemma encryptMetadata_simps [simp]:
  "encryptMetadata ''PostDto'' = [''postId'', ''postUid'']"
  "encryptMetadata ''PaginationDto'' = []"
  by (simp_all add: encryptMetadata_def EncryptField_def)

lemma encryptObject_post:
  assumes "aes_cipher A" and "encryptObject A key (VObj ''PostDto'' fs) draw = (Inr w, draw')"
    and "distinct (map fst fs)"
  obtains gs where "w = VObj ''Object'' gs"
    and "list_all2 (fieldCovered A key [''postId'', ''postUid'']) fs gs"
  using assms(2) aes_cipher.encryptFields_covered [OF assms(1) _ assms(3), of key "[''postId'', ''postUid'']"]
  by (auto simp: encryptObject_def elim!: bindR_InrE)

text \<open>Array properties that hold no objects, such as the list of nicknames, are left alone.\<close>

fun noObjects :: "jsval \<Rightarrow> bool" where
  "noObjects (VArr xs) = list_all (\<lambda>x. \<not> isObject x) xs"
| "noObjects _ = True"

lemma encryptProperty_noObjects: "noObjects (snd p) \<Longrightarrow> encryptProperty A key p s = (Inr p, s)"
proof (cases "snd p")
  case (VArr xs)
  moreover assume "noObjects (snd p)"
  ultimately have "mapR (encryptItem A key) xs s = (Inr xs, s)" for s
    by (intro mapR_returns) (simp add: encryptItem_def list_all_iff)
  with VArr show ?thesis by (cases p) (simp add: encryptProperty_def bindR_Inr)
qed (simp_all add: encryptProperty_def)

lemma fieldCovered_noObjects: "fieldCovered A key ks p q \<Longrightarrow> noObjects (snd p) \<Longrightarrow> noObjects (snd q)"
  by (auto simp: fieldCovered_def split: if_splits)

text \<open>A single post in a response hides its identifiers and nothing else: the interceptor's result
  has the same properties in the same order; post id and author id are texts that decrypt to
  the originals, every other property (title, date, contents, hits, nicknames) is unchanged.\<close>

lemma post_response_encrypted:
  assumes "aes_cipher A" and "distinct (map fst fs)" and "\<forall>p \<in> set fs. noObjects (snd p)"
    and "encryptPrimaryKeyInterceptor A key (returnR (VObj ''PostDto'' fs)) draw = (Inr w, draw')"
  shows "\<exists>gs. w = VObj ''Object'' gs \<and> list_all2 (fieldCovered A key [''postId'', ''postUid'']) fs gs"
proof -
  have "bindR (encryptObject A key (VObj ''PostDto'' fs)) (\<lambda>result.
      bindR (mapR (encryptProperty A key) (spread result)) (\<lambda>fs. returnR (VObj ''Object'' fs))) draw
      = (Inr w, draw')"
    using assms(4) by (simp add: encryptPrimaryKeyInterceptor_def encryptResponse_def)
  then obtain result d where o: "encryptObject A key (VObj ''PostDto'' fs) draw = (Inr result, d)"
    and m: "bindR (mapR (encryptProperty A key) (spread result)) (\<lambda>fs. returnR (VObj ''Object'' fs)) d
      = (Inr w, draw')" by (rule bindR_InrE)
  from encryptObject_post [OF assms(1) o assms(2)] obtain gs where
    gs: "result = VObj ''Object'' gs" "list_all2 (fieldCovered A key [''postId'', ''postUid'']) fs gs" .
  have "mapR (encryptProperty A key) gs d = (Inr gs, d)"
  proof (rule mapR_returns)
    fix q s assume "q \<in> set gs"
    with gs(2) obtain p where "p \<in> set fs" "fieldCovered A key [''postId'', ''postUid''] p q"
      by (metis in_set_conv_nth list_all2_conv_all_nth)
    with assms(3) fieldCovered_noObjects encryptProperty_noObjects
    show "encryptProperty A key q s = (Inr q, s)" by metis
  qed
  with m gs have "w = VObj ''Object'' gs" by (simp add: bindR_Inr)
  with gs show ?thesis by blast
qed

fun isArray :: "jsval \<Rightarrow> bool" where
  "isArray (VArr xs) = True"
| "isArray _ = False"

text \<open>A page of posts hides the identifiers of every post in it and nothing else: the data array
  keeps its length and order, each post in it is treated as a single one, and the pagination
  metadata is unchanged.\<close>

lemma page_response_encrypted:
  assumes "aes_cipher A" and "\<forall>fs \<in> set posts. distinct (map fst fs)" and "\<not> isArray meta"
    and "encryptPrimaryKeyInterceptor A key (returnR (VObj ''PaginationDto''
      [(''data'', VArr (map (VObj ''PostDto'') posts)), (''paginationMeta'', meta)])) draw = (Inr w, draw')"
  shows "\<exists>out. w = VObj ''Object'' [(''data'', VArr (map (VObj ''Object'') out)), (''paginationMeta'', meta)] \<and>
    list_all2 (list_all2 (fieldCovered A key [''postId'', ''postUid''])) posts out"
proof -
  let ?cov = "list_all2 (fieldCovered A key [''postId'', ''postUid''])"
  let ?P = "\<lambda>x y. \<forall>fs. x = VObj ''PostDto'' fs \<longrightarrow> distinct (map fst fs) \<longrightarrow>
    (\<exists>gs. y = VObj ''Object'' gs \<and> ?cov fs gs)"
  let ?items = "map (VObj ''PostDto'') posts"
  have o: "encryptObject A key (VObj ''PaginationDto'' fs) = returnR (VObj ''Object'' fs)" for fs
    by (rule ext) (simp add: encryptObject_def)
  have m: "encryptProperty A key (''paginationMeta'', meta) = returnR (''paginationMeta'', meta)"
    using assms(3) by (cases meta) (simp_all add: encryptProperty_def)
  have "bindR (mapR (encryptItem A key) ?items) (\<lambda>items. returnR
      (VObj ''Object'' [(''data'', VArr items), (''paginationMeta'', meta)])) draw = (Inr w, draw')"
    using assms(4) by (simp add: encryptPrimaryKeyInterceptor_def encryptResponse_def o m
        encryptProperty_def [of A key "(''data'', VArr ?items)"] bindR_assoc del: returnR_apply)
  then obtain items d where it: "mapR (encryptItem A key) ?items draw = (Inr items, d)"
    and w: "w = VObj ''Object'' [(''data'', VArr items), (''paginationMeta'', meta)]"
    by (rule bindR_InrE) simp
  from it have "list_all2 ?P ?items items"
    by (rule mapR_list_all2) (auto simp: encryptItem_def elim!: encryptObject_post [OF assms(1)])
  then have l: "length posts = length items" and
    n: "\<And>i. i < length posts \<Longrightarrow> \<exists>gs. items ! i = VObj ''Object'' gs \<and> ?cov (posts ! i) gs"
    using assms(2) by (auto simp: list_all2_conv_all_nth)
  define out where "out = map spread items"
  have "items = map (VObj ''Object'') out" using l n by (fastforce intro: nth_equalityI simp: out_def)
  moreover have "list_all2 ?cov posts out"
    using l n by (fastforce intro: list_all2_all_nthI simp: out_def)
  ultimately have "\<exists>out. items = map (VObj ''Object'') out \<and> list_all2 ?cov posts out" by blast
  with w show ?thesis by blast
qed

end
