(* ===== verification/UserAuth.thy ===== *)
theory UserAuth
  imports Orm Crypto
begin

text \<open>
  Accounts and sessions: DAO and repository of accounts (\<open>user/dao/user-auth.dao.ts\<close>,
  \<open>user/repository/user-auth.repository.ts\<close>), token service (\<open>user/service/jwt.service.ts\<close>) and
  account service (\<open>user/service/user-auth.service.ts\<close>), over any database of the locale \<open>orm\<close>.
  The libraries for tokens, hashing and Google sign-in are parameters; \<open>token_lib\<close> states what the
  code relies on. A request has one instant \<open>now\<close>, and \<open>draw\<close> numbers the random salts.
\<close>

section \<open>Data\<close>

record UserAuthInterface =
  iaUid :: string
  iaPassword :: string
  iaSalt :: string
  iaSocialYN :: string
  iaRefreshToken :: string
  iaUserRole :: UserRole

definition toUserAuthEntity :: "UserAuthInterface \<Rightarrow> UserAuthEntity" where
  "toUserAuthEntity i =
     \<lparr>uaUid = iaUid i, uaPassword = iaPassword i, uaSalt = iaSalt i, uaSocialYN = iaSocialYN i,
      uaRefreshToken = iaRefreshToken i, uaUserRole = iaUserRole i\<rparr>"

text \<open>The DAO is the interface's six properties under the same names.\<close>

definition userAuthDaoFrom :: "UserAuthInterface \<Rightarrow> UserAuthInterface" where
  "userAuthDaoFrom i = \<lparr>iaUid = iaUid i, iaPassword = iaPassword i, iaSalt = iaSalt i,
     iaSocialYN = iaSocialYN i, iaRefreshToken = iaRefreshToken i, iaUserRole = iaUserRole i\<rparr>"

record JwtDto =
  accessToken :: string
  refreshToken :: string

record UserAuthRequestDto =
  reqUid :: string
  reqPassword :: string

record OauthRequestDto =
  credentialToken :: string

record authConfig =
  pkSecretKey :: string
  jwtSecretKey :: string
  jwtIssuer :: string
  accessTokenExpireTime :: string
  refreshTokenExpireTime :: string
  googleClientId :: string

text \<open>
  The libraries: \<open>jwtSign\<close> and \<open>jwtVerify\<close> (the result is the claim \<open>uid\<close> of the payload, if any;
  the token may be \<open>undefined\<close>), SHA-256 in hexadecimal, and the verification of a Google token
  (the payload's email, if there is a payload and an email).
\<close>

record libs =
  aesLib :: aes
  jwtSign :: "nat \<Rightarrow> string \<Rightarrow> string \<Rightarrow> string \<Rightarrow> string \<Rightarrow> string"
  jwtVerify :: "nat \<Rightarrow> string option \<Rightarrow> string \<Rightarrow> exn + string option"
  sha256Hex :: "string \<Rightarrow> string"
  verifyIdToken :: "nat \<Rightarrow> string \<Rightarrow> string \<Rightarrow> exn + string option"

section \<open>Repository\<close>

definition saveUserAuthEntity :: "('d, 'z) ormOps_scheme \<Rightarrow> UserAuthEntity \<Rightarrow> ('d, exn, unit) run" where
  "saveUserAuthEntity D e = insertUserAuth D e"

definition getUserAuthEntity :: "('d, 'z) ormOps_scheme \<Rightarrow> string \<Rightarrow> ('d, exn, UserAuthEntity) run" where
  "getUserAuthEntity D uid =
     catchR (findUserAuth D uid)
       (\<lambda>error. bindR (removeCached D [getUserAuthEntityCacheId uid]) (\<lambda>_.
          if error = EntityNotFoundError then throwR (UserNotFoundException uid) else throwR error))"

definition userAuthIsExist :: "('d, 'z) ormOps_scheme \<Rightarrow> string \<Rightarrow> ('d, exn, bool) run" where
  "userAuthIsExist D uid = existUserAuth D uid"

definition getUserSessionEntityByUid ::
  "('d, 'z) ormOps_scheme \<Rightarrow> nat \<Rightarrow> string \<Rightarrow> ('d, exn, UserSessionEntity) run" where
  "getUserSessionEntityByUid D now uid =
     catchR (findSession D now uid (getUserSessionEntityCacheId uid) (getTicTimeHMS 6 0 0))
       (\<lambda>error. bindR (removeCached D [getUserSessionEntityCacheId uid]) (\<lambda>_.
          if error = EntityNotFoundError then throwR (UserNotFoundException uid) else throwR error))"

definition updateUserAuthByUserSessionEntity ::
  "('d, 'z) ormOps_scheme \<Rightarrow> UserSessionEntity \<Rightarrow> ('d, exn, unit) run" where
  "updateUserAuthByUserSessionEntity D ses =
     bindR (removeCached D [getUserSessionEntityCacheId (seUid ses)]) (\<lambda>_. updateUserAuth D ses)"

section \<open>Tokens\<close>

datatype tokenType = ACCESS_TOKEN | REFRESH_TOKEN

definition generateToken ::
  "libs \<Rightarrow> authConfig \<Rightarrow> nat \<Rightarrow> string \<Rightarrow> tokenType \<Rightarrow> (nat, exn, string) run" where
  "generateToken L cfg now uid tokenType =
     bindR (encryptPrimaryKey (aesLib L) uid (pkSecretKey cfg)) (\<lambda>euid.
       returnR (jwtSign L now euid (jwtSecretKey cfg) (jwtIssuer cfg)
         (if tokenType = ACCESS_TOKEN then accessTokenExpireTime cfg else refreshTokenExpireTime cfg)))"

definition decodeToken :: "libs \<Rightarrow> authConfig \<Rightarrow> nat \<Rightarrow> string option \<Rightarrow> exn + string option" where
  "decodeToken L cfg now token = jwtVerify L now token (jwtSecretKey cfg)"

text \<open>A payload without the claim gives \<open>undefined\<close>, which URI decoding reads as that word.\<close>

definition tokenUid :: "libs \<Rightarrow> authConfig \<Rightarrow> nat \<Rightarrow> string option \<Rightarrow> exn + string" where
  "tokenUid L cfg now token =
     (case decodeToken L cfg now token of
        Inl e \<Rightarrow> Inl e
      | Inr claim \<Rightarrow>
          decryptPrimaryKey (aesLib L) (case claim of None \<Rightarrow> ''undefined'' | Some c \<Rightarrow> c) (pkSecretKey cfg))"

definition jwtCreate ::
  "('d, 'z) ormOps_scheme \<Rightarrow> libs \<Rightarrow> authConfig \<Rightarrow> nat \<Rightarrow> nat \<Rightarrow> string \<Rightarrow> UserRole \<Rightarrow>
   ('d, exn, JwtDto) run" where
  "jwtCreate D L cfg now draw uid role =
     bindR (liftR (fst (bindR (generateToken L cfg now uid ACCESS_TOKEN) (\<lambda>a.
              bindR (generateToken L cfg now uid REFRESH_TOKEN) (\<lambda>r. returnR (a, r))) draw)))
       (\<lambda>(a, r).
          bindR (updateUserAuthByUserSessionEntity D
                   \<lparr>seUid = uid, seRefreshToken = r, seUserRole = role\<rparr>)
            (\<lambda>_. returnR \<lparr>accessToken = a, refreshToken = r\<rparr>))"

text \<open>The two verifications catch every error and return it as a value.\<close>

definition verifyAccessToken ::
  "('d, 'z) ormOps_scheme \<Rightarrow> libs \<Rightarrow> authConfig \<Rightarrow> nat \<Rightarrow> string option \<Rightarrow> ('d, exn, exn option) run" where
  "verifyAccessToken D L cfg now token =
     catchR (bindR (liftR (tokenUid L cfg now token)) (\<lambda>uid.
               bindR (getUserSessionEntityByUid D now uid) (\<lambda>_. returnR None)))
       (\<lambda>e. returnR (Some e))"

definition verifyRefreshToken ::
  "('d, 'z) ormOps_scheme \<Rightarrow> libs \<Rightarrow> authConfig \<Rightarrow> nat \<Rightarrow> string option \<Rightarrow>
   ('d, exn, exn + UserSessionEntity) run" where
  "verifyRefreshToken D L cfg now token =
     catchR (bindR (liftR (tokenUid L cfg now token)) (\<lambda>uid.
               bindR (getUserSessionEntityByUid D now uid) (\<lambda>ses.
                 if token \<noteq> Some (seRefreshToken ses)
                 then returnR (Inl (AuthInvalidRefreshTokenException (Some ''Refresh Token does not match!'')))
                 else returnR (Inr ses))))
       (\<lambda>e. returnR (Inl e))"

definition reissueJwtByUserSessionEntity ::
  "('d, 'z) ormOps_scheme \<Rightarrow> libs \<Rightarrow> authConfig \<Rightarrow> nat \<Rightarrow> nat \<Rightarrow> UserSessionEntity \<Rightarrow>
   ('d, exn, JwtDto) run" where
  "reissueJwtByUserSessionEntity D L cfg now draw ses =
     jwtCreate D L cfg now draw (seUid ses) (seUserRole ses)"

section \<open>Account service\<close>

text \<open>The loop of three rounds.\<close>

fun stretch :: "libs \<Rightarrow> nat \<Rightarrow> string \<Rightarrow> string \<Rightarrow> string" where
  "stretch L 0 salt password = password"
| "stretch L (Suc i) salt password = stretch L i salt (sha256Hex L (password @ salt))"

definition hashingPassword :: "libs \<Rightarrow> string \<Rightarrow> string \<Rightarrow> string" where
  "hashingPassword L password salt = stretch L 3 salt password"

definition createNewUser ::
  "('d, 'z) ormOps_scheme \<Rightarrow> libs \<Rightarrow> authConfig \<Rightarrow> nat \<Rightarrow> nat \<Rightarrow> UserAuthRequestDto \<Rightarrow>
   ('d, exn, JwtDto) run" where
  "createNewUser D L cfg now draw dto =
     bindR (userAuthIsExist D (reqUid dto)) (\<lambda>isExist.
       if isExist then throwR (UserAlreadyExistsException (reqUid dto))
       else
         (let salt = showNat now in
          bindR (saveUserAuthEntity D (toUserAuthEntity (userAuthDaoFrom
                   \<lparr>iaUid = reqUid dto, iaPassword = hashingPassword L (reqPassword dto) salt,
                    iaSalt = salt, iaSocialYN = ''N'', iaRefreshToken = '''', iaUserRole = USER\<rparr>)))
            (\<lambda>_. jwtCreate D L cfg now draw (reqUid dto) USER)))"

definition login ::
  "('d, 'z) ormOps_scheme \<Rightarrow> libs \<Rightarrow> authConfig \<Rightarrow> nat \<Rightarrow> nat \<Rightarrow> UserAuthRequestDto \<Rightarrow>
   ('d, exn, JwtDto) run" where
  "login D L cfg now draw dto =
     bindR (getUserAuthEntity D (reqUid dto)) (\<lambda>e.
       if hashingPassword L (reqPassword dto) (uaSalt e) \<noteq> uaPassword e
       then throwR AuthInvalidPasswordException
       else jwtCreate D L cfg now draw (uaUid e) (uaUserRole e))"

definition decodeCredentialToken :: "libs \<Rightarrow> authConfig \<Rightarrow> nat \<Rightarrow> string \<Rightarrow> exn + string option" where
  "decodeCredentialToken L cfg now token =
     (case verifyIdToken L now token (googleClientId cfg) of
        Inl e \<Rightarrow> Inl (AuthInvalidOauthTokenException (Some ''This token is not allowed.''))
      | Inr ticket \<Rightarrow> Inr ticket)"

definition googleOauthLogin ::
  "('d, 'z) ormOps_scheme \<Rightarrow> libs \<Rightarrow> authConfig \<Rightarrow> nat \<Rightarrow> nat \<Rightarrow> OauthRequestDto \<Rightarrow>
   ('d, exn, JwtDto) run" where
  "googleOauthLogin D L cfg now draw dto =
     bindR (liftR (decodeCredentialToken L cfg now (credentialToken dto))) (\<lambda>email.
       if email = None \<or> email = Some ''''
       then throwR (AuthInvalidOauthTokenException (Some ''Invalid Google token payload.''))
       else
         (let uid = the email in
          bindR (userAuthIsExist D uid) (\<lambda>isExist.
          bindR (if \<not> isExist
                 then saveUserAuthEntity D (toUserAuthEntity (userAuthDaoFrom
                        \<lparr>iaUid = uid, iaPassword = ''-'', iaSalt = ''-'', iaSocialYN = ''Y'',
                         iaRefreshToken = '''', iaUserRole = USER\<rparr>))
                 else returnR ()) (\<lambda>_.
          bindR (getUserAuthEntity D uid) (\<lambda>e.
            jwtCreate D L cfg now draw (uaUid e) (uaUserRole e))))))"

definition refresh ::
  "('d, 'z) ormOps_scheme \<Rightarrow> libs \<Rightarrow> authConfig \<Rightarrow> nat \<Rightarrow> nat \<Rightarrow> string option \<Rightarrow>
   ('d, exn, JwtDto) run" where
  "refresh D L cfg now draw token =
     (if token = None \<or> token = Some '''' then throwR AuthRefreshTokenRequiredException
      else bindR (verifyRefreshToken D L cfg now token) (\<lambda>res.
        (case res of
           Inl e \<Rightarrow> throwR (AuthInvalidRefreshTokenException None)
         | Inr ses \<Rightarrow> reissueJwtByUserSessionEntity D L cfg now draw ses)))"

lemmas userAuthRepo_defs = saveUserAuthEntity_def getUserAuthEntity_def userAuthIsExist_def
  getUserSessionEntityByUid_def updateUserAuthByUserSessionEntity_def

lemmas userAuth_defs = userAuthRepo_defs jwtCreate_def verifyAccessToken_def verifyRefreshToken_def
  reissueJwtByUserSessionEntity_def createNewUser_def login_def googleOauthLogin_def refresh_def

context orm
begin

lemma sim_userAuth [sim_intros]:
  "sim abst (jwtCreate D L cfg now draw uid role) (jwtCreate sqlDb L cfg now draw uid role)"
  "sim abst (verifyAccessToken D L cfg now token) (verifyAccessToken sqlDb L cfg now token)"
  "sim abst (verifyRefreshToken D L cfg now token) (verifyRefreshToken sqlDb L cfg now token)"
  "sim abst (createNewUser D L cfg now draw dto) (createNewUser sqlDb L cfg now draw dto)"
  "sim abst (login D L cfg now draw dto) (login sqlDb L cfg now draw dto)"
  "sim abst (googleOauthLogin D L cfg now draw odto) (googleOauthLogin sqlDb L cfg now draw odto)"
  "sim abst (refresh D L cfg now draw token) (refresh sqlDb L cfg now draw token)"
  unfolding userAuth_defs sqlDb_sel by (auto intro!: sim_intros simp: Let_def)

end

section \<open>Sessions on the reference database\<close>

definition sessionOfUid :: "dbState \<Rightarrow> string \<Rightarrow> UserSessionEntity option" where
  "sessionOfUid db uid = map_option sessionOf (List.find (\<lambda>r. uaUid r = uid) (userAuths db))"

definition sessionFresh :: "dbState \<Rightarrow> bool" where
  "sessionFresh db \<longleftrightarrow>
     (\<forall>uid c d. cacheOn db \<longrightarrow> queryCache db (getUserSessionEntityCacheId uid) = Some (c, d) \<longrightarrow>
        (\<exists>r. c = CachedSessions [sessionOf r] \<and> filter (\<lambda>r. uaUid r = uid) (userAuths db) = [r]))"

lemma sessionId_inject [simp]: "getUserSessionEntityCacheId u = getUserSessionEntityCacheId v \<longleftrightarrow> u = v"
  by (simp add: getUserSessionEntityCacheId_def)

lemma session_rows:
  "sessionOfUid db uid =
     (case map sessionOf (filter (\<lambda>r. uaUid r = uid) (userAuths db)) of [] \<Rightarrow> None | s # _ \<Rightarrow> Some s)"
  by (auto simp: sessionOfUid_def find_filter split: list.split)

text \<open>What the sessions need of a state, kept by every operation on accounts.\<close>

definition authGood :: "dbState \<Rightarrow> bool" where
  "authGood db \<longleftrightarrow> schemaOk db \<and> sessionFresh db \<and> list_all fitsUserAuth (userAuths db)"

text \<open>The stored password hash and salt.\<close>

definition credOf :: "dbState \<Rightarrow> string \<Rightarrow> (string \<times> string) option" where
  "credOf db uid =
     map_option (\<lambda>r. (uaPassword r, uaSalt r)) (List.find (\<lambda>r. uaUid r = uid) (userAuths db))"

lemma session_read:
  assumes ok: "authGood db" and run: "getUserSessionEntityByUid sqlDb now uid db = (res, db')"
  shows "authGood db' \<and> userAuths db' = userAuths db \<and>
    res = (case sessionOfUid db uid of None \<Rightarrow> Inl (UserNotFoundException uid) | Some s \<Rightarrow> Inr s)"
proof -
  let ?id = "getUserSessionEntityCacheId uid"
  let ?q = "\<lambda>db. map sessionOf (filter (\<lambda>r. uaUid r = uid) (userAuths db))"
  have f: "c = CachedSessions (?q db)" if "cacheOn db" "queryCache db ?id = Some (c, d)" for c d
    using ok that unfolding authGood_def sessionFresh_def by fastforce
  obtain Q where q:
    "getUserSessionEntityByUid sqlDb now uid db =
       (case ?q db of [] \<Rightarrow> Inl (UserNotFoundException uid) | s # _ \<Rightarrow> Inr s, db\<lparr>queryCache := Q\<rparr>)"
    "\<And>k. k \<noteq> ?id \<Longrightarrow> Q k = queryCache db k"
    "\<And>c d. cacheOn db \<Longrightarrow> Q ?id = Some (c, d) \<Longrightarrow> c = CachedSessions (?q db) \<and> ?q db \<noteq> []"
    unfolding getUserSessionEntityByUid_def sqlDb_sel sqlFindSession_def
    by (rule cachedFind [of db ?id CachedSessions ?q unSessions]) (auto dest: f)
  have one: "filter (\<lambda>r. uaUid r = uid) (userAuths db) = [] \<or>
      (\<exists>r. filter (\<lambda>r. uaUid r = uid) (userAuths db) = [r])"
    using filter_key_cases [of uaUid "userAuths db" uid] ok by (auto simp: authGood_def schemaOk_def)
  have "sessionFresh (db\<lparr>queryCache := Q\<rparr>)"
    unfolding sessionFresh_def
  proof (intro allI impI)
    fix u c d assume "cacheOn (db\<lparr>queryCache := Q\<rparr>)"
      "queryCache (db\<lparr>queryCache := Q\<rparr>) (getUserSessionEntityCacheId u) = Some (c, d)"
    with ok q(2,3) one show "\<exists>r. c = CachedSessions [sessionOf r] \<and>
        filter (\<lambda>r. uaUid r = u) (userAuths (db\<lparr>queryCache := Q\<rparr>)) = [r]"
      by (cases "u = uid") (auto simp: sessionFresh_def authGood_def)
  qed
  with q(1) run ok show ?thesis by (auto simp: authGood_def session_rows split: list.split)
qed

text \<open>Storing a session: the cached entry goes, the row changes, others stay.\<close>

lemma session_write:
  assumes ok: "authGood db" and run: "updateUserAuthByUserSessionEntity sqlDb ses db = (res, db')"
  shows "authGood db' \<and>
    (res = Inr () \<and> sessionOfUid db' = (sessionOfUid db)(seUid ses :=
        if hasAuth db (seUid ses) then Some ses else None) \<and>
        credOf db' = credOf db \<and> map uaUid (userAuths db') = map uaUid (userAuths db) \<or>
     res = Inl tooLong \<and> userAuths db' = userAuths db \<and> 500 < length (seRefreshToken ses))"
proof -
  let ?id = "getUserSessionEntityCacheId (seUid ses)"
  let ?g = "\<lambda>r. if uaUid r = seUid ses then setSession ses r else r"
  define db1 where "db1 = (if cacheOn db then db\<lparr>queryCache := queryCache db |` (- {?id})\<rparr> else db)"
  have db1: "userAuths db1 = userAuths db" "cacheOn db1 = cacheOn db"
    "\<And>k. k \<noteq> ?id \<Longrightarrow> queryCache db1 k = queryCache db k" "cacheOn db \<Longrightarrow> queryCache db1 ?id = None"
    by (simp_all add: db1_def)
  have u: "uaUid (?g r) = uaUid r" for r by simp
  have o: "filter (\<lambda>r. uaUid r = v) (map ?g xs) = filter (\<lambda>r. uaUid r = v) xs" if "v \<noteq> seUid ses" for v xs
    using that by (induction xs) auto
  have fresh: "sessionFresh (db1\<lparr>userAuths := xs\<rparr>)" if "xs = map ?g (userAuths db) \<or> xs = userAuths db" for xs
    unfolding sessionFresh_def
  proof (intro allI impI)
    fix v c d assume "cacheOn (db1\<lparr>userAuths := xs\<rparr>)"
      "queryCache (db1\<lparr>userAuths := xs\<rparr>) (getUserSessionEntityCacheId v) = Some (c, d)"
    then have "v \<noteq> seUid ses" "cacheOn db" "queryCache db (getUserSessionEntityCacheId v) = Some (c, d)"
      using db1 by (cases "v = seUid ses"; auto)+
    with ok that o show "\<exists>r. c = CachedSessions [sessionOf r] \<and>
        filter (\<lambda>r. uaUid r = v) (userAuths (db1\<lparr>userAuths := xs\<rparr>)) = [r]"
      unfolding authGood_def sessionFresh_def by auto
  qed
  have fm: "List.find (\<lambda>r. uaUid r = v) (map ?g xs) = map_option ?g (List.find (\<lambda>r. uaUid r = v) xs)" for v xs
    by (induction xs) simp_all
  have cr: "credOf (db1\<lparr>userAuths := map ?g (userAuths db)\<rparr>) = credOf db"
  proof
    fix v
    have "uaPassword (setSession ses r) = uaPassword r" "uaSalt (setSession ses r) = uaSalt r" for r
      by (simp_all add: setSession_def)
    with fm [of v "userAuths db"] show "credOf (db1\<lparr>userAuths := map ?g (userAuths db)\<rparr>) v = credOf db v"
      by (cases "List.find (\<lambda>r. uaUid r = v) (userAuths db)") (auto simp: credOf_def)
  qed
  have fit: "fitsUserAuth (setSession ses r) \<longleftrightarrow> length (seRefreshToken ses) \<le> 500"
    if "fitsUserAuth r" "uaUid r = seUid ses" for r
    using that by (simp add: fitsUserAuth_def setSession_def)
  have s: "sessionOfUid (db1\<lparr>userAuths := map ?g (userAuths db)\<rparr>) = (sessionOfUid db)(seUid ses :=
        if hasAuth db (seUid ses) then Some ses else None)"
  proof
    fix v
    note fm [of v]
    moreover have "List.find (\<lambda>r. uaUid r = seUid ses) (userAuths db) = None \<longleftrightarrow> \<not> hasAuth db (seUid ses)"
      by (simp add: find_None_key hasAuth_def)
    moreover have "sessionOf (setSession ses r) = ses" for r by (simp add: sessionOf_def setSession_def)
    ultimately show "sessionOfUid (db1\<lparr>userAuths := map ?g (userAuths db)\<rparr>) v = ((sessionOfUid db)(seUid ses :=
        if hasAuth db (seUid ses) then Some ses else None)) v"
      by (cases "List.find (\<lambda>r. uaUid r = v) (userAuths db)")
        (auto simp: sessionOfUid_def dest: find_Some_key)
  qed
  have "keeps schemaOk (updateUserAuthByUserSessionEntity sqlDb ses)"
    unfolding updateUserAuthByUserSessionEntity_def sqlDb_sel by (intro keeps_intros)
  with ok run have "schemaOk db'" by (auto simp: authGood_def dest: keepsD)
  have uids: "map uaUid (map ?g (userAuths db)) = map uaUid (userAuths db)"
    by (auto simp: comp_def intro!: map_if_same)
  have "sessionFresh db1" using fresh [of "userAuths db"] by (simp add: sessionFresh_def db1(1))
  let ?B = "list_all (\<lambda>r. uaUid r = seUid ses \<longrightarrow> fitsUserAuth (setSession ses r)) (userAuths db)"
  have all: "list_all fitsUserAuth (userAuths db)" using ok by (simp add: authGood_def)
  have upd: "updateUserAuthByUserSessionEntity sqlDb ses db =
      (if ?B then (Inr (), db1\<lparr>userAuths := map ?g (userAuths db)\<rparr>) else (Inl tooLong, db1))"
    by (simp add: updateUserAuthByUserSessionEntity_def bindR_def sqlUpdateUserAuth_def Let_def
        sqlRemoveCached_def db1_def)
  show ?thesis
  proof (cases ?B)
    case True
    then have "list_all fitsUserAuth (map ?g (userAuths db))"
      using all by (induction "userAuths db") (auto simp: list_all_iff)
    with True run upd fresh [of "map ?g (userAuths db)"] s cr uids \<open>schemaOk db'\<close> show ?thesis
      by (auto simp: authGood_def simp del: map_map fun_upd_apply)
  next
    case False
    then have "500 < length (seRefreshToken ses)" using all fit by (fastforce simp: list_all_iff)
    with False run upd all db1(1) \<open>sessionFresh db1\<close> \<open>schemaOk db'\<close> show ?thesis
      by (auto simp: authGood_def)
  qed
qed

section \<open>What the code relies on the libraries for\<close>

text \<open>
  A signed token verifies under the key it was signed with until its lifetime (in whole seconds)
  is over, and yields the claim; after that it does not. Hexadecimal SHA-256 has 64 digits.
\<close>

locale token_lib =
  fixes L :: libs and lifetime :: "string \<Rightarrow> nat"
  assumes cipher: "aes_cipher (aesLib L)"
    and verify_signed: "t div 1000 < now div 1000 + lifetime ex \<Longrightarrow>
      jwtVerify L t (Some (jwtSign L now u key iss ex)) key = Inr (Some u)"
    and verify_expired: "now div 1000 + lifetime ex \<le> t div 1000 \<Longrightarrow>
      \<exists>e. jwtVerify L t (Some (jwtSign L now u key iss ex)) key = Inl e"
    and sha_length: "length (sha256Hex L x) = 64"

text \<open>A token the server issued for a user at an instant.\<close>

definition issued :: "libs \<Rightarrow> authConfig \<Rightarrow> nat \<Rightarrow> string \<Rightarrow> string \<Rightarrow> string \<Rightarrow> bool" where
  "issued L cfg now uid ex tok \<longleftrightarrow>
     (\<exists>c. tok = jwtSign L now c (jwtSecretKey cfg) (jwtIssuer cfg) ex \<and>
          decryptPrimaryKey (aesLib L) c (pkSecretKey cfg) = Inr uid)"

lemma issued_valid:
  "token_lib L lifetime \<Longrightarrow> issued L cfg now uid ex tok \<Longrightarrow> t div 1000 < now div 1000 + lifetime ex \<Longrightarrow>
   tokenUid L cfg t (Some tok) = Inr uid"
  by (auto simp: issued_def tokenUid_def decodeToken_def token_lib.verify_signed)

lemma issued_expired:
  assumes "token_lib L lifetime" and "issued L cfg now uid ex tok" and "now div 1000 + lifetime ex \<le> t div 1000"
  shows "\<exists>e. tokenUid L cfg t (Some tok) = Inl e"
proof -
  from assms(2) obtain c where c: "tok = jwtSign L now c (jwtSecretKey cfg) (jwtIssuer cfg) ex"
    by (auto simp: issued_def)
  obtain e where "jwtVerify L t (Some tok) (jwtSecretKey cfg) = Inl e"
    using token_lib.verify_expired [OF assms(1,3)] unfolding c by blast
  then show ?thesis by (simp add: tokenUid_def decodeToken_def)
qed

lemma tokens_issued:
  assumes "token_lib L lifetime"
  obtains a r d where
    "bindR (generateToken L cfg now uid ACCESS_TOKEN) (\<lambda>a.
       bindR (generateToken L cfg now uid REFRESH_TOKEN) (\<lambda>r. returnR (a, r))) draw = (Inr (a, r), d)"
    and "issued L cfg now uid (accessTokenExpireTime cfg) a"
    and "issued L cfg now uid (refreshTokenExpireTime cfg) r"
proof -
  have "\<exists>c d'. encryptPrimaryKey (aesLib L) uid (pkSecretKey cfg) d = (Inr c, d') \<and>
      decryptPrimaryKey (aesLib L) c (pkSecretKey cfg) = Inr uid" for d
    using aes_cipher.decrypt_encrypt [OF token_lib.cipher [OF assms], of uid "pkSecretKey cfg" d]
    by (auto simp: encryptPrimaryKey_def)
  then obtain c d1 c' d2 where
    e: "encryptPrimaryKey (aesLib L) uid (pkSecretKey cfg) draw = (Inr c, d1)"
      "decryptPrimaryKey (aesLib L) c (pkSecretKey cfg) = Inr uid"
      "encryptPrimaryKey (aesLib L) uid (pkSecretKey cfg) d1 = (Inr c', d2)"
      "decryptPrimaryKey (aesLib L) c' (pkSecretKey cfg) = Inr uid"
    by meson
  show thesis
    by (rule that) (use e in \<open>auto simp: generateToken_def bindR_def issued_def\<close>)
qed

section \<open>Every sign-in installs one session\<close>

text \<open>
  A completed sign-in: the user's session is the one returned, everybody else's is unchanged,
  and both tokens are the server's for that user.
\<close>

definition signedIn ::
  "libs \<Rightarrow> authConfig \<Rightarrow> nat \<Rightarrow> string \<Rightarrow> UserRole \<Rightarrow> JwtDto \<Rightarrow> dbState \<Rightarrow> dbState \<Rightarrow> bool" where
  "signedIn L cfg now uid role tok db db' \<longleftrightarrow>
     sessionOfUid db' = (sessionOfUid db)
       (uid \<mapsto> \<lparr>seUid = uid, seRefreshToken = refreshToken tok, seUserRole = role\<rparr>) \<and>
     issued L cfg now uid (accessTokenExpireTime cfg) (accessToken tok) \<and>
     issued L cfg now uid (refreshTokenExpireTime cfg) (refreshToken tok)"

text \<open>The column of the refresh token has 500 characters: some token for the user is longer.\<close>

definition longToken :: "libs \<Rightarrow> authConfig \<Rightarrow> nat \<Rightarrow> string \<Rightarrow> bool" where
  "longToken L cfg now uid \<longleftrightarrow>
     (\<exists>tok. issued L cfg now uid (refreshTokenExpireTime cfg) tok \<and> 500 < length tok)"

lemma jwtCreate_step:
  assumes lib: "token_lib L lifetime" and ok: "authGood db" and acc: "hasAuth db uid"
    and run: "jwtCreate sqlDb L cfg now draw uid role db = (res, db')"
  shows "authGood db' \<and> map uaUid (userAuths db') = map uaUid (userAuths db) \<and> credOf db' = credOf db \<and>
    (case res of
       Inl e \<Rightarrow> e = tooLong \<and> userAuths db' = userAuths db \<and> longToken L cfg now uid
     | Inr tok \<Rightarrow> signedIn L cfg now uid role tok db db')"
proof -
  from tokens_issued [OF lib, of cfg now uid draw] obtain a r d where
    t: "bindR (generateToken L cfg now uid ACCESS_TOKEN) (\<lambda>a.
       bindR (generateToken L cfg now uid REFRESH_TOKEN) (\<lambda>r. returnR (a, r))) draw = (Inr (a, r), d)"
    "issued L cfg now uid (accessTokenExpireTime cfg) a"
    "issued L cfg now uid (refreshTokenExpireTime cfg) r" .
  let ?ses = "\<lparr>seUid = uid, seRefreshToken = r, seUserRole = role\<rparr>"
  obtain x db1 where u: "updateUserAuthByUserSessionEntity sqlDb ?ses db = (x, db1)" by fastforce
  from session_write [OF ok u] t acc run u show ?thesis
    by (auto simp: jwtCreate_def bindR_def longToken_def signedIn_def credOf_def simp del: fun_upd_apply
        split: sum.splits)
qed

lemma keeps_authGood_remove: "keeps authGood (sqlRemoveCached ids)"
proof -
  have "sessionFresh (db\<lparr>queryCache := queryCache db |` A\<rparr>)" if "sessionFresh db" for db A
    using that by (auto simp: sessionFresh_def restrict_map_def split: if_splits)
  then show ?thesis by (auto simp: keeps_def sqlRemoveCached_def authGood_def)
qed

lemma account_read:
  assumes ok: "authGood db" and run: "getUserAuthEntity sqlDb uid db = (res, db')"
  shows "authGood db' \<and> userAuths db' = userAuths db \<and>
    res = (case List.find (\<lambda>r. uaUid r = uid) (userAuths db) of
             None \<Rightarrow> Inl (UserNotFoundException uid) | Some r \<Rightarrow> Inr r)"
proof -
  have "authGood (snd (sqlRemoveCached [getUserAuthEntityCacheId uid] db))"
    using keeps_authGood_remove ok by (auto simp: keeps_def)
  with ok run show ?thesis
    by (auto simp: getUserAuthEntity_def sqlFindUserAuth_def run_simps find_filter sqlRemoveCached_def
        split: list.splits)
qed

lemma account_insert:
  assumes ok: "authGood db" and new: "\<not> hasAuth db (uaUid row)"
    and run: "saveUserAuthEntity sqlDb row db = (res, db')"
  shows "authGood db' \<and>
    (if fitsUserAuth row then res = Inr () \<and> userAuths db' = userAuths db @ [row]
     else res = Inl tooLong \<and> db' = db)"
proof -
  have "sessionFresh (db\<lparr>userAuths := userAuths db @ [row]\<rparr>)"
    unfolding sessionFresh_def
  proof (intro allI impI)
    fix v c d assume "cacheOn (db\<lparr>userAuths := userAuths db @ [row]\<rparr>)"
      "queryCache (db\<lparr>userAuths := userAuths db @ [row]\<rparr>) (getUserSessionEntityCacheId v) = Some (c, d)"
    with ok obtain r where r: "c = CachedSessions [sessionOf r]" "filter (\<lambda>r. uaUid r = v) (userAuths db) = [r]"
      unfolding authGood_def sessionFresh_def by auto
    then have "hasAuth db v" by (metis filter_absent hasAuth_def not_Cons_self2)
    with new r show "\<exists>r. c = CachedSessions [sessionOf r] \<and>
        filter (\<lambda>r. uaUid r = v) (userAuths (db\<lparr>userAuths := userAuths db @ [row]\<rparr>)) = [r]" by auto
  qed
  moreover have "keeps schemaOk (saveUserAuthEntity sqlDb row)"
    unfolding saveUserAuthEntity_def sqlDb_sel by (rule keeps_intros)
  ultimately show ?thesis using ok new run
    by (auto simp: saveUserAuthEntity_def sqlInsertUserAuth_def authGood_def dest: keepsD split: if_splits)
qed

section \<open>Every entry point\<close>

datatype authOp =
    Join UserAuthRequestDto
  | Login UserAuthRequestDto
  | Oauth OauthRequestDto
  | Refresh "string option"

fun authCall ::
  "('d, 'z) ormOps_scheme \<Rightarrow> libs \<Rightarrow> authConfig \<Rightarrow> nat \<Rightarrow> nat \<Rightarrow> authOp \<Rightarrow> ('d, exn, JwtDto) run" where
  "authCall D L cfg now draw (Join dto) = createNewUser D L cfg now draw dto"
| "authCall D L cfg now draw (Login dto) = login D L cfg now draw dto"
| "authCall D L cfg now draw (Oauth dto) = googleOauthLogin D L cfg now draw dto"
| "authCall D L cfg now draw (Refresh token) = refresh D L cfg now draw token"

text \<open>The user a request signs in, if it names one.\<close>

fun subjectOf :: "libs \<Rightarrow> authConfig \<Rightarrow> nat \<Rightarrow> authOp \<Rightarrow> string option" where
  "subjectOf L cfg now (Join dto) = Some (reqUid dto)"
| "subjectOf L cfg now (Login dto) = Some (reqUid dto)"
| "subjectOf L cfg now (Oauth dto) =
     (case decodeCredentialToken L cfg now (credentialToken dto) of Inl e \<Rightarrow> None | Inr email \<Rightarrow> email)"
| "subjectOf L cfg now (Refresh token) =
     (case tokenUid L cfg now token of Inl e \<Rightarrow> None | Inr uid \<Rightarrow> Some uid)"

context orm
begin

lemma sim_authCall [sim_intros]: "sim abst (authCall D L cfg now draw op) (authCall sqlDb L cfg now draw op)"
  by (cases op) (simp_all only: authCall.simps, (intro sim_userAuth)+)

end

lemma sessionOfUid_Some: "sessionOfUid db uid = Some ses \<Longrightarrow> seUid ses = uid \<and> hasAuth db uid"
  by (auto simp: sessionOfUid_def sessionOf_def hasAuth_def dest!: find_Some_key)

lemma sessionOfUid_cong: "userAuths db' = userAuths db \<Longrightarrow> sessionOfUid db' = sessionOfUid db"
  by (rule ext) (simp add: sessionOfUid_def)

lemma hasAuth_cong: "map uaUid (userAuths db') = map uaUid (userAuths db) \<Longrightarrow> hasAuth db' = hasAuth db"
  unfolding hasAuth_def by (metis list.set_map)

text \<open>What the verification of a refresh token answers, and that it only reads.\<close>

definition refreshAnswer ::
  "libs \<Rightarrow> authConfig \<Rightarrow> nat \<Rightarrow> string option \<Rightarrow> dbState \<Rightarrow> exn + UserSessionEntity" where
  "refreshAnswer L cfg now token db =
     (case tokenUid L cfg now token of
        Inl e \<Rightarrow> Inl e
      | Inr uid \<Rightarrow>
          (case sessionOfUid db uid of
             None \<Rightarrow> Inl (UserNotFoundException uid)
           | Some ses \<Rightarrow>
               if token = Some (seRefreshToken ses) then Inr ses
               else Inl (AuthInvalidRefreshTokenException (Some ''Refresh Token does not match!''))))"

lemma verifyRefresh_read:
  assumes ok: "authGood db" and run: "verifyRefreshToken sqlDb L cfg now token db = (res, db')"
  shows "authGood db' \<and> userAuths db' = userAuths db \<and> res = Inr (refreshAnswer L cfg now token db)"
proof (cases "tokenUid L cfg now token")
  case (Inl e)
  with ok run show ?thesis by (simp add: verifyRefreshToken_def run_simps refreshAnswer_def)
next
  case (Inr uid)
  obtain r db1 where g: "getUserSessionEntityByUid sqlDb now uid db = (r, db1)" by fastforce
  from session_read [OF ok g] run g Inr show ?thesis
    by (cases "sessionOfUid db uid") (auto simp: verifyRefreshToken_def run_simps refreshAnswer_def)
qed

lemma verifyAccess_read:
  assumes ok: "authGood db" and run: "verifyAccessToken sqlDb L cfg now token db = (res, db')"
  shows "authGood db' \<and> userAuths db' = userAuths db \<and>
    res = Inr (case tokenUid L cfg now token of
        Inl e \<Rightarrow> Some e
      | Inr uid \<Rightarrow> if hasAuth db uid then None else Some (UserNotFoundException uid))"
proof (cases "tokenUid L cfg now token")
  case (Inl e)
  with ok run show ?thesis by (simp add: verifyAccessToken_def run_simps)
next
  case (Inr uid)
  obtain r db1 where g: "getUserSessionEntityByUid sqlDb now uid db = (r, db1)" by fastforce
  have "sessionOfUid db uid = None \<longleftrightarrow> \<not> hasAuth db uid"
    by (simp add: sessionOfUid_def find_None_key hasAuth_def)
  with session_read [OF ok g] run g Inr show ?thesis
    by (cases "sessionOfUid db uid") (auto simp: verifyAccessToken_def run_simps)
qed

section \<open>Outcomes of each entry point\<close>

lemma hasAuth_find: "hasAuth db uid \<longleftrightarrow> (\<exists>r. List.find (\<lambda>r. uaUid r = uid) (userAuths db) = Some r)"
  using find_None_key [of uaUid uid "userAuths db"] by (auto simp: hasAuth_def)

lemma credOf_None: "credOf db uid = None \<longleftrightarrow> \<not> hasAuth db uid"
  by (auto simp: credOf_def hasAuth_find)

lemma credOf_cong: "userAuths db' = userAuths db \<Longrightarrow> credOf db' = credOf db"
  by (rule ext) (simp add: credOf_def)

lemma find_snoc_row: "List.find P (xs @ [x]) =
    (case List.find P xs of None \<Rightarrow> if P x then Some x else None | Some y \<Rightarrow> Some y)"
  by (induction xs) simp_all

lemma after_insert:
  assumes "\<not> hasAuth db (uaUid row)" and "userAuths db' = userAuths db @ [row]"
  shows "sessionOfUid db' = (sessionOfUid db)(uaUid row \<mapsto> sessionOf row)"
    "credOf db' = (credOf db)(uaUid row \<mapsto> (uaPassword row, uaSalt row))" "hasAuth db' (uaUid row)"
proof -
  have "List.find (\<lambda>r. uaUid r = uaUid row) (userAuths db) = None"
    using assms(1) by (simp add: hasAuth_def find_None_key)
  then have f: "List.find (\<lambda>r. uaUid r = u) (userAuths db') =
     (if u = uaUid row then Some row else List.find (\<lambda>r. uaUid r = u) (userAuths db))" for u
    by (auto simp: assms(2) find_snoc_row split: option.split)
  show "sessionOfUid db' = (sessionOfUid db)(uaUid row \<mapsto> sessionOf row)"
    "credOf db' = (credOf db)(uaUid row \<mapsto> (uaPassword row, uaSalt row))" "hasAuth db' (uaUid row)"
    by (auto simp: sessionOfUid_def credOf_def f hasAuth_find)
qed

lemma signedIn_upd:
  "signedIn L cfg now uid role tok db1 db' \<Longrightarrow> sessionOfUid db1 = (sessionOfUid db)(uid := x) \<Longrightarrow>
   signedIn L cfg now uid role tok db db'"
  by (simp add: signedIn_def)

lemma signedIn_cong:
  "userAuths db1 = userAuths db \<Longrightarrow> signedIn L cfg now uid role tok db1 db' = signedIn L cfg now uid role tok db db'"
  using sessionOfUid_cong [of db1 db] by (simp add: signedIn_def)

lemma login_step:
  assumes lib: "token_lib L lifetime" and ok: "authGood db"
    and run: "login sqlDb L cfg now draw dto db = (res, db')"
  shows "authGood db' \<and> hasAuth db' = hasAuth db \<and> credOf db' = credOf db \<and>
    (case credOf db (reqUid dto) of
       None \<Rightarrow> res = Inl (UserNotFoundException (reqUid dto)) \<and> userAuths db' = userAuths db
     | Some (pw, salt) \<Rightarrow>
         if hashingPassword L (reqPassword dto) salt \<noteq> pw
         then res = Inl AuthInvalidPasswordException \<and> userAuths db' = userAuths db
         else (case res of
             Inl e \<Rightarrow> e = tooLong \<and> userAuths db' = userAuths db \<and> longToken L cfg now (reqUid dto)
           | Inr tok \<Rightarrow> \<exists>role. signedIn L cfg now (reqUid dto) role tok db db'))"
proof -
  obtain x db1 where g: "getUserAuthEntity sqlDb (reqUid dto) db = (x, db1)" by fastforce
  note rd = account_read [OF ok g]
  note same = sessionOfUid_cong [of db1 db] credOf_cong [of db1 db] hasAuth_cong [of db1 db]
  show ?thesis
  proof (cases "List.find (\<lambda>r. uaUid r = reqUid dto) (userAuths db)")
    case None
    with rd run g same show ?thesis by (auto simp: login_def bindR_def credOf_def)
  next
    case (Some r)
    then have u: "uaUid r = reqUid dto" by (auto dest: find_Some_key)
    have h: "hasAuth db1 (reqUid dto)" using Some rd by (auto simp: hasAuth_find)
    show ?thesis
    proof (cases "hashingPassword L (reqPassword dto) (uaSalt r) = uaPassword r")
      case True
      with run g rd Some u have "jwtCreate sqlDb L cfg now draw (reqUid dto) (uaUserRole r) db1 = (res, db')"
        by (simp add: login_def bindR_def)
      from jwtCreate_step [OF lib conjunct1 [OF rd] h this] have st:
        "authGood db'" "map uaUid (userAuths db') = map uaUid (userAuths db1)" "credOf db' = credOf db1"
        "case res of Inl e \<Rightarrow> e = tooLong \<and> userAuths db' = userAuths db1 \<and> longToken L cfg now (reqUid dto)
          | Inr tok \<Rightarrow> signedIn L cfg now (reqUid dto) (uaUserRole r) tok db1 db'" by simp_all
      have "hasAuth db' = hasAuth db" using st(2) rd by (intro hasAuth_cong) simp
      moreover have "credOf db (reqUid dto) = Some (uaPassword r, uaSalt r)" using Some by (simp add: credOf_def)
      moreover have "signedIn L cfg now (reqUid dto) (uaUserRole r) tok db1 db'
          = signedIn L cfg now (reqUid dto) (uaUserRole r) tok db db'" for tok
        using rd by (intro signedIn_cong) simp
      ultimately show ?thesis using st True rd same by (cases res) auto
    next
      case False
      with rd run g same Some show ?thesis by (auto simp: login_def bindR_def credOf_def)
    qed
  qed
qed

text \<open>Signing in an account that was just inserted.\<close>

lemma new_account_step:
  assumes lib: "token_lib L lifetime" and ok: "authGood db" and new: "\<not> hasAuth db (uaUid row)"
    and ins: "saveUserAuthEntity sqlDb row db = (Inr (), db1)"
    and run: "jwtCreate sqlDb L cfg now draw (uaUid row) role db1 = (res, db')"
  shows "authGood db' \<and> hasAuth db' (uaUid row) \<and> (\<forall>v. hasAuth db v \<longrightarrow> hasAuth db' v) \<and>
    credOf db' = (credOf db)(uaUid row \<mapsto> (uaPassword row, uaSalt row)) \<and>
    (case res of
       Inl e \<Rightarrow> e = tooLong \<and> sessionOfUid db' = (sessionOfUid db)(uaUid row \<mapsto> sessionOf row) \<and>
         longToken L cfg now (uaUid row)
     | Inr tok \<Rightarrow> signedIn L cfg now (uaUid row) role tok db db')"
proof -
  from account_insert [OF ok new ins] have i: "authGood db1" "userAuths db1 = userAuths db @ [row]"
    by (simp_all split: if_splits)
  note a = after_insert [OF new i(2)]
  from jwtCreate_step [OF lib i(1) a(3) run] have st: "authGood db'"
    "map uaUid (userAuths db') = map uaUid (userAuths db1)" "credOf db' = credOf db1"
    "case res of Inl e \<Rightarrow> e = tooLong \<and> userAuths db' = userAuths db1 \<and> longToken L cfg now (uaUid row)
      | Inr tok \<Rightarrow> signedIn L cfg now (uaUid row) role tok db1 db'" by simp_all
  have h: "hasAuth db' = hasAuth db1" using st(2) by (rule hasAuth_cong)
  have "hasAuth db1 v" if "hasAuth db v" for v using that by (simp add: hasAuth_def i(2))
  with h a st(1,3,4) show ?thesis
    by (cases res) (auto simp: sessionOfUid_cong [of db' db1] intro: signedIn_upd)
qed

lemma hash_length: "token_lib L lifetime \<Longrightarrow> length (hashingPassword L password salt) = 64"
  by (simp add: hashingPassword_def numeral_3_eq_3 token_lib.sha_length)

lemma join_step:
  assumes lib: "token_lib L lifetime" and ok: "authGood db"
    and run: "createNewUser sqlDb L cfg now draw dto db = (res, db')"
  shows "authGood db' \<and>
    (if hasAuth db (reqUid dto) then res = Inl (UserAlreadyExistsException (reqUid dto)) \<and> db' = db
     else (res = Inl tooLong \<and> db' = db \<and> \<not> (length (reqUid dto) \<le> 100 \<and> length (showNat now) \<le> 50)) \<or>
       (\<forall>v. hasAuth db v \<longrightarrow> hasAuth db' v) \<and> hasAuth db' (reqUid dto) \<and>
       credOf db' = (credOf db)(reqUid dto \<mapsto>
         (hashingPassword L (reqPassword dto) (showNat now), showNat now)) \<and>
       (case res of
          Inl e \<Rightarrow> e = tooLong \<and> sessionOfUid db' = (sessionOfUid db)
            (reqUid dto \<mapsto> \<lparr>seUid = reqUid dto, seRefreshToken = '''', seUserRole = USER\<rparr>) \<and>
            longToken L cfg now (reqUid dto)
        | Inr tok \<Rightarrow> signedIn L cfg now (reqUid dto) USER tok db db'))"
proof (cases "hasAuth db (reqUid dto)")
  case True
  with ok run show ?thesis
    by (simp add: createNewUser_def userAuthIsExist_def sqlExistUserAuth_def run_simps)
next
  case False
  let ?row = "toUserAuthEntity (userAuthDaoFrom
     \<lparr>iaUid = reqUid dto, iaPassword = hashingPassword L (reqPassword dto) (showNat now),
      iaSalt = showNat now, iaSocialYN = ''N'', iaRefreshToken = '''', iaUserRole = USER\<rparr>)"
  have row: "uaUid ?row = reqUid dto"
    "sessionOf ?row = \<lparr>seUid = reqUid dto, seRefreshToken = '''', seUserRole = USER\<rparr>"
    "uaPassword ?row = hashingPassword L (reqPassword dto) (showNat now)" "uaSalt ?row = showNat now"
    by (simp_all add: toUserAuthEntity_def userAuthDaoFrom_def sessionOf_def)
  obtain y db1 where ins: "saveUserAuthEntity sqlDb ?row db = (y, db1)" by fastforce
  have new: "\<not> hasAuth db (uaUid ?row)" using False row by simp
  note i = account_insert [OF ok new ins]
  have run': "createNewUser sqlDb L cfg now draw dto db =
      (case y of Inl e \<Rightarrow> (Inl e, db1) | Inr _ \<Rightarrow> jwtCreate sqlDb L cfg now draw (reqUid dto) USER db1)"
    using False ins
    by (simp add: createNewUser_def userAuthIsExist_def sqlExistUserAuth_def bindR_def Let_def split: sum.split)
  show ?thesis
  proof (cases "fitsUserAuth ?row")
    case False
    then have "\<not> (length (reqUid dto) \<le> 100 \<and> length (showNat now) \<le> 50)"
      using hash_length [OF lib, of "reqPassword dto" "showNat now"]
      by (simp add: fitsUserAuth_def toUserAuthEntity_def userAuthDaoFrom_def)
    with False i run run' ok \<open>\<not> hasAuth db (reqUid dto)\<close> show ?thesis by simp
  next
    case True
    with i have y: "y = Inr ()" by simp
    with run run' row have "jwtCreate sqlDb L cfg now draw (uaUid ?row) USER db1 = (res, db')" by simp
    from new_account_step [OF lib ok new ins [unfolded y] this] False show ?thesis
      by (simp only: row if_False) blast
  qed
qed

lemma signin_existing:
  assumes lib: "token_lib L lifetime" and ok: "authGood db" and acc: "hasAuth db uid"
    and run: "bindR (getUserAuthEntity sqlDb uid)
      (\<lambda>e. jwtCreate sqlDb L cfg now draw (uaUid e) (uaUserRole e)) db = (res, db')"
  shows "authGood db' \<and> hasAuth db' = hasAuth db \<and> credOf db' = credOf db \<and>
    (case res of
       Inl e \<Rightarrow> e = tooLong \<and> userAuths db' = userAuths db
     | Inr tok \<Rightarrow> \<exists>role. signedIn L cfg now uid role tok db db')"
proof -
  obtain r where r: "List.find (\<lambda>r. uaUid r = uid) (userAuths db) = Some r" using acc by (auto simp: hasAuth_find)
  obtain x db1 where g: "getUserAuthEntity sqlDb uid db = (x, db1)" by fastforce
  from account_read [OF ok g] r have rd: "authGood db1" "userAuths db1 = userAuths db" "x = Inr r" by simp_all
  have h: "hasAuth db1 = hasAuth db" using rd(2) by (intro hasAuth_cong) simp
  have "jwtCreate sqlDb L cfg now draw uid (uaUserRole r) db1 = (res, db')"
    using run g rd r by (auto simp: bindR_def dest: find_Some_key)
  from jwtCreate_step [OF lib rd(1) _ this] h acc have st: "authGood db'"
    "map uaUid (userAuths db') = map uaUid (userAuths db1)" "credOf db' = credOf db1"
    "case res of Inl e \<Rightarrow> e = tooLong \<and> userAuths db' = userAuths db1 \<and> longToken L cfg now uid
      | Inr tok \<Rightarrow> signedIn L cfg now uid (uaUserRole r) tok db1 db'" by simp_all
  have "hasAuth db' = hasAuth db" using st(2) rd(2) by (intro hasAuth_cong) simp
  with st rd(2) credOf_cong [OF rd(2)] signedIn_cong [OF rd(2)] show ?thesis by (cases res) auto
qed

lemma oauth_step:
  assumes lib: "token_lib L lifetime" and ok: "authGood db"
    and run: "googleOauthLogin sqlDb L cfg now draw dto db = (res, db')"
  shows "authGood db' \<and>
    (case decodeCredentialToken L cfg now (credentialToken dto) of
       Inl e \<Rightarrow> res = Inl e \<and> db' = db
     | Inr email \<Rightarrow>
         if email = None \<or> email = Some '''' then
           res = Inl (AuthInvalidOauthTokenException (Some ''Invalid Google token payload.'')) \<and> db' = db
         else
           (\<forall>v. hasAuth db v \<longrightarrow> hasAuth db' v) \<and>
           (credOf db' = credOf db \<or>
            \<not> hasAuth db (the email) \<and> credOf db' = (credOf db)(the email \<mapsto> (''-'', ''-''))) \<and>
           (case res of
              Inl e \<Rightarrow> e = tooLong \<and> (\<forall>v. hasAuth db v \<longrightarrow> sessionOfUid db' v = sessionOfUid db v)
            | Inr tok \<Rightarrow> hasAuth db' (the email) \<and> (\<exists>role. signedIn L cfg now (the email) role tok db db')))"
proof (cases "decodeCredentialToken L cfg now (credentialToken dto)")
  case (Inl e)
  with ok run show ?thesis by (simp add: googleOauthLogin_def run_simps)
next
  case (Inr email)
  show ?thesis
  proof (cases "email = None \<or> email = Some ''''")
    case True
    with Inr ok run show ?thesis by (auto simp: googleOauthLogin_def run_simps)
  next
    case False
    then obtain uid where uid: "email = Some uid" "uid \<noteq> ''''" by (cases email) auto
    let ?row = "toUserAuthEntity (userAuthDaoFrom \<lparr>iaUid = uid, iaPassword = ''-'', iaSalt = ''-'',
       iaSocialYN = ''Y'', iaRefreshToken = '''', iaUserRole = USER\<rparr>)"
    have row: "uaUid ?row = uid" "uaPassword ?row = ''-''" "uaSalt ?row = ''-''"
      by (simp_all add: toUserAuthEntity_def userAuthDaoFrom_def)
    let ?rest = "bindR (getUserAuthEntity sqlDb uid) (\<lambda>e. jwtCreate sqlDb L cfg now draw (uaUid e) (uaUserRole e))"
    have run1: "googleOauthLogin sqlDb L cfg now draw dto db =
       (if \<not> hasAuth db uid then bindR (saveUserAuthEntity sqlDb ?row) (\<lambda>_. ?rest) db else ?rest db)"
      using Inr uid
      by (simp add: googleOauthLogin_def userAuthIsExist_def sqlExistUserAuth_def bindR_def Let_def)
    show ?thesis
    proof (cases "hasAuth db uid")
      case True
      with run run1 have "?rest db = (res, db')" by simp
      from signin_existing [OF lib ok True this] True Inr uid sessionOfUid_cong [of db' db] show ?thesis
        by (cases res) auto
    next
      case new: False
      obtain y db1 where ins: "saveUserAuthEntity sqlDb ?row db = (y, db1)" by fastforce
      have new': "\<not> hasAuth db (uaUid ?row)" using new row by simp
      note i = account_insert [OF ok new' ins]
      show ?thesis
      proof (cases "fitsUserAuth ?row")
        case False
        with i have "y = Inl tooLong" "db1 = db" by simp_all
        with run run1 new ins have "res = Inl tooLong" "db' = db" by (simp_all add: bindR_def)
        with ok Inr uid show ?thesis by simp
      next
        case True
        with i have y: "y = Inr ()" "authGood db1" "userAuths db1 = userAuths db @ [?row]" by simp_all
        note af = after_insert [OF new' y(3), unfolded row]
        have "?rest db1 = (res, db')" using run run1 new ins y(1) by (simp add: bindR_def)
        note st = signin_existing [OF lib y(2) af(3) this]
        have "hasAuth db1 v" if "hasAuth db v" for v using that by (simp add: hasAuth_def y(3))
        moreover have "\<exists>role. signedIn L cfg now uid role tok db db'" if "\<exists>role. signedIn L cfg now uid role tok db1 db'" for tok
          using that af(1) signedIn_upd by blast
        moreover have "sessionOfUid db' v = sessionOfUid db v" if "userAuths db' = userAuths db1" "hasAuth db v" for v
          using that(2) new by (auto simp: sessionOfUid_cong [OF that(1)] af(1))
        ultimately show ?thesis using st af(2,3) new Inr uid by (cases res) auto
      qed
    qed
  qed
qed

lemma refresh_step:
  assumes lib: "token_lib L lifetime" and ok: "authGood db"
    and run: "refresh sqlDb L cfg now draw token db = (res, db')"
  shows "authGood db' \<and> hasAuth db' = hasAuth db \<and> credOf db' = credOf db \<and>
    (if token = None \<or> token = Some '''' then res = Inl AuthRefreshTokenRequiredException \<and> db' = db
     else (case refreshAnswer L cfg now token db of
         Inl e \<Rightarrow> res = Inl (AuthInvalidRefreshTokenException None) \<and> userAuths db' = userAuths db
       | Inr ses \<Rightarrow>
          (case res of
             Inl e \<Rightarrow> e = tooLong \<and> userAuths db' = userAuths db
           | Inr tok \<Rightarrow> signedIn L cfg now (seUid ses) (seUserRole ses) tok db db')))"
proof (cases "token = None \<or> token = Some ''''")
  case True
  with ok run show ?thesis by (auto simp: refresh_def)
next
  case False
  obtain x db1 where v: "verifyRefreshToken sqlDb L cfg now token db = (x, db1)" by fastforce
  from verifyRefresh_read [OF ok v] have rd: "authGood db1" "userAuths db1 = userAuths db"
    "x = Inr (refreshAnswer L cfg now token db)" by simp_all
  have h: "hasAuth db1 = hasAuth db" using rd(2) by (intro hasAuth_cong) simp
  show ?thesis
  proof (cases "refreshAnswer L cfg now token db")
    case (Inl e)
    with False run v rd h credOf_cong [OF rd(2)] show ?thesis by (auto simp: refresh_def bindR_def)
  next
    case (Inr ses)
    then have "hasAuth db (seUid ses)"
      by (auto simp: refreshAnswer_def dest: sessionOfUid_Some split: sum.splits option.splits if_splits)
    moreover have "jwtCreate sqlDb L cfg now draw (seUid ses) (seUserRole ses) db1 = (res, db')"
      using False run v rd Inr by (auto simp: refresh_def bindR_def reissueJwtByUserSessionEntity_def)
    ultimately have st: "authGood db'" "map uaUid (userAuths db') = map uaUid (userAuths db1)"
      "credOf db' = credOf db1"
      "case res of Inl e \<Rightarrow> e = tooLong \<and> userAuths db' = userAuths db1 \<and> longToken L cfg now (seUid ses)
        | Inr tok \<Rightarrow> signedIn L cfg now (seUid ses) (seUserRole ses) tok db1 db'"
      using jwtCreate_step [OF lib rd(1)] h by simp_all
    have "hasAuth db' = hasAuth db" using st(2) rd(2) by (intro hasAuth_cong) simp
    with st rd(2) Inr False credOf_cong [OF rd(2)] signedIn_cong [OF rd(2)] show ?thesis by (cases res) auto
  qed
qed

lemma auth_step:
  assumes lib: "token_lib L lifetime" and ok: "authGood db"
    and run: "authCall sqlDb L cfg now draw op db = (res, db')"
  shows "authGood db' \<and> (\<forall>v. hasAuth db v \<longrightarrow> hasAuth db' v \<and> credOf db' v = credOf db v) \<and>
    (case res of
       Inl e \<Rightarrow> \<forall>v. hasAuth db v \<longrightarrow> sessionOfUid db' v = sessionOfUid db v
     | Inr tok \<Rightarrow> \<exists>uid role. subjectOf L cfg now op = Some uid \<and> hasAuth db' uid \<and>
         signedIn L cfg now uid role tok db db')"
proof (cases op)
  case (Join dto)
  with join_step [OF lib ok, of cfg now draw dto res db'] run show ?thesis
    by (cases res; cases "hasAuth db (reqUid dto)") auto
next
  case (Login dto)
  then have "login sqlDb L cfg now draw dto db = (res, db')" using run by simp
  note st = login_step [OF lib ok this]
  have n: "credOf db (reqUid dto) = None \<longleftrightarrow> \<not> hasAuth db (reqUid dto)" by (rule credOf_None)
  show ?thesis
  proof (cases res)
    case (Inl e)
    with st have "userAuths db' = userAuths db" by (auto split: option.splits if_splits)
    with st Inl sessionOfUid_cong [of db' db] show ?thesis by simp
  next
    case (Inr tok)
    with st n Login show ?thesis
      by (auto split: option.splits if_splits)
  qed
next
  case (Oauth dto)
  with oauth_step [OF lib ok, of cfg now draw dto res db'] run show ?thesis
    by (cases res) (auto split: sum.splits if_splits)
next
  case (Refresh token)
  then have "refresh sqlDb L cfg now draw token db = (res, db')" using run by simp
  note st = refresh_step [OF lib ok this]
  have a: "tokenUid L cfg now token = Inr (seUid ses) \<and> hasAuth db (seUid ses)"
    if "refreshAnswer L cfg now token db = Inr ses" for ses
    using that by (auto simp: refreshAnswer_def dest: sessionOfUid_Some split: sum.splits option.splits if_splits)
  show ?thesis
  proof (cases res)
    case (Inl e)
    with st have "userAuths db' = userAuths db" by (auto split: sum.splits if_splits)
    with st Inl sessionOfUid_cong [of db' db] show ?thesis by simp
  next
    case (Inr tok)
    with st obtain ses where "refreshAnswer L cfg now token db = Inr ses"
      "signedIn L cfg now (seUid ses) (seUserRole ses) tok db db'"
      by (auto split: sum.splits if_splits)
    with a st Inr Refresh show ?thesis by auto
  qed
qed

section \<open>An instance of the libraries\<close>

text \<open>
  A token library for the concrete instances: a token is its expiry second, a padding of a chosen
  length and the claim.
\<close>

definition toyLibs :: "nat \<Rightarrow> libs" where
  "toyLibs pad =
     \<lparr>aesLib = toyAes,
      jwtSign = (\<lambda>now u key iss ex. showNat (now div 1000 + length ex) @ CHR ''.'' # replicate pad (CHR ''x'') @ u),
      jwtVerify = (\<lambda>t token key.
        (case token of
           None \<Rightarrow> Inl (OtherError ''JsonWebTokenError'' ''jwt must be provided'')
         | Some tok \<Rightarrow>
             if t div 1000 < readNat (takeWhile (\<lambda>c. c \<noteq> CHR ''.'') tok)
             then Inr (Some (drop pad (tl (dropWhile (\<lambda>c. c \<noteq> CHR ''.'') tok))))
             else Inl (OtherError ''TokenExpiredError'' ''jwt expired''))),
      sha256Hex = (\<lambda>x. take 64 (x @ replicate 64 (CHR ''0''))),
      verifyIdToken = (\<lambda>now token cid. Inr (Some token))\<rparr>"

lemma split_dot:
  "takeWhile (\<lambda>c. c \<noteq> CHR ''.'') (showNat n @ CHR ''.'' # xs) = showNat n"
  "dropWhile (\<lambda>c. c \<noteq> CHR ''.'') (showNat n @ CHR ''.'' # xs) = CHR ''.'' # xs"
proof -
  have "c \<noteq> CHR ''.''" if "c \<in> set (showNat n)" for c
    using showNat_digits [OF that] by (auto simp: isDigit_def)
  then show "takeWhile (\<lambda>c. c \<noteq> CHR ''.'') (showNat n @ CHR ''.'' # xs) = showNat n"
    "dropWhile (\<lambda>c. c \<noteq> CHR ''.'') (showNat n @ CHR ''.'' # xs) = CHR ''.'' # xs"
    by (simp_all add: takeWhile_append dropWhile_append)
qed

interpretation toyl: token_lib "toyLibs pad" length
  by (rule token_lib.intro) (simp_all add: toyLibs_def split_dot toyc.aes_cipher_axioms)

section \<open>Properties\<close>

lemma refreshAnswer_Inr:
  "refreshAnswer L cfg t T db = Inr ses \<longleftrightarrow>
     tokenUid L cfg t T = Inr (seUid ses) \<and> sessionOfUid db (seUid ses) = Some ses \<and>
     T = Some (seRefreshToken ses)"
proof (cases "tokenUid L cfg t T")
  case (Inr uid)
  show ?thesis
  proof (cases "sessionOfUid db uid")
    case None
    with Inr show ?thesis by (auto simp: refreshAnswer_def)
  next
    case (Some x)
    then have "seUid x = uid" using sessionOfUid_Some by blast
    have "refreshAnswer L cfg t T db = Inr ses \<longleftrightarrow> T = Some (seRefreshToken x) \<and> x = ses"
      using Inr Some by (simp add: refreshAnswer_def)
    also have "\<dots> \<longleftrightarrow> uid = seUid ses \<and> sessionOfUid db (seUid ses) = Some ses \<and> T = Some (seRefreshToken ses)"
      using Some \<open>seUid x = uid\<close> by (metis option.inject)
    finally show ?thesis using Inr by simp
  qed
qed (simp add: refreshAnswer_def)

text \<open>A verification on any database, through its reference run.\<close>

lemma verify_on:
  assumes "orm D abst" and "authGood (abst s)"
  shows "fst (verifyRefreshToken D L cfg t T s) = Inr (refreshAnswer L cfg t T (abst s))"
    "authGood (abst (snd (verifyRefreshToken D L cfg t T s)))"
proof -
  obtain res s' where r: "verifyRefreshToken D L cfg t T s = (res, s')" by fastforce
  from verifyRefresh_read [OF assms(2) sim_apply [OF orm.sim_userAuth(3) [OF assms(1)] r]] r
  show "fst (verifyRefreshToken D L cfg t T s) = Inr (refreshAnswer L cfg t T (abst s))"
    "authGood (abst (snd (verifyRefreshToken D L cfg t T s)))" by simp_all
qed

lemma auth_on:
  assumes "orm D abst" and "token_lib L lifetime" and "authGood (abst s)"
    and "authCall D L cfg now draw op s = (res, s')"
  shows "authGood (abst s') \<and>
    (\<forall>v. hasAuth (abst s) v \<longrightarrow> hasAuth (abst s') v \<and> credOf (abst s') v = credOf (abst s) v) \<and>
    (case res of
       Inl e \<Rightarrow> \<forall>v. hasAuth (abst s) v \<longrightarrow> sessionOfUid (abst s') v = sessionOfUid (abst s) v
     | Inr tok \<Rightarrow> \<exists>uid role. subjectOf L cfg now op = Some uid \<and> hasAuth (abst s') uid \<and>
         signedIn L cfg now uid role tok (abst s) (abst s'))"
  by (rule auth_step [OF assms(2,3) sim_apply [OF orm.sim_authCall [OF assms(1)] assms(4)]])

text \<open>C9: One session per user, and it is the newest. After any successful sign-in (registration, password
  login, Google login, token refresh) on a good database, cached or not: the refresh token handed
  out is accepted until its lifetime is over, as the session of the user who signed in; no other
  token at all is accepted for that user, so every earlier refresh token is revoked at once even
  though sessions are cached for six hours; and which tokens are accepted for other users has
  not changed.\<close>

theorem newest_refresh_token_only:
  assumes "orm D abst" and "token_lib L lifetime" and "authGood (abst s)"
    and "authCall D L cfg now draw op s = (Inr tok, s')"
    and "t div 1000 < now div 1000 + lifetime (refreshTokenExpireTime cfg)"
  shows "\<exists>uid role. subjectOf L cfg now op = Some uid \<and>
    fst (verifyRefreshToken D L cfg t (Some (refreshToken tok)) s') =
      Inr (Inr \<lparr>seUid = uid, seRefreshToken = refreshToken tok, seUserRole = role\<rparr>) \<and>
    (\<forall>T ses. fst (verifyRefreshToken D L cfg t T s') = Inr (Inr ses) \<and> seUid ses = uid \<longrightarrow>
       T = Some (refreshToken tok)) \<and>
    (\<forall>T ses. seUid ses \<noteq> uid \<longrightarrow>
       (fst (verifyRefreshToken D L cfg t T s') = Inr (Inr ses) \<longleftrightarrow>
        fst (verifyRefreshToken D L cfg t T s) = Inr (Inr ses)))"
proof -
  from auth_on [OF assms(1-4)] obtain uid role where
    g: "authGood (abst s')" "subjectOf L cfg now op = Some uid" "hasAuth (abst s') uid"
      "signedIn L cfg now uid role tok (abst s) (abst s')" by auto
  from g(4) have ses: "sessionOfUid (abst s') = (sessionOfUid (abst s))
      (uid \<mapsto> \<lparr>seUid = uid, seRefreshToken = refreshToken tok, seUserRole = role\<rparr>)"
    and iss: "issued L cfg now uid (refreshTokenExpireTime cfg) (refreshToken tok)"
    by (simp_all add: signedIn_def)
  have v: "tokenUid L cfg t (Some (refreshToken tok)) = Inr uid"
    by (rule issued_valid [OF assms(2) iss assms(5)])
  note on = verify_on [OF assms(1) g(1)] verify_on [OF assms(1,3)]
  have "refreshAnswer L cfg t (Some (refreshToken tok)) (abst s') =
      Inr \<lparr>seUid = uid, seRefreshToken = refreshToken tok, seUserRole = role\<rparr>"
    by (simp add: refreshAnswer_Inr v ses)
  moreover have "T = Some (refreshToken tok)"
    if "refreshAnswer L cfg t T (abst s') = Inr x" "seUid x = uid" for T x
    using that by (cases x) (auto simp: refreshAnswer_Inr ses)
  moreover have "refreshAnswer L cfg t T (abst s') = Inr x \<longleftrightarrow> refreshAnswer L cfg t T (abst s) = Inr x"
    if "seUid x \<noteq> uid" for T x
    using that by (simp add: refreshAnswer_Inr ses)
  ultimately show ?thesis using g(2) unfolding on(1,3) sum.inject
    by (intro exI [of _ uid] exI [of _ role] conjI) blast+
qed

text \<open>A refresh token ends with its lifetime. From the second on in which the lifetime of the token
  handed out is over, in every later state of the database, the token is rejected, and asking for
  new tokens with it fails with the invalid-refresh-token exception (code 10005).\<close>

lemma refresh_token_expires:
  assumes "orm D abst" and "token_lib L lifetime" and "authGood (abst s)" and "authGood (abst s1)"
    and "authCall D L cfg now draw op s = (Inr tok, s')"
    and "now div 1000 + lifetime (refreshTokenExpireTime cfg) \<le> t div 1000"
    and "refreshToken tok \<noteq> ''''"
  shows "fst (refresh D L cfg t draw' (Some (refreshToken tok)) s1) = Inl (AuthInvalidRefreshTokenException None)"
proof -
  from auth_on [OF assms(1-3,5)] obtain uid where
    iss: "issued L cfg now uid (refreshTokenExpireTime cfg) (refreshToken tok)" by (auto simp: signedIn_def)
  from issued_expired [OF assms(2) iss assms(6)] obtain e where
    e: "refreshAnswer L cfg t (Some (refreshToken tok)) (abst s1) = Inl e" by (auto simp: refreshAnswer_def)
  obtain r s2 where r: "refresh D L cfg t draw' (Some (refreshToken tok)) s1 = (r, s2)" by fastforce
  from refresh_step [OF assms(2,4) sim_apply [OF orm.sim_userAuth(7) [OF assms(1)] r]] e assms(7) r
  show ?thesis by simp
qed

text \<open>A sequence of requests to the entry points, each with its instant and draw.\<close>

fun authCalls ::
  "('d, 'z) ormOps_scheme \<Rightarrow> libs \<Rightarrow> authConfig \<Rightarrow> (nat \<times> nat \<times> authOp) list \<Rightarrow> 'd \<Rightarrow> 'd" where
  "authCalls D L cfg [] s = s"
| "authCalls D L cfg ((now, draw, op) # calls) s =
     authCalls D L cfg calls (snd (authCall D L cfg now draw op s))"

lemma authCalls_keep:
  assumes "orm D abst" and "token_lib L lifetime"
  shows "authGood (abst s) \<Longrightarrow> hasAuth (abst s) v \<Longrightarrow>
    authGood (abst (authCalls D L cfg calls s)) \<and> hasAuth (abst (authCalls D L cfg calls s)) v \<and>
    credOf (abst (authCalls D L cfg calls s)) v = credOf (abst s) v"
proof (induction calls arbitrary: s)
  case (Cons c calls)
  obtain now draw op where c: "c = (now, draw, op)" by (cases c)
  obtain res s1 where r: "authCall D L cfg now draw op s = (res, s1)" by fastforce
  from auth_on [OF assms Cons.prems(1) r] Cons.prems(2) Cons.IH [of s1] show ?case by (simp add: c r)
qed simp

text \<open>C27: A password logs in exactly its own account. If an account stores a password hash and a salt,
  then after any sequence of registrations, logins, Google logins and refreshes by anybody, a
  password login for it is refused with the invalid-password exception, changing no account or
  session, exactly when the salted hash of the given password differs from the stored one; and
  otherwise it signs that user in, failing only if the refresh token exceeds the 500 characters of
  its column.\<close>

theorem password_decides_login:
  assumes "orm D abst" and "token_lib L lifetime" and "authGood (abst s)"
    and "credOf (abst s) (reqUid dto) = Some (pw, salt)"
    and "login D L cfg now draw dto (authCalls D L cfg calls s) = (res, s')"
  shows "if hashingPassword L (reqPassword dto) salt \<noteq> pw
    then res = Inl AuthInvalidPasswordException \<and>
      userAuths (abst s') = userAuths (abst (authCalls D L cfg calls s))
    else (\<exists>tok role. res = Inr tok \<and>
        signedIn L cfg now (reqUid dto) role tok (abst (authCalls D L cfg calls s)) (abst s')) \<or>
      res = Inl tooLong \<and> longToken L cfg now (reqUid dto)"
proof -
  have "hasAuth (abst s) (reqUid dto)" using assms(4) credOf_None [of "abst s" "reqUid dto"] by auto
  from authCalls_keep [OF assms(1-3) this, of cfg calls] assms(4)
  have g: "authGood (abst (authCalls D L cfg calls s))"
    "credOf (abst (authCalls D L cfg calls s)) (reqUid dto) = Some (pw, salt)" by simp_all
  from login_step [OF assms(2) g(1) sim_apply [OF orm.sim_userAuth(5) [OF assms(1)] assms(5)]] g(2)
  show ?thesis by (cases res; cases "hashingPassword L (reqPassword dto) salt = pw") auto
qed


lemma signedIn_fits:
  assumes "signedIn L cfg now uid role tok db db'" and "authGood db'"
  shows "length (refreshToken tok) \<le> 500"
proof -
  from assms(1) have "sessionOfUid db' uid = Some \<lparr>seUid = uid, seRefreshToken = refreshToken tok, seUserRole = role\<rparr>"
    by (simp add: signedIn_def)
  then obtain r where "r \<in> set (userAuths db')" "uaRefreshToken r = refreshToken tok"
    by (auto simp: sessionOfUid_def sessionOf_def dest: find_Some_key)
  with assms(2) show ?thesis by (auto simp: authGood_def list_all_iff fitsUserAuth_def)
qed


text \<open>An account made by a Google login has no password. After a first Google login that created
  the account, and any further requests, a password login for it is always refused with the
  invalid-password exception, whatever the password.\<close>

lemma social_account_refuses_passwords:
  assumes "orm D abst" and "token_lib L lifetime" and "authGood (abst s)"
    and "\<not> hasAuth (abst s) uid"
    and "googleOauthLogin D L cfg now draw odto s = (Inr tok, s1)"
    and "decodeCredentialToken L cfg now (credentialToken odto) = Inr (Some uid)"
  shows "fst (login D L cfg now' draw' \<lparr>reqUid = uid, reqPassword = pw\<rparr> (authCalls D L cfg calls s1)) =
    Inl AuthInvalidPasswordException"
proof -
  from oauth_step [OF assms(2,3) sim_apply [OF orm.sim_userAuth(6) [OF assms(1)] assms(5)]] assms(4,6)
  have g: "authGood (abst s1)" "hasAuth (abst s1) uid"
    "credOf (abst s1) = credOf (abst s) \<or> credOf (abst s1) = (credOf (abst s))(uid \<mapsto> (''-'', ''-''))"
    by (auto split: if_splits)
  have c: "credOf (abst s1) uid = Some (''-'', ''-'')"
    using g credOf_None [of "abst s1" uid] credOf_None [of "abst s" uid] assms(4) by auto
  let ?dto = "\<lparr>reqUid = uid, reqPassword = pw\<rparr>"
  obtain res s2 where r: "login D L cfg now' draw' ?dto (authCalls D L cfg calls s1) = (res, s2)" by fastforce
  from authCalls_keep [OF assms(1,2) g(1,2), of cfg calls] c
  have k: "authGood (abst (authCalls D L cfg calls s1))"
    "credOf (abst (authCalls D L cfg calls s1)) uid = Some (''-'', ''-'')" by simp_all
  have "hashingPassword L pw ''-'' \<noteq> ''-''"
    using hash_length [OF assms(2), of pw "''-''"] by (auto dest: arg_cong [of _ _ length])
  with login_step [OF assms(2) k(1) sim_apply [OF orm.sim_userAuth(5) [OF assms(1)] r]] k(2) r
  show ?thesis by simp
qed

section \<open>Instances\<close>

definition demoCfg :: authConfig where
  "demoCfg = \<lparr>pkSecretKey = ''pk'', jwtSecretKey = ''jk'', jwtIssuer = ''blog'',
     accessTokenExpireTime = ''15m'', refreshTokenExpireTime = ''1209600s'', googleClientId = ''g''\<rparr>"

lemma demoDb_good [simp]: "authGood demoDb"
  unfolding authGood_def by (intro conjI demoDb_schemaOk)
    (simp_all add: sessionFresh_def demoDb_def demoAuth_def fitsUserAuth_def)

definition demoJoin :: UserAuthRequestDto where
  "demoJoin = \<lparr>reqUid = ''c'', reqPassword = ''pw''\<rparr>"

lemma demo_join_runs:
  obtains tok s' where
    "createNewUser sqlDb (toyLibs 0) demoCfg 5000 0 demoJoin demoDb = (Inr tok, s')"
    "CHR '' '' \<notin> set (accessToken tok)"
proof -
  have sp: "CHR '' '' \<notin> set (showNat n)" for n using showNat_digits [of "CHR '' ''" n] by (auto simp: isDigit_def)
  have l: "length (showNat 5000) = 4" "length (showNat 13) = 2" by (simp_all add: showNat.simps)
  have e: "encodeURIComponent (aesEncrypt toyAes d ''c'' ''pk'') = ''pkc''" for d
    by (simp add: toyAes_def escapeChar_def encodeURIComponent_def encodeChar_def isUnreserved_def)
  have "\<exists>tok s'. createNewUser sqlDb (toyLibs 0) demoCfg 5000 0 demoJoin demoDb = (Inr tok, s') \<and>
      CHR '' '' \<notin> set (accessToken tok)"
    using l sp
    by (simp add: createNewUser_def userAuthRepo_defs demoJoin_def sqlExistUserAuth_def bindR_def hasAuth_def
        demoDb_def demoAuth_def Let_def sqlInsertUserAuth_def fitsUserAuth_def toUserAuthEntity_def
        userAuthDaoFrom_def hashingPassword_def numeral_3_eq_3 toyLibs_def)
      (simp add: jwtCreate_def generateToken_def bindR_def encryptPrimaryKey_def demoCfg_def e userAuthRepo_defs
        sqlRemoveCached_def sqlUpdateUserAuth_def Let_def fitsUserAuth_def setSession_def)
  then show thesis using that by blast
qed

theorem newest_refresh_token_only_witness:
  "\<exists>tok s' role. createNewUser sqlDb (toyLibs 0) demoCfg 5000 0 demoJoin demoDb = (Inr tok, s') \<and>
     fst (verifyRefreshToken sqlDb (toyLibs 0) demoCfg 6000 (Some (refreshToken tok)) s') =
       Inr (Inr \<lparr>seUid = ''c'', seRefreshToken = refreshToken tok, seUserRole = role\<rparr>)"
proof -
  obtain tok s' where r: "createNewUser sqlDb (toyLibs 0) demoCfg 5000 0 demoJoin demoDb = (Inr tok, s')"
    by (rule demo_join_runs)
  from newest_refresh_token_only [OF sql.orm_axioms toyl.token_lib_axioms demoDb_good,
      of 0 demoCfg 5000 0 "Join demoJoin" tok s' 6000] r
  have "\<exists>role. fst (verifyRefreshToken sqlDb (toyLibs 0) demoCfg 6000 (Some (refreshToken tok)) s') =
      Inr (Inr \<lparr>seUid = ''c'', seRefreshToken = refreshToken tok, seUserRole = role\<rparr>)"
    by (auto simp: demoJoin_def demoCfg_def)
  with r show ?thesis by blast
qed

lemma issued_toy_length: "issued (toyLibs pad) cfg now uid ex tok \<Longrightarrow> pad < length tok"
  by (auto simp: issued_def toyLibs_def)

theorem password_decides_login_witness:
  "fst (login sqlDb (toyLibs 0) demoCfg 7000 0 \<lparr>reqUid = ''a'', reqPassword = ''guess''\<rparr>
     (authCalls sqlDb (toyLibs 0) demoCfg [(5000, 0, Join demoJoin)] demoDb)) = Inl AuthInvalidPasswordException"
proof -
  let ?dto = "\<lparr>reqUid = ''a'', reqPassword = ''guess''\<rparr>"
  obtain res s' where r: "login sqlDb (toyLibs 0) demoCfg 7000 0 ?dto
      (authCalls sqlDb (toyLibs 0) demoCfg [(5000, 0, Join demoJoin)] demoDb) = (res, s')" by fastforce
  have "credOf demoDb (reqUid ?dto) = Some (''p'', ''s'')" by (simp add: credOf_def demoDb_def demoAuth_def)
  moreover have "hashingPassword (toyLibs 0) ''guess'' ''s'' \<noteq> ''p''"
    using hash_length [OF toyl.token_lib_axioms, of 0 "''guess''" "''s''"] by (auto dest: arg_cong [of _ _ length])
  ultimately show ?thesis
    using password_decides_login [OF sql.orm_axioms toyl.token_lib_axioms demoDb_good _ r] r by simp
qed



end
