(* ===== verification/Idempotency.thy ===== *)
theory Idempotency
  imports Redis
begin

text \<open>
  The store of idempotency records (\<open>idempotency/idempotency.service.ts\<close>): record shape, key
  construction, the acquiring script and the two completions; the interface through which the
  interceptor uses it, with its laws, and the proof that the service over any Redis server
  meets them.
\<close>

section \<open>Records\<close>

text \<open>JSON values, as far as response bodies need them (numbers are integral).\<close>

datatype json =
    JNull
  | JBool bool
  | JNum int
  | JStr string
  | JArr "json list"
  | JObj "(string \<times> json) list"

datatype IdempotencyState = Pending | Completed

text \<open>
  An optional property that is absent is \<open>None\<close>. Redis holds the JSON text of the record; the
  model stores the record itself, since \<open>JSON.parse\<close> after \<open>JSON.stringify\<close> gives back the same
  properties, absent ones staying absent.
\<close>

record IdempotencyRecord =
  state :: IdempotencyState
  recMethod :: string
  recPath :: string
  processedAt :: string
  statusCode :: "int option"
  responseBody :: "json option"
  failed :: "bool option"
  recErrorCode :: "int option"
  recMessage :: "string option"

text \<open>What \<open>new Date()\<close> yields: the instant in milliseconds and its ISO text.\<close>

record instant =
  ms :: nat
  isoText :: string

section \<open>The service\<close>

definition TTL_SECONDS :: nat where
  "TTL_SECONDS = 86400"

definition TTL_MS :: nat where
  "TTL_MS = 1000 * TTL_SECONDS"

definition buildKey :: "string \<Rightarrow> string \<Rightarrow> string" where
  "buildKey userId key = ''idempotency:'' @ userId @ '':'' @ key"

definition SET_PENDING_SCRIPT ::
  "('r, IdempotencyRecord, 'z) redis_scheme \<Rightarrow> nat \<Rightarrow> string \<Rightarrow> IdempotencyRecord \<Rightarrow> nat \<Rightarrow>
   'r \<Rightarrow> int list \<times> 'r" where
  "SET_PENDING_SCRIPT R t k v secs r =
     (case callSetNxEx R r t k v secs of
        (True, r') \<Rightarrow> ([1], r')
      | (False, r') \<Rightarrow> ([0], r'))"

definition pendingRecord :: "string \<Rightarrow> string \<Rightarrow> instant \<Rightarrow> IdempotencyRecord" where
  "pendingRecord method path now =
     \<lparr>state = Pending, recMethod = method, recPath = path, processedAt = isoText now,
      statusCode = None, responseBody = None, failed = None,
      recErrorCode = None, recMessage = None\<rparr>"

definition completedRecord ::
  "string \<Rightarrow> string \<Rightarrow> instant \<Rightarrow> int \<Rightarrow> json option \<Rightarrow> IdempotencyRecord" where
  "completedRecord method path now code body =
     \<lparr>state = Completed, recMethod = method, recPath = path, processedAt = isoText now,
      statusCode = Some code, responseBody = body, failed = None,
      recErrorCode = None, recMessage = None\<rparr>"

definition failedRecord ::
  "string \<Rightarrow> string \<Rightarrow> instant \<Rightarrow> int \<Rightarrow> string \<Rightarrow> IdempotencyRecord" where
  "failedRecord method path now code msg =
     \<lparr>state = Completed, recMethod = method, recPath = path, processedAt = isoText now,
      statusCode = None, responseBody = None, failed = Some True,
      recErrorCode = Some code, recMessage = Some msg\<rparr>"

definition idemGet ::
  "('r, IdempotencyRecord, 'z) redis_scheme \<Rightarrow> instant \<Rightarrow> string \<Rightarrow> string \<Rightarrow>
   ('r, exn, IdempotencyRecord option) run" where
  "idemGet R now userId key r = (redisGet R r (ms now) (buildKey userId key), r)"

definition setPending ::
  "('r, IdempotencyRecord, 'z) redis_scheme \<Rightarrow> instant \<Rightarrow> string \<Rightarrow> string \<Rightarrow> string \<Rightarrow> string \<Rightarrow>
   ('r, exn, bool) run" where
  "setPending R now userId key method path =
     bindR (redisEval R
              (SET_PENDING_SCRIPT R (ms now) (buildKey userId key)
                 (pendingRecord method path now) TTL_SECONDS))
       (\<lambda>acquired. returnR (acquired = [1]))"

definition setCompleted ::
  "('r, IdempotencyRecord, 'z) redis_scheme \<Rightarrow> instant \<Rightarrow> string \<Rightarrow> string \<Rightarrow> string \<Rightarrow> string \<Rightarrow>
   int \<Rightarrow> json option \<Rightarrow> ('r, exn, unit) run" where
  "setCompleted R now userId key method path code body r =
     redisSetEx R r (ms now) (buildKey userId key)
       (completedRecord method path now code body) TTL_SECONDS"

definition setCompletedFailure ::
  "('r, IdempotencyRecord, 'z) redis_scheme \<Rightarrow> instant \<Rightarrow> string \<Rightarrow> string \<Rightarrow> string \<Rightarrow> string \<Rightarrow>
   int \<Rightarrow> string \<Rightarrow> ('r, exn, unit) run" where
  "setCompletedFailure R now userId key method path code msg r =
     redisSetEx R r (ms now) (buildKey userId key)
       (failedRecord method path now code msg) TTL_SECONDS"

text \<open>The injected service object.\<close>

record 'r idempotencyService =
  svcGet :: "instant \<Rightarrow> string \<Rightarrow> string \<Rightarrow> ('r, exn, IdempotencyRecord option) run"
  svcSetPending :: "instant \<Rightarrow> string \<Rightarrow> string \<Rightarrow> string \<Rightarrow> string \<Rightarrow> ('r, exn, bool) run"
  svcSetCompleted ::
    "instant \<Rightarrow> string \<Rightarrow> string \<Rightarrow> string \<Rightarrow> string \<Rightarrow> int \<Rightarrow> json option \<Rightarrow> ('r, exn, unit) run"
  svcSetCompletedFailure ::
    "instant \<Rightarrow> string \<Rightarrow> string \<Rightarrow> string \<Rightarrow> string \<Rightarrow> int \<Rightarrow> string \<Rightarrow> ('r, exn, unit) run"

definition IdempotencyService ::
  "('r, IdempotencyRecord, 'z) redis_scheme \<Rightarrow> 'r idempotencyService" where
  "IdempotencyService R =
     \<lparr>svcGet = idemGet R, svcSetPending = setPending R,
      svcSetCompleted = setCompleted R, svcSetCompletedFailure = setCompletedFailure R\<rparr>"

lemma IdempotencyService_sel [simp]:
  "svcGet (IdempotencyService R) = idemGet R"
  "svcSetPending (IdempotencyService R) = setPending R"
  "svcSetCompleted (IdempotencyService R) = setCompleted R"
  "svcSetCompletedFailure (IdempotencyService R) = setCompletedFailure R"
  by (simp_all add: IdempotencyService_def)

lemma record_shapes [simp]:
  "state (pendingRecord m p n) = Pending"
  "recMethod (pendingRecord m p n) = m" "recPath (pendingRecord m p n) = p"
  "state (completedRecord m p n c b) = Completed"
  "recMethod (completedRecord m p n c b) = m" "recPath (completedRecord m p n c b) = p"
  "failed (completedRecord m p n c b) = None"
  "responseBody (completedRecord m p n c b) = b"
  "statusCode (completedRecord m p n c b) = Some c"
  "state (failedRecord m p n e g) = Completed"
  "recMethod (failedRecord m p n e g) = m" "recPath (failedRecord m p n e g) = p"
  "failed (failedRecord m p n e g) = Some True"
  "recErrorCode (failedRecord m p n e g) = Some e" "recMessage (failedRecord m p n e g) = Some g"
  by (simp_all add: pendingRecord_def completedRecord_def failedRecord_def)

section \<open>The interface of the interceptor\<close>

text \<open>
  What the interceptor needs of the store: \<open>st r t uid key\<close> is the record visible at instant
  \<open>t\<close>. The laws hold for keys accepted by \<open>valid\<close>; only for these are the entries of different
  users and keys independent. A write that rejects either happened or did not.
\<close>

definition storeUpd ::
  "(nat \<Rightarrow> string \<Rightarrow> string \<Rightarrow> IdempotencyRecord option) \<Rightarrow> (string \<Rightarrow> bool) \<Rightarrow> nat \<Rightarrow> string \<Rightarrow>
   string \<Rightarrow> IdempotencyRecord \<Rightarrow> (nat \<Rightarrow> string \<Rightarrow> string \<Rightarrow> IdempotencyRecord option) \<Rightarrow> bool" where
  "storeUpd old valid t uid key rec new \<longleftrightarrow>
     (\<forall>t'. new t' uid key = (if t' < t + TTL_MS then Some rec else None)) \<and>
     (\<forall>t' u k. valid k \<and> (u, k) \<noteq> (uid, key) \<longrightarrow> new t' u k = old t' u k)"

locale idem_service =
  fixes S :: "'r idempotencyService"
    and st :: "'r \<Rightarrow> nat \<Rightarrow> string \<Rightarrow> string \<Rightarrow> IdempotencyRecord option"
    and valid :: "string \<Rightarrow> bool"
  assumes get_state: "svcGet S now uid key r = (res, r') \<Longrightarrow> r' = r"
    and get_value: "svcGet S now uid key r = (Inr x, r') \<Longrightarrow> x = st r (ms now) uid key"
    and pending_iff: "svcSetPending S now uid key m p r = (Inr b, r') \<Longrightarrow>
      b = (st r (ms now) uid key = None)"
    and pending_won: "valid key \<Longrightarrow> svcSetPending S now uid key m p r = (Inr True, r') \<Longrightarrow>
      storeUpd (st r) valid (ms now) uid key (pendingRecord m p now) (st r')"
    and pending_lost: "svcSetPending S now uid key m p r = (Inr False, r') \<Longrightarrow> st r' = st r"
    and pending_err: "valid key \<Longrightarrow> svcSetPending S now uid key m p r = (Inl e, r') \<Longrightarrow>
      st r' = st r \<or> st r (ms now) uid key = None \<and>
        storeUpd (st r) valid (ms now) uid key (pendingRecord m p now) (st r')"
    and completed_ok: "valid key \<Longrightarrow> svcSetCompleted S now uid key m p c b' r = (Inr u, r') \<Longrightarrow>
      storeUpd (st r) valid (ms now) uid key (completedRecord m p now c b') (st r')"
    and completed_err: "valid key \<Longrightarrow> svcSetCompleted S now uid key m p c b' r = (Inl e, r') \<Longrightarrow>
      st r' = st r \<or>
      storeUpd (st r) valid (ms now) uid key (completedRecord m p now c b') (st r')"
    and failure_ok: "valid key \<Longrightarrow> svcSetCompletedFailure S now uid key m p c g r = (Inr u, r') \<Longrightarrow>
      storeUpd (st r) valid (ms now) uid key (failedRecord m p now c g) (st r')"
    and failure_err: "valid key \<Longrightarrow> svcSetCompletedFailure S now uid key m p c g r = (Inl e, r') \<Longrightarrow>
      st r' = st r \<or>
      storeUpd (st r) valid (ms now) uid key (failedRecord m p now c g) (st r')"

section \<open>The service provides the interface\<close>

definition idemView ::
  "('r \<Rightarrow> string \<Rightarrow> IdempotencyRecord entry option) \<Rightarrow>
   'r \<Rightarrow> nat \<Rightarrow> string \<Rightarrow> string \<Rightarrow> IdempotencyRecord option" where
  "idemView ent r t uid key = live (ent r) t (buildKey uid key)"

definition noColon :: "string \<Rightarrow> bool" where
  "noColon key \<longleftrightarrow> CHR '':'' \<notin> set key"

lemma buildKey_inject:
  "noColon k \<Longrightarrow> noColon k' \<Longrightarrow> buildKey u k = buildKey u' k' \<longleftrightarrow> u = u' \<and> k = k'"
  using append_sep_inject [of "CHR '':''" k k' "''idempotency:'' @ u" "''idempotency:'' @ u'"]
  by (simp add: buildKey_def noColon_def)

lemma idemView_cong: "ent r' = ent r \<Longrightarrow> idemView ent r' = idemView ent r"
  by (intro ext) (simp add: idemView_def)

lemma storeUpd_idemView:
  assumes "noColon key" and "ent r' = (ent r)(buildKey uid key \<mapsto> (rec, Some (t + 1000 * TTL_SECONDS)))"
  shows "storeUpd (idemView ent r) noColon t uid key rec (idemView ent r')"
  unfolding storeUpd_def
proof (intro conjI allI impI)
  fix t' show "idemView ent r' t' uid key = (if t' < t + TTL_MS then Some rec else None)"
    by (simp add: idemView_def assms(2) TTL_MS_def)
next
  fix t' u k assume "noColon k \<and> (u, k) \<noteq> (uid, key)"
  then have "buildKey u k \<noteq> buildKey uid key"
    using assms(1) by (auto simp: buildKey_inject)
  then show "idemView ent r' t' u k = idemView ent r t' u k"
    by (simp add: idemView_def assms(2))
qed

locale redis_records = redis_server R ent
  for R :: "('r, IdempotencyRecord, 'z) redis_scheme" and ent
begin

lemma script_pending:
  assumes "SET_PENDING_SCRIPT R t k v secs r = (ns, r')"
  shows "(ns = [1]) = (live (ent r) t k = None)"
    and "ent r' = (if ns = [1] then (ent r)(k \<mapsto> (v, Some (t + 1000 * secs))) else ent r)"
proof -
  obtain b r1 where c: "callSetNxEx R r t k v secs = (b, r1)" by fastforce
  from assms c have "ns = (if b then [1] else [0]) \<and> r' = r1"
    by (auto simp: SET_PENDING_SCRIPT_def split: if_splits bool.splits)
  with setnx_acquires [OF c] setnx_state [OF c]
  show "(ns = [1]) = (live (ent r) t k = None)"
    and "ent r' = (if ns = [1] then (ent r)(k \<mapsto> (v, Some (t + 1000 * secs))) else ent r)"
    by (auto split: if_splits)
qed

lemma setPending_Inr:
  assumes "setPending R now uid key m p r = (Inr b, r')"
  shows "b = (live (ent r) (ms now) (buildKey uid key) = None)"
    and "ent r' = (if b then (ent r)(buildKey uid key \<mapsto>
           (pendingRecord m p now, Some (ms now + 1000 * TTL_SECONDS))) else ent r)"
proof -
  let ?f = "SET_PENDING_SCRIPT R (ms now) (buildKey uid key) (pendingRecord m p now) TTL_SECONDS"
  from assms obtain ns where e: "redisEval R ?f r = (Inr ns, r')" and b: "b = (ns = [1])"
    unfolding setPending_def by (elim bindR_InrE) simp
  from eval_ok [OF e] have "?f r = (ns, r')" by simp
  from script_pending [OF this] b
  show "b = (live (ent r) (ms now) (buildKey uid key) = None)"
    and "ent r' = (if b then (ent r)(buildKey uid key \<mapsto>
           (pendingRecord m p now, Some (ms now + 1000 * TTL_SECONDS))) else ent r)"
    by simp_all
qed

lemma setPending_Inl:
  assumes "setPending R now uid key m p r = (Inl e, r')"
  shows "ent r' = ent r \<or> live (ent r) (ms now) (buildKey uid key) = None \<and>
    ent r' = (ent r)(buildKey uid key \<mapsto> (pendingRecord m p now, Some (ms now + 1000 * TTL_SECONDS)))"
proof -
  let ?f = "SET_PENDING_SCRIPT R (ms now) (buildKey uid key) (pendingRecord m p now) TTL_SECONDS"
  from assms have "redisEval R ?f r = (Inl e, r')"
    by (auto simp: setPending_def bindR_def split: prod.splits sum.splits)
  from eval_err [OF this] show ?thesis
  proof
    assume "r' = snd (?f r)"
    then have "?f r = (fst (?f r), r')" by simp
    from script_pending [OF this] show ?thesis by (auto split: if_splits)
  qed simp
qed

end

sublocale redis_records \<subseteq> idem: idem_service "IdempotencyService R" "idemView ent" noColon
proof unfold_locales
  fix now uid key r res r' assume "svcGet (IdempotencyService R) now uid key r = (res, r')"
  then show "r' = r" by (simp add: idemGet_def)
next
  fix now uid key r x r' assume "svcGet (IdempotencyService R) now uid key r = (Inr x, r')"
  then show "x = idemView ent r (ms now) uid key"
    by (auto simp: idemGet_def idemView_def dest: get_ok)
next
  fix now uid key m p r b r'
  assume "svcSetPending (IdempotencyService R) now uid key m p r = (Inr b, r')"
  then show "b = (idemView ent r (ms now) uid key = None)"
    by (auto simp: idemView_def dest: setPending_Inr)
next
  fix now uid key m p r r' assume k: "noColon key"
    and "svcSetPending (IdempotencyService R) now uid key m p r = (Inr True, r')"
  then show "storeUpd (idemView ent r) noColon (ms now) uid key (pendingRecord m p now) (idemView ent r')"
    by (auto intro!: storeUpd_idemView [OF k] dest: setPending_Inr(2))
next
  fix now uid key m p r r'
  assume "svcSetPending (IdempotencyService R) now uid key m p r = (Inr False, r')"
  then show "idemView ent r' = idemView ent r"
    by (auto intro!: idemView_cong dest: setPending_Inr(2))
next
  fix now uid key m p r e r' assume k: "noColon key"
    and "svcSetPending (IdempotencyService R) now uid key m p r = (Inl e, r')"
  then show "idemView ent r' = idemView ent r \<or> idemView ent r (ms now) uid key = None \<and>
    storeUpd (idemView ent r) noColon (ms now) uid key (pendingRecord m p now) (idemView ent r')"
    using storeUpd_idemView [OF k, of ent r' r uid "pendingRecord m p now" "ms now"]
    by (auto simp: idemView_def [of _ r] dest: idemView_cong dest!: setPending_Inl)
next
  fix now uid key m p c b r u r' assume k: "noColon key"
    and "svcSetCompleted (IdempotencyService R) now uid key m p c b r = (Inr u, r')"
  then show "storeUpd (idemView ent r) noColon (ms now) uid key (completedRecord m p now c b) (idemView ent r')"
    by (auto simp: setCompleted_def intro!: storeUpd_idemView [OF k] dest: setex_ok)
next
  fix now uid key m p c b r e r' assume k: "noColon key"
    and "svcSetCompleted (IdempotencyService R) now uid key m p c b r = (Inl e, r')"
  then show "idemView ent r' = idemView ent r \<or>
    storeUpd (idemView ent r) noColon (ms now) uid key (completedRecord m p now c b) (idemView ent r')"
    using storeUpd_idemView [OF k, of ent r' r uid "completedRecord m p now c b" "ms now"]
    by (auto simp: setCompleted_def dest: idemView_cong dest!: setex_err)
next
  fix now uid key m p c g r u r' assume k: "noColon key"
    and "svcSetCompletedFailure (IdempotencyService R) now uid key m p c g r = (Inr u, r')"
  then show "storeUpd (idemView ent r) noColon (ms now) uid key (failedRecord m p now c g) (idemView ent r')"
    by (auto simp: setCompletedFailure_def intro!: storeUpd_idemView [OF k] dest: setex_ok)
next
  fix now uid key m p c g r e r' assume k: "noColon key"
    and "svcSetCompletedFailure (IdempotencyService R) now uid key m p c g r = (Inl e, r')"
  then show "idemView ent r' = idemView ent r \<or>
    storeUpd (idemView ent r) noColon (ms now) uid key (failedRecord m p now c g) (idemView ent r')"
    using storeUpd_idemView [OF k, of ent r' r uid "failedRecord m p now c g" "ms now"]
    by (auto simp: setCompletedFailure_def dest: idemView_cong dest!: setex_err)
qed

context redis_records
begin

lemma provides_service: "idem_service (IdempotencyService R) (idemView ent) noColon"
  by (rule idem.idem_service_axioms)

end

interpretation memr: redis_records memRedis "\<lambda>m. m"
  by (rule redis_records.intro) (rule mem.redis_server_axioms)

section \<open>Sequences of operations on one key\<close>

text \<open>
  The state machine of the store (absent, pending, completed) under arbitrary sequences of the
  four service calls, failing calls included.
\<close>

datatype svcOp =
    OpGet instant
  | OpSetPending instant string string
  | OpSetCompleted instant string string int "json option"
  | OpSetCompletedFailure instant string string int string

fun opTime :: "svcOp \<Rightarrow> nat" where
  "opTime (OpGet n) = ms n"
| "opTime (OpSetPending n _ _) = ms n"
| "opTime (OpSetCompleted n _ _ _ _) = ms n"
| "opTime (OpSetCompletedFailure n _ _ _ _) = ms n"

fun svcApply :: "'r idempotencyService \<Rightarrow> string \<Rightarrow> string \<Rightarrow> svcOp \<Rightarrow> 'r \<Rightarrow> 'r" where
  "svcApply S uid key (OpGet n) r = snd (svcGet S n uid key r)"
| "svcApply S uid key (OpSetPending n m p) r = snd (svcSetPending S n uid key m p r)"
| "svcApply S uid key (OpSetCompleted n m p c b) r = snd (svcSetCompleted S n uid key m p c b r)"
| "svcApply S uid key (OpSetCompletedFailure n m p c g) r =
     snd (svcSetCompletedFailure S n uid key m p c g r)"

fun svcRun :: "'r idempotencyService \<Rightarrow> string \<Rightarrow> string \<Rightarrow> svcOp list \<Rightarrow> 'r \<Rightarrow> 'r" where
  "svcRun S uid key [] r = r"
| "svcRun S uid key (op # ops) r = svcRun S uid key ops (svcApply S uid key op r)"

definition completedUntil ::
  "('r \<Rightarrow> nat \<Rightarrow> string \<Rightarrow> string \<Rightarrow> IdempotencyRecord option) \<Rightarrow> string \<Rightarrow> string \<Rightarrow> nat \<Rightarrow> 'r \<Rightarrow> bool" where
  "completedUntil view uid key d r \<longleftrightarrow>
     (\<forall>t<d. \<exists>rec. view r t uid key = Some rec \<and> state rec = Completed)"

context idem_service
begin

lemma completedUntil_upd:
  "storeUpd (st r) valid t uid key rec (st r') \<Longrightarrow> state rec = Completed \<Longrightarrow> d \<le> t + TTL_MS \<Longrightarrow>
   completedUntil st uid key d r'"
  by (auto simp: completedUntil_def storeUpd_def)

lemma completedUntil_same: "completedUntil st uid key d r \<Longrightarrow> st r' = st r \<Longrightarrow> completedUntil st uid key d r'"
  by (simp add: completedUntil_def)

lemma completedUntil_live: "completedUntil st uid key d r \<Longrightarrow> t < d \<Longrightarrow> st r t uid key \<noteq> None"
  by (auto simp: completedUntil_def)

lemma svcApply_completed:
  assumes inv: "completedUntil st uid key d r" and key: "valid key"
    and t: "opTime op < d" "d \<le> opTime op + TTL_MS"
  shows "completedUntil st uid key d (svcApply S uid key op r)"
proof (cases op)
  case (OpGet n)
  then show ?thesis using inv get_state [of n uid key r] by (metis prod.collapse svcApply.simps(1))
next
  case (OpSetPending n m p)
  obtain res r' where w: "svcSetPending S n uid key m p r = (res, r')" by fastforce
  have some: "st r (ms n) uid key \<noteq> None" using completedUntil_live [OF inv] t OpSetPending by simp
  have "st r' = st r"
  proof (cases res)
    case (Inl e)
    with pending_err [OF key, of n uid m p r e r'] w some show ?thesis by simp
  next
    case (Inr b)
    with pending_iff [of n uid key m p r b r'] pending_lost [of n uid key m p r r'] w some
    show ?thesis by simp
  qed
  then show ?thesis using completedUntil_same [OF inv] w OpSetPending by simp
next
  case (OpSetCompleted n m p c b)
  obtain res r' where w: "svcSetCompleted S n uid key m p c b r = (res, r')" by fastforce
  have "st r' = st r \<or> storeUpd (st r) valid (ms n) uid key (completedRecord m p n c b) (st r')"
    using completed_ok [OF key, of n uid m p c b r] completed_err [OF key, of n uid m p c b r] w
    by (cases res) auto
  then show ?thesis
    using completedUntil_same [OF inv] completedUntil_upd [where t = "ms n"] w OpSetCompleted t by fastforce
next
  case (OpSetCompletedFailure n m p c g)
  obtain res r' where w: "svcSetCompletedFailure S n uid key m p c g r = (res, r')" by fastforce
  have "st r' = st r \<or> storeUpd (st r) valid (ms n) uid key (failedRecord m p n c g) (st r')"
    using failure_ok [OF key, of n uid m p c g r] failure_err [OF key, of n uid m p c g r] w
    by (cases res) auto
  then show ?thesis
    using completedUntil_same [OF inv] completedUntil_upd [where t = "ms n"] w OpSetCompletedFailure t by fastforce
qed

lemma svcRun_completed:
  "completedUntil st uid key d r \<Longrightarrow> valid key \<Longrightarrow>
   (\<And>op. op \<in> set ops \<Longrightarrow> opTime op < d \<and> d \<le> opTime op + TTL_MS) \<Longrightarrow>
   completedUntil st uid key d (svcRun S uid key ops r)"
  by (induction ops arbitrary: r) (auto intro: svcApply_completed)

end

text \<open>C23: A completion is final for 24 hours. Once \<open>setCompleted\<close> has succeeded for a key, no sequence
  of further service calls on that key within the next 24 hours, rejected calls included, makes
  the record pending or absent again before these 24 hours are over.\<close>

theorem completion_is_final:
  assumes "redis_records R ent" and "noColon key"
    and "setCompleted R n0 uid key m p c b r = (Inr (), r1)"
    and "\<forall>op \<in> set ops. ms n0 \<le> opTime op \<and> opTime op < ms n0 + 86400000"
    and "t < ms n0 + 86400000"
  shows "\<exists>rec. idemView ent (svcRun (IdempotencyService R) uid key ops r1) t uid key = Some rec \<and>
    state rec = Completed"
proof -
  note svc = redis_records.provides_service [OF assms(1)]
  have ttl: "TTL_MS = 86400000" by (simp add: TTL_MS_def TTL_SECONDS_def)
  have "completedUntil (idemView ent) uid key (ms n0 + TTL_MS) r1"
    using idem_service.completed_ok [OF svc assms(2), of n0 uid m p c b r "()" r1] assms(3)
    by (auto intro: idem_service.completedUntil_upd [OF svc])
  from idem_service.svcRun_completed [OF svc this assms(2), of ops] assms(4,5) show ?thesis
    by (auto simp: completedUntil_def ttl)
qed

theorem completion_is_final_witness:
  "\<exists>r1 rec. setCompleted memRedis \<lparr>ms = 0, isoText = ''''\<rparr> ''u'' ''k'' ''POST'' ''/p'' 201 None (\<lambda>_. None)
      = (Inr (), r1) \<and>
    idemView (\<lambda>m. m) (svcRun (IdempotencyService memRedis) ''u'' ''k''
      [OpSetPending \<lparr>ms = 7, isoText = ''''\<rparr> ''POST'' ''/p''] r1) 9 ''u'' ''k'' = Some rec \<and>
    state rec = Completed"
proof -
  obtain r1 where "setCompleted memRedis \<lparr>ms = 0, isoText = ''''\<rparr> ''u'' ''k'' ''POST'' ''/p'' 201 None
      (\<lambda>_. None) = (Inr (), r1)"
    by (simp add: setCompleted_def memRedis_def)
  with completion_is_final [OF memr.redis_records_axioms _ this,
      of "[OpSetPending \<lparr>ms = 7, isoText = ''''\<rparr> ''POST'' ''/p'']" 9]
  show ?thesis by (auto simp: noColon_def)
qed

end
