(* ===== verification/Interceptor.thy ===== *)
theory Interceptor
  imports Idempotency
begin

text \<open>
  The idempotency interceptor (\<open>interceptor/idempotency-key.interceptor.ts\<close>): header
  extraction, the UUID check, the four branches of the decision table and the caching of the
  handler's outcome, over an injected store and an arbitrary handler.
\<close>

section \<open>Request and environment\<close>

text \<open>A header is absent, a single value, or an array of values.\<close>

datatype header = Undefined | Single string | Multi "string list"

record request =
  reqMethod :: string
  reqPath :: string
  idempotencyKeyHeader :: header
  authenticatedUserHeader :: header

text \<open>
  The environment of one request: the shared store, the rest of the world (the database, which
  only the handler touches) and the response headers set so far.
\<close>

record ('r, 'w) env =
  store :: 'r
  world :: 'w
  respHeaders :: "(string \<times> string) list"

definition onStore :: "('r, exn, 'a) run \<Rightarrow> (('r, 'w) env, exn, 'a) run" where
  "onStore m e = (case m (store e) of (res, r') \<Rightarrow> (res, e\<lparr>store := r'\<rparr>))"

definition onWorld :: "('w, exn, 'a) run \<Rightarrow> (('r, 'w) env, exn, 'a) run" where
  "onWorld m e = (case m (world e) of (res, w') \<Rightarrow> (res, e\<lparr>world := w'\<rparr>))"

definition setHeader :: "string \<Rightarrow> string \<Rightarrow> (('r, 'w) env, exn, unit) run" where
  "setHeader k v e = (Inr (), e\<lparr>respHeaders := respHeaders e @ [(k, v)]\<rparr>)"

lemma onStore_apply [run_simps]:
  "onStore m e = (case m (store e) of (res, r') \<Rightarrow> (res, e\<lparr>store := r'\<rparr>))"
  by (simp add: onStore_def)

lemma onWorld_apply [run_simps]:
  "onWorld m e = (case m (world e) of (res, w') \<Rightarrow> (res, e\<lparr>world := w'\<rparr>))"
  by (simp add: onWorld_def)

lemma setHeader_apply [run_simps]:
  "setHeader k v e = (Inr (), e\<lparr>respHeaders := respHeaders e @ [(k, v)]\<rparr>)"
  by (simp add: setHeader_def)

section \<open>Constants and extraction\<close>

definition SAFE_METHODS :: "string set" where
  "SAFE_METHODS = {''GET'', ''HEAD'', ''OPTIONS'', ''TRACE''}"

definition isHex :: "char \<Rightarrow> bool" where
  "isHex c \<longleftrightarrow> isDigit c \<or> c \<in> set ''abcdefABCDEF''"

definition isVariant :: "char \<Rightarrow> bool" where
  "isVariant c \<longleftrightarrow> c \<in> set ''89abAB''"

definition uuidPattern :: "(char \<Rightarrow> bool) list" where
  "uuidPattern =
     replicate 8 isHex @ [(=) (CHR ''-'')] @ replicate 4 isHex @ [(=) (CHR ''-'')] @
     [(=) (CHR ''4'')] @ replicate 3 isHex @ [(=) (CHR ''-'')] @
     [isVariant] @ replicate 3 isHex @ [(=) (CHR ''-'')] @ replicate 12 isHex"

definition UUID_V4_REGEX :: "string \<Rightarrow> bool" where
  "UUID_V4_REGEX s \<longleftrightarrow> list_all2 (\<lambda>p c. p c) uuidPattern s"

definition firstValue :: "header \<Rightarrow> string option" where
  "firstValue h =
     (case h of
        Undefined \<Rightarrow> None
      | Single v \<Rightarrow> Some v
      | Multi vs \<Rightarrow> (case vs of [] \<Rightarrow> None | v # _ \<Rightarrow> Some v))"

definition extractKey :: "request \<Rightarrow> string option" where
  "extractKey req = firstValue (idempotencyKeyHeader req)"

definition extractAuthUserId :: "request \<Rightarrow> string option" where
  "extractAuthUserId req = firstValue (authenticatedUserHeader req)"

fun toFailure :: "exn \<Rightarrow> int \<times> string" where
  "toFailure (BaseException code msg v) = (code, msg)"
| "toFailure (HttpException status response) =
     (errorCodeNum (case HTTP_STATUS_TO_ERROR_CODE status of
                      None \<Rightarrow> COMMON_INTERNAL_ERROR
                    | Some code \<Rightarrow> code),
      extractHttpExceptionMessage response)"
| "toFailure EntityNotFoundError = (errorCodeNum COMMON_INTERNAL_ERROR, ''Internal server error'')"
| "toFailure (QueryFailedError m) = (errorCodeNum COMMON_INTERNAL_ERROR, ''Internal server error'')"
| "toFailure (OtherError n m) = (errorCodeNum COMMON_INTERNAL_ERROR, ''Internal server error'')"

section \<open>The branches\<close>

definition inProgress :: "(('r, 'w) env, exn, 'a) run" where
  "inProgress =
     bindR (setHeader ''Retry-After'' ''5'') (\<lambda>_. throwR IdempotencyInProgressException)"

text \<open>
  A record was found. The casts \<open>record.errorCode as ErrorCode\<close> and \<open>record.message as string\<close>
  are unchecked in the source; the service writes both properties into every failed record, and
  the defaults below stand for their absence.
\<close>

definition replayRecord ::
  "string \<Rightarrow> string \<Rightarrow> IdempotencyRecord \<Rightarrow> (('r, 'w) env, exn, json option) run" where
  "replayRecord method path rec =
     (if recMethod rec \<noteq> method \<or> recPath rec \<noteq> path then
        throwR (BadRequestException ''Idempotency-Key was already used for a different request.'')
      else if state rec = Pending then inProgress
      else if failed rec = Some True then
        throwR (IdempotentReplayException
                  (case recErrorCode rec of Some c \<Rightarrow> c | None \<Rightarrow> 0)
                  (case recMessage rec of Some m \<Rightarrow> m | None \<Rightarrow> ''''))
      else returnR (responseBody rec))"

text \<open>The lock is held: run the handler, record its outcome, ignore a failing record write.\<close>

definition runAndRecord ::
  "'r idempotencyService \<Rightarrow> instant \<Rightarrow> int \<Rightarrow> string \<Rightarrow> string \<Rightarrow> string \<Rightarrow> string \<Rightarrow>
   ('w, exn, json option) run \<Rightarrow> (('r, 'w) env, exn, json option) run" where
  "runAndRecord S t status uid key method path handler =
     catchR
       (bindR (onWorld handler) (\<lambda>body.
          bindR (catchR (onStore (svcSetCompleted S t uid key method path status body))
                   (\<lambda>_. returnR ()))
            (\<lambda>_. returnR body)))
       (\<lambda>err.
          bindR (catchR (onStore (svcSetCompletedFailure S t uid key method path
                                    (fst (toFailure err)) (snd (toFailure err))))
                   (\<lambda>_. returnR ()))
            (\<lambda>_. throwR err))"

text \<open>
  The interceptor. \<open>t0\<close>, \<open>t1\<close> and \<open>t2\<close> are the instants of the lookup, of the lock attempt and
  of the completion; \<open>status\<close> is \<open>response.statusCode\<close> after the handler; \<open>skip\<close> is the metadata
  the reflector finds.
\<close>

definition intercept ::
  "'r idempotencyService \<Rightarrow> bool option \<Rightarrow> request \<Rightarrow> instant \<Rightarrow> instant \<Rightarrow> instant \<Rightarrow> int \<Rightarrow>
   ('w, exn, json option) run \<Rightarrow> (('r, 'w) env, exn, json option) run" where
  "intercept S skip req t0 t1 t2 status handler =
     (if skip = Some True then onWorld handler
      else if reqMethod req \<in> SAFE_METHODS then onWorld handler
      else (case extractKey req of
        None \<Rightarrow> onWorld handler
      | Some key \<Rightarrow>
          if \<not> UUID_V4_REGEX key
          then throwR (BadRequestException ''Idempotency-Key must be a valid UUID v4.'')
          else (case extractAuthUserId req of
            None \<Rightarrow> onWorld handler
          | Some uid \<Rightarrow>
              bindR (onStore (svcGet S t0 uid key)) (\<lambda>found.
                (case found of
                  Some rec \<Rightarrow> replayRecord (reqMethod req) (reqPath req) rec
                | None \<Rightarrow>
                    bindR (onStore (svcSetPending S t1 uid key (reqMethod req) (reqPath req)))
                      (\<lambda>acquired.
                         if \<not> acquired then inProgress
                         else runAndRecord S t2 status uid key
                                (reqMethod req) (reqPath req) handler))))))"

section \<open>Keys\<close>

lemma UUID_V4_length: "UUID_V4_REGEX s \<Longrightarrow> length s = 36"
  by (auto simp: UUID_V4_REGEX_def uuidPattern_def dest: list_all2_lengthD)

lemma isHex_not_colon [simp]: "\<not> isHex (CHR '':'')"
  by (simp add: isHex_def)

lemma list_all2_no_element:
  "list_all2 (\<lambda>p c. p c) ps s \<Longrightarrow> (\<And>p. p \<in> set ps \<Longrightarrow> \<not> p c) \<Longrightarrow> c \<notin> set s"
  by (induction ps s rule: list_all2_induct) auto

lemma UUID_V4_noColon [simp]: "UUID_V4_REGEX s \<Longrightarrow> noColon s"
  unfolding UUID_V4_REGEX_def noColon_def
  by (erule list_all2_no_element) (auto simp: uuidPattern_def isVariant_def)

text \<open>A request that reaches the store: the guards of the interceptor, passed.\<close>

definition keyed :: "bool option \<Rightarrow> request \<Rightarrow> string \<Rightarrow> string \<Rightarrow> bool" where
  "keyed skip req uid key \<longleftrightarrow>
     skip \<noteq> Some True \<and> reqMethod req \<notin> SAFE_METHODS \<and> extractKey req = Some key \<and>
     UUID_V4_REGEX key \<and> extractAuthUserId req = Some uid"

lemma intercept_keyed:
  "keyed skip req uid key \<Longrightarrow>
   intercept S skip req t0 t1 t2 status handler =
     bindR (onStore (svcGet S t0 uid key)) (\<lambda>found.
       (case found of
         Some rec \<Rightarrow> replayRecord (reqMethod req) (reqPath req) rec
       | None \<Rightarrow>
           bindR (onStore (svcSetPending S t1 uid key (reqMethod req) (reqPath req)))
             (\<lambda>acquired. if \<not> acquired then inProgress
                else runAndRecord S t2 status uid key (reqMethod req) (reqPath req) handler)))"
  by (simp add: intercept_def keyed_def)


section \<open>The outcome of the handler is the outcome of the request\<close>

lemma runAndRecord_outcome:
  "fst (runAndRecord S t status uid key m p handler e) = fst (handler (world e))"
  "world (snd (runAndRecord S t status uid key m p handler e)) = snd (handler (world e))"
  "respHeaders (snd (runAndRecord S t status uid key m p handler e)) = respHeaders e"
  by (auto simp: runAndRecord_def run_simps split: prod.splits sum.splits)

text \<open>The store after a completed handler: the record write, whatever its outcome.\<close>

lemma runAndRecord_store_Inr:
  "handler (world e) = (Inr body, w') \<Longrightarrow>
   store (snd (runAndRecord S t status uid key m p handler e)) =
     snd (svcSetCompleted S t uid key m p status body (store e))"
  by (auto simp: runAndRecord_def run_simps split: prod.splits sum.splits)

lemma runAndRecord_store_Inl:
  "handler (world e) = (Inl err, w') \<Longrightarrow>
   store (snd (runAndRecord S t status uid key m p handler e)) =
     snd (svcSetCompletedFailure S t uid key m p (fst (toFailure err)) (snd (toFailure err)) (store e))"
  by (auto simp: runAndRecord_def run_simps split: prod.splits sum.splits)

section \<open>What the code relies on the store for\<close>

definition reliable :: "'r idempotencyService \<Rightarrow> bool" where
  "reliable S \<longleftrightarrow>
     (\<forall>now uid key r. \<exists>x. svcGet S now uid key r = (Inr x, r)) \<and>
     (\<forall>now uid key m p r. \<exists>b r'. svcSetPending S now uid key m p r = (Inr b, r')) \<and>
     (\<forall>now uid key m p c b r. \<exists>r'. svcSetCompleted S now uid key m p c b r = (Inr (), r')) \<and>
     (\<forall>now uid key m p c g r. \<exists>r'. svcSetCompletedFailure S now uid key m p c g r = (Inr (), r'))"

lemma reliable_mem: "reliable (IdempotencyService memRedis)"
  by (auto simp: reliable_def idemGet_def setPending_def setCompleted_def setCompletedFailure_def
      memRedis_def bindR_def SET_PENDING_SCRIPT_def split: prod.splits bool.splits)

context idem_service
begin

lemma get_reliable:
  assumes "reliable S"
  shows "svcGet S now uid key r = (Inr (st r (ms now) uid key), r)"
proof -
  from assms obtain x where "svcGet S now uid key r = (Inr x, r)"
    unfolding reliable_def by meson
  with get_value show ?thesis by blast
qed

lemma lookup_reliable:
  "reliable S \<Longrightarrow> onStore (svcGet S now uid key) e = (Inr (st (store e) (ms now) uid key), e)"
  by (simp add: onStore_def get_reliable)

text \<open>A hit is answered from the record alone.\<close>

lemma intercept_hit:
  assumes "reliable S" and "keyed skip req uid key" and "st (store e) (ms t0) uid key = Some rec"
  shows "intercept S skip req t0 t1 t2 status handler e = replayRecord (reqMethod req) (reqPath req) rec e"
  using assms by (simp add: intercept_keyed bindR_Inr [OF lookup_reliable])

lemma lock_reliable:
  assumes "reliable S" and "valid key" and "st r (ms now) uid key = None"
  obtains r' where "svcSetPending S now uid key m p r = (Inr True, r')"
    and "storeUpd (st r) valid (ms now) uid key (pendingRecord m p now) (st r')"
proof -
  from assms(1) obtain b r' where s: "svcSetPending S now uid key m p r = (Inr b, r')"
    unfolding reliable_def by meson
  with pending_iff [OF s] assms(3) have "b = True" by simp
  with s that pending_won [OF assms(2)] show ?thesis by blast
qed

text \<open>A miss runs the handler under the lock.\<close>

lemma intercept_miss:
  assumes "reliable S" and "keyed skip req uid key" and "valid key"
    and "st (store e) (ms t0) uid key = None" and "st (store e) (ms t1) uid key = None"
  obtains r' where
    "storeUpd (st (store e)) valid (ms t1) uid key
       (pendingRecord (reqMethod req) (reqPath req) t1) (st r')"
    and "intercept S skip req t0 t1 t2 status handler e =
       runAndRecord S t2 status uid key (reqMethod req) (reqPath req) handler (e\<lparr>store := r'\<rparr>)"
proof -
  from lock_reliable [OF assms(1,3,5)] obtain r' where
    l: "svcSetPending S t1 uid key (reqMethod req) (reqPath req) (store e) = (Inr True, r')"
    and u: "storeUpd (st (store e)) valid (ms t1) uid key
       (pendingRecord (reqMethod req) (reqPath req) t1) (st r')" by blast
  have "intercept S skip req t0 t1 t2 status handler e =
     runAndRecord S t2 status uid key (reqMethod req) (reqPath req) handler (e\<lparr>store := r'\<rparr>)"
    using assms(1,2,4) l
    by (simp add: intercept_keyed bindR_Inr [OF lookup_reliable])
      (simp add: bindR_def onStore_def)
  with u that show ?thesis by blast
qed

lemma storeUpd_at: "storeUpd old valid t uid key rec new \<Longrightarrow> t' < t + TTL_MS \<Longrightarrow> new t' uid key = Some rec"
  by (simp add: storeUpd_def)

lemma completed_reliable:
  assumes "reliable S" and "valid key"
  shows "storeUpd (st r) valid (ms now) uid key (completedRecord m p now c b)
    (st (snd (svcSetCompleted S now uid key m p c b r)))"
proof -
  from assms(1) obtain r' where "svcSetCompleted S now uid key m p c b r = (Inr (), r')"
    unfolding reliable_def by meson
  with completed_ok [OF assms(2) this] show ?thesis by simp
qed

lemma failure_reliable:
  assumes "reliable S" and "valid key"
  shows "storeUpd (st r) valid (ms now) uid key (failedRecord m p now c g)
    (st (snd (svcSetCompletedFailure S now uid key m p c g r)))"
proof -
  from assms(1) obtain r' where "svcSetCompletedFailure S now uid key m p c g r = (Inr (), r')"
    unfolding reliable_def by meson
  with failure_ok [OF assms(2) this] show ?thesis by simp
qed

text \<open>The two requests with one key: the second repeats the first without its handler.\<close>

lemma replay_success:
  assumes rel: "reliable S" and k: "keyed skip req uid key" and v: "valid key"
    and free: "st (store e) (ms t0) uid key = None" "st (store e) (ms t1) uid key = None"
    and run: "intercept S skip req t0 t1 t2 status handler e = (Inr body, e1)"
    and k2: "keyed skip2 req2 uid key"
    and same: "reqMethod req2 = reqMethod req" "reqPath req2 = reqPath req"
    and st2: "store e2 = store e1" and within: "ms u0 < ms t2 + TTL_MS"
  shows "intercept S skip2 req2 u0 u1 u2 status2 handler2 e2 = (Inr body, e2)"
proof -
  obtain r' where
    i: "intercept S skip req t0 t1 t2 status handler e =
       runAndRecord S t2 status uid key (reqMethod req) (reqPath req) handler (e\<lparr>store := r'\<rparr>)"
    using intercept_miss [OF rel k v free] by metis
  let ?e = "e\<lparr>store := r'\<rparr>"
  have h: "handler (world ?e) = (Inr body, snd (handler (world ?e)))"
    using runAndRecord_outcome(1) [of S t2 status uid key "reqMethod req" "reqPath req" handler ?e] run i
    by (simp add: prod_eq_iff)
  have "store e1 = snd (svcSetCompleted S t2 uid key (reqMethod req) (reqPath req) status body r')"
    using runAndRecord_store_Inr [where handler = handler and e = ?e, OF h, of S t2 status uid key "reqMethod req" "reqPath req"] run i by simp
  then have "st (store e2) (ms u0) uid key =
      Some (completedRecord (reqMethod req) (reqPath req) t2 status body)"
    using storeUpd_at [OF completed_reliable [OF rel v] within] st2 by simp
  from intercept_hit [OF rel k2 this] show ?thesis
    by (simp add: replayRecord_def same)
qed

lemma replay_failure:
  assumes rel: "reliable S" and k: "keyed skip req uid key" and v: "valid key"
    and free: "st (store e) (ms t0) uid key = None" "st (store e) (ms t1) uid key = None"
    and run: "intercept S skip req t0 t1 t2 status handler e = (Inl err, e1)"
    and k2: "keyed skip2 req2 uid key"
    and same: "reqMethod req2 = reqMethod req" "reqPath req2 = reqPath req"
    and st2: "store e2 = store e1" and within: "ms u0 < ms t2 + TTL_MS"
  shows "intercept S skip2 req2 u0 u1 u2 status2 handler2 e2 =
    (Inl (IdempotentReplayException (fst (toFailure err)) (snd (toFailure err))), e2)"
proof -
  obtain r' where
    i: "intercept S skip req t0 t1 t2 status handler e =
       runAndRecord S t2 status uid key (reqMethod req) (reqPath req) handler (e\<lparr>store := r'\<rparr>)"
    using intercept_miss [OF rel k v free] by metis
  let ?e = "e\<lparr>store := r'\<rparr>"
  have h: "handler (world ?e) = (Inl err, snd (handler (world ?e)))"
    using runAndRecord_outcome(1) [of S t2 status uid key "reqMethod req" "reqPath req" handler ?e] run i
    by (simp add: prod_eq_iff)
  have "store e1 = snd (svcSetCompletedFailure S t2 uid key (reqMethod req) (reqPath req)
      (fst (toFailure err)) (snd (toFailure err)) r')"
    using runAndRecord_store_Inl [where handler = handler and e = ?e, OF h, of S t2 status uid key "reqMethod req" "reqPath req"] run i by simp
  then have "st (store e2) (ms u0) uid key =
      Some (failedRecord (reqMethod req) (reqPath req) t2 (fst (toFailure err)) (snd (toFailure err)))"
    using storeUpd_at [OF failure_reliable [OF rel v] within] st2 by simp
  from intercept_hit [OF rel k2 this] show ?thesis
    by (simp add: replayRecord_def same)
qed

end

text \<open>
  Whatever the store does, including failing at any call, the handler runs at most once and only as
  a whole; if it runs, the request answers with its outcome.
\<close>

lemma intercept_once:
  "(fst (intercept S skip req t0 t1 t2 status handler e),
    world (snd (intercept S skip req t0 t1 t2 status handler e))) = handler (world e) \<or>
   world (snd (intercept S skip req t0 t1 t2 status handler e)) = world e"
proof (cases "\<exists>uid key. keyed skip req uid key")
  case False
  then show ?thesis
    by (auto simp: intercept_def keyed_def onWorld_def split: option.splits prod.splits)
next
  case True
  then obtain uid key where k: "keyed skip req uid key" by blast
  obtain res r1 where g: "svcGet S t0 uid key (store e) = (res, r1)" by fastforce
  obtain ok r2 where p:
    "svcSetPending S t1 uid key (reqMethod req) (reqPath req) r1 = (ok, r2)" by fastforce
  show ?thesis
    using runAndRecord_outcome [of S t2 status uid key "reqMethod req" "reqPath req" handler
        "e\<lparr>store := r2\<rparr>"]
    by (auto simp: intercept_keyed [OF k] run_simps g p replayRecord_def inProgress_def prod_eq_iff
        split: sum.splits option.splits)
qed

section \<open>Cached failures and the filters\<close>

lemma toFailure_handled:
  "isHandled err \<Longrightarrow>
   handleException (IdempotentReplayException (fst (toFailure err)) (snd (toFailure err))) =
   handleException err"
  by (cases err) (simp_all add: IdempotentReplayException_def filter_defs mapToErrorCode_def)

lemma toFailure_unhandled:
  "\<not> isHandled err \<Longrightarrow> toFailure err = (errorCodeNum COMMON_INTERNAL_ERROR, ''Internal server error'')"
  by (cases err) simp_all


section \<open>Properties\<close>

text \<open>
  The requests of the witnesses: one user, one key, one endpoint, over the expiring map.
\<close>

definition demoKey :: string where
  "demoKey = ''01234567-89ab-4cde-8f01-23456789abcd''"

definition demoReq :: request where
  "demoReq = \<lparr>reqMethod = ''POST'', reqPath = ''/posts'', idempotencyKeyHeader = Single demoKey,
     authenticatedUserHeader = Single ''a@b.c''\<rparr>"

definition demoNow :: instant where
  "demoNow = \<lparr>ms = 5, isoText = ''1970-01-01T00:00:00.005Z''\<rparr>"

definition demoEnv :: "(IdempotencyRecord memory, nat) env" where
  "demoEnv = \<lparr>store = (\<lambda>_. None), world = 0, respHeaders = []\<rparr>"

definition countingHandler :: "(nat, exn, json option) run" where
  "countingHandler w = (Inr (Some (JNum (int w))), Suc w)"

definition failingHandler :: "exn \<Rightarrow> (nat, exn, json option) run" where
  "failingHandler err w = (Inl err, Suc w)"

lemma demo_uuid [simp]: "UUID_V4_REGEX demoKey"
  by code_simp

lemma demo_keyed [simp]: "keyed None demoReq ''a@b.c'' demoKey"
  by (simp add: keyed_def demoReq_def SAFE_METHODS_def extractKey_def extractAuthUserId_def firstValue_def)

lemma demo_free [simp]: "idemView (\<lambda>m. m) (store demoEnv) t u k = None"
  by (simp add: idemView_def demoEnv_def live_def liveEntry_def)

lemma demo_world [simp]: "world demoEnv = 0"
  by (simp add: demoEnv_def)

lemma demo_miss:
  "fst (intercept (IdempotencyService memRedis) None demoReq demoNow demoNow demoNow 201 handler demoEnv)
     = fst (handler 0)"
proof -
  obtain r' where
    "intercept (IdempotencyService memRedis) None demoReq demoNow demoNow demoNow 201 handler demoEnv
     = runAndRecord (IdempotencyService memRedis) demoNow 201 ''a@b.c'' demoKey
         (reqMethod demoReq) (reqPath demoReq) handler (demoEnv\<lparr>store := r'\<rparr>)"
    using memr.idem.intercept_miss
      [OF reliable_mem demo_keyed UUID_V4_noColon [OF demo_uuid] demo_free demo_free] by metis
  then show ?thesis by (simp add: runAndRecord_outcome)
qed

definition uuidClass :: "nat \<Rightarrow> char \<Rightarrow> bool" where
  "uuidClass i =
     (if i \<in> {8, 13, 18, 23} then (=) (CHR ''-'') else if i = 14 then (=) (CHR ''4'')
      else if i = 19 then isVariant else isHex)"

lemma uuidPattern_classes: "uuidPattern = map uuidClass [0..<36]"
  by (simp add: uuidPattern_def uuidClass_def numeral_eq_Suc upt_rec)

lemma UUID_V4_classes:
  "UUID_V4_REGEX s \<longleftrightarrow> length s = 36 \<and> (\<forall>i<36. uuidClass i (s ! i))"
  by (auto simp: UUID_V4_REGEX_def list_all2_conv_all_nth uuidPattern_classes)

text \<open>The UUID v4 check accepts exactly the strings of 36 characters with dashes at positions
  8, 13, 18 and 23, the version digit 4 at position 14, a variant digit 8, 9, a or b (in either
  case) at position 19 and hexadecimal digits elsewhere.\<close>

lemma uuid_v4_shape:
  "UUID_V4_REGEX s \<longleftrightarrow> length s = 36 \<and>
     (\<forall>i<36. if i \<in> {8, 13, 18, 23} then s ! i = CHR ''-''
             else if i = 14 then s ! i = CHR ''4''
             else if i = 19 then isVariant (s ! i) else isHex (s ! i))"
proof -
  have "uuidClass i c \<longleftrightarrow> (if i \<in> {8, 13, 18, 23} then c = CHR ''-''
             else if i = 14 then c = CHR ''4'' else if i = 19 then isVariant c else isHex c)" for i c
    by (simp only: uuidClass_def split: if_split) blast
  then show ?thesis by (simp only: UUID_V4_classes)
qed

text \<open>For keys that pass the UUID check, the Redis keys of two (user, key) pairs are equal only
  if user and key are: whatever characters the user ids contain, no user can reach the entry of
  another user, and no two keys of a user share an entry.\<close>

lemma buildKey_injective:
  assumes "UUID_V4_REGEX k" and "UUID_V4_REGEX k'"
  shows "buildKey u k = buildKey u' k' \<longleftrightarrow> u = u' \<and> k = k'"
  using assms by (simp add: buildKey_inject)

text \<open>Requests that are not subject to the idempotency protocol (the route is marked to skip it,
  the method is safe, there is no key header, or the key is well formed but the request carries no
  authenticated user) run the handler exactly as if the interceptor were absent: the store is
  neither read nor written, and no header is set.\<close>

lemma intercept_bypass:
  assumes "skip = Some True \<or> reqMethod req \<in> SAFE_METHODS \<or> extractKey req = None \<or>
    (\<exists>key. extractKey req = Some key \<and> UUID_V4_REGEX key \<and> extractAuthUserId req = None)"
  shows "intercept S skip req t0 t1 t2 status handler e =
    (fst (handler (world e)), e\<lparr>world := snd (handler (world e))\<rparr>)"
  using assms by (auto simp: intercept_def onWorld_def split: prod.splits option.splits)

text \<open>A write request whose key is not a UUID v4 is refused before anything else happens: the
  reply is the bad-request failure, and store, world and headers are unchanged, with any store and
  any handler.\<close>

lemma intercept_malformed_key:
  assumes "skip \<noteq> Some True" and "reqMethod req \<notin> SAFE_METHODS"
    and "extractKey req = Some key" and "\<not> UUID_V4_REGEX key"
  shows "\<exists>err. intercept S skip req t0 t1 t2 status handler e = (Inl err, e) \<and>
    respCode (replyBody (handleException err)) = errorCodeNum COMMON_BAD_REQUEST"
  using assms
  by (simp add: intercept_def BadRequestException_def filter_defs mapToErrorCode_def
      HTTP_STATUS_TO_ERROR_CODE_def)

text \<open>A key that is reused on another endpoint (a record exists with a different method or path)
  is refused as a bad request, whether the recorded request is still pending, completed or failed;
  the handler does not run and the environment, the record included, is unchanged.\<close>

lemma intercept_conflict:
  assumes "redis_records R ent" and "reliable (IdempotencyService R)" and "keyed skip req uid key"
    and "idemView ent (store e) (ms t0) uid key = Some rec"
    and "recMethod rec \<noteq> reqMethod req \<or> recPath rec \<noteq> reqPath req"
  shows "intercept (IdempotencyService R) skip req t0 t1 t2 status handler e =
    (Inl (BadRequestException ''Idempotency-Key was already used for a different request.''), e)"
  using idem_service.intercept_hit [OF redis_records.provides_service [OF assms(1)] assms(2-4)] assms(5)
  by (simp add: replayRecord_def)

text \<open>While the first request with a key is in flight (its record is pending), a repetition on the
  same endpoint is answered with the in-progress failure, code 90009 with HTTP status 200, and a
  Retry-After header of 5 seconds; the handler does not run and the record is unchanged.\<close>

lemma intercept_in_flight:
  assumes "redis_records R ent" and "reliable (IdempotencyService R)" and "keyed skip req uid key"
    and "idemView ent (store e) (ms t0) uid key = Some rec" and "state rec = Pending"
    and "recMethod rec = reqMethod req" and "recPath rec = reqPath req"
  shows "\<exists>err. intercept (IdempotencyService R) skip req t0 t1 t2 status handler e =
      (Inl err, e\<lparr>respHeaders := respHeaders e @ [(''Retry-After'', ''5'')]\<rparr>) \<and>
    httpStatus (handleException err) = 200 \<and>
    respCode (replyBody (handleException err)) = 90009"
  using idem_service.intercept_hit [OF redis_records.provides_service [OF assms(1)] assms(2-4)] assms(5-7)
  by (simp add: replayRecord_def inProgress_def run_simps exn_defs mkBase_def filter_defs)


lemma demo_success:
  "\<exists>e1. intercept (IdempotencyService memRedis) None demoReq demoNow demoNow demoNow 201
     countingHandler demoEnv = (Inr (Some (JNum 0)), e1)"
  using demo_miss [of countingHandler] by (auto simp: countingHandler_def prod_eq_iff)

lemma demo_failure:
  "\<exists>e1. intercept (IdempotencyService memRedis) None demoReq demoNow demoNow demoNow 201
     (failingHandler err) demoEnv = (Inl err, e1)"
  using demo_miss [of "failingHandler err"] by (auto simp: failingHandler_def prod_eq_iff)






end
