(* ===== verification/AuthGuard.thy ===== *)
theory AuthGuard
  imports UserAuth Interceptor
begin

text \<open>
  Authentication of a request: the guard (\<open>auth/auth.guard.ts\<close>), which verifies both tokens and
  writes the trusted \<open>authenticatedUser\<close> header, and the parameter decorator that reads it
  (\<open>decorator/authenticated-user-validation.decorator.ts\<close>). The reflector's metadata are arguments.
\<close>

section \<open>Requests\<close>

text \<open>Headers by name, cookies as the cookie parser delivers them.\<close>

record httpRequest =
  httpMethod :: string
  httpPath :: string
  httpHeaders :: "string \<Rightarrow> header"
  httpCookies :: "string \<Rightarrow> string option"
  httpIp :: string

definition setReqHeader :: "string \<Rightarrow> header \<Rightarrow> httpRequest \<Rightarrow> httpRequest" where
  "setReqHeader name h req = req\<lparr>httpHeaders := (httpHeaders req)(name := h)\<rparr>"

text \<open>JavaScript's \<open>s.split(sep)\<close> for a separator \<open>c # cs\<close>; \<open>acc\<close> is the piece so far, reversed.\<close>

fun splitFrom :: "char \<Rightarrow> string \<Rightarrow> string \<Rightarrow> string \<Rightarrow> string list" where
  "splitFrom c cs acc [] = [rev acc]"
| "splitFrom c cs acc (x # xs) =
     (if take (Suc (length cs)) (x # xs) = c # cs
      then rev acc # splitFrom c cs [] (drop (length cs) xs)
      else splitFrom c cs (x # acc) xs)"

definition bearerPiece :: "string \<Rightarrow> string option" where
  "bearerPiece authorization =
     (let pieces = splitFrom (CHR ''B'') ''earer '' [] authorization in
      if 1 < length pieces then Some (pieces ! 1) else None)"

text \<open>Node delivers at most one \<open>authorization\<close> header.\<close>

definition authorizationOf :: "httpRequest \<Rightarrow> string" where
  "authorizationOf req = (case httpHeaders req ''authorization'' of Single s \<Rightarrow> s | _ \<Rightarrow> '''')"

section \<open>The guard\<close>

text \<open>
  The result is the decision and the request, whose headers the guard changes. \<open>pub\<close> is the class
  metadata \<open>public\<close>, \<open>roles\<close> the merged metadata \<open>roles\<close> of handler and class, if any.
\<close>

definition canActivate ::
  "('d, 'z) ormOps_scheme \<Rightarrow> libs \<Rightarrow> authConfig \<Rightarrow> nat \<Rightarrow> bool option \<Rightarrow> UserRole list option \<Rightarrow>
   httpRequest \<Rightarrow> ('d, exn, bool \<times> httpRequest) run" where
  "canActivate D L cfg now pub roles request =
     (let req = setReqHeader ''authenticatedUser'' Undefined request in
      if pub = Some True then returnR (True, req)
      else if authorizationOf req = '''' then throwR (AuthUnauthorizedException None)
      else
        bindR (verifyAccessToken D L cfg now (bearerPiece (authorizationOf req))) (\<lambda>verifyResult.
          (case verifyResult of
             Some e \<Rightarrow> throwR (AuthUnauthorizedException None)
           | None \<Rightarrow>
               bindR (verifyRefreshToken D L cfg now (httpCookies req ''refreshToken'')) (\<lambda>res.
                 (case res of
                    Inl e \<Rightarrow> throwR (AuthUnauthorizedException None)
                  | Inr ses \<Rightarrow>
                      if (case roles of None \<Rightarrow> True | Some rs \<Rightarrow> seUserRole ses \<in> set rs)
                      then returnR (True, setReqHeader ''authenticatedUser'' (Single (seUid ses)) req)
                      else returnR (False, req))))))"

text \<open>The decorator. The guard leaves no array in the header, so an array counts as absent here.\<close>

definition AuthenticatedUserValidation :: "httpRequest \<Rightarrow> exn + string" where
  "AuthenticatedUserValidation req =
     (let missing = Inl (AuthUnauthorizedException (Some ''AuthenticatedUid does not exists.'')) in
      (case httpHeaders req ''authenticatedUser'' of
         Single u \<Rightarrow> if u = '''' then missing else Inr u
       | _ \<Rightarrow> missing))"

context orm
begin

lemma sim_canActivate [sim_intros]:
  "sim abst (canActivate D L cfg now pub roles req) (canActivate sqlDb L cfg now pub roles req)"
  unfolding canActivate_def Let_def by (intro sim_intros)

end

section \<open>What the guard decides\<close>

lemma splitFrom_none: "c \<notin> set xs \<Longrightarrow> splitFrom c cs acc xs = [rev acc @ xs]"
  by (induction xs arbitrary: acc) auto

lemma splitFrom_free:
  "x \<in> set (c # cs) \<Longrightarrow> x \<notin> set xs \<Longrightarrow> splitFrom c cs acc xs = [rev acc @ xs]"
proof (induction xs arbitrary: acc)
  case (Cons y ys)
  have "x \<notin> set (take (Suc (length cs)) (y # ys))"
    using Cons.prems(2) by (meson in_set_takeD)
  with Cons.prems(1) have "take (Suc (length cs)) (y # ys) \<noteq> c # cs" by metis
  with Cons show ?case by simp
qed simp

text \<open>A token without a blank comes back from its \<open>Bearer\<close> header.\<close>

lemma bearerPiece_token: "CHR '' '' \<notin> set tok \<Longrightarrow> bearerPiece (''Bearer '' @ tok) = Some tok"
  using splitFrom_free [of "CHR '' ''" "CHR ''B''" "''earer ''" tok "[]"] by (simp add: bearerPiece_def)

text \<open>The answer to the access token, as a function of the accounts.\<close>

definition accessAnswer :: "libs \<Rightarrow> authConfig \<Rightarrow> nat \<Rightarrow> string option \<Rightarrow> dbState \<Rightarrow> bool" where
  "accessAnswer L cfg now token db \<longleftrightarrow>
     (case tokenUid L cfg now token of Inl e \<Rightarrow> False | Inr uid \<Rightarrow> hasAuth db uid)"

text \<open>The guard's decision as a function of the request and the accounts.\<close>

definition guardSpec ::
  "libs \<Rightarrow> authConfig \<Rightarrow> nat \<Rightarrow> bool option \<Rightarrow> UserRole list option \<Rightarrow> httpRequest \<Rightarrow> dbState \<Rightarrow>
   exn + bool \<times> httpRequest" where
  "guardSpec L cfg now pub roles req db =
     (let anon = setReqHeader ''authenticatedUser'' Undefined req in
      if pub = Some True then Inr (True, anon)
      else if authorizationOf req = '''' \<or>
        \<not> accessAnswer L cfg now (bearerPiece (authorizationOf req)) db
      then Inl (AuthUnauthorizedException None)
      else (case refreshAnswer L cfg now (httpCookies req ''refreshToken'') db of
          Inl e \<Rightarrow> Inl (AuthUnauthorizedException None)
        | Inr ses \<Rightarrow>
            if roles = None \<or> seUserRole ses \<in> set (the roles)
            then Inr (True, setReqHeader ''authenticatedUser'' (Single (seUid ses)) req)
            else Inr (False, anon)))"

lemma setReqHeader_simps [simp]:
  "httpHeaders (setReqHeader n h req) = (httpHeaders req)(n := h)"
  "httpCookies (setReqHeader n h req) = httpCookies req" "httpIp (setReqHeader n h req) = httpIp req"
  "httpMethod (setReqHeader n h req) = httpMethod req" "httpPath (setReqHeader n h req) = httpPath req"
  "setReqHeader n h (setReqHeader n h' req) = setReqHeader n h req"
  by (simp_all add: setReqHeader_def)

lemma authorizationOf_set [simp]:
  "authorizationOf (setReqHeader ''authenticatedUser'' h req) = authorizationOf req"
  by (simp add: authorizationOf_def)

lemma refreshAnswer_cong: "userAuths db' = userAuths db \<Longrightarrow> refreshAnswer L cfg t T db' = refreshAnswer L cfg t T db"
  unfolding refreshAnswer_def by (drule sessionOfUid_cong) (simp only:)

lemma guard_step:
  assumes ok: "authGood db" and run: "canActivate sqlDb L cfg now pub roles req db = (res, db')"
  shows "authGood db' \<and> userAuths db' = userAuths db \<and> res = guardSpec L cfg now pub roles req db"
proof (cases "pub = Some True \<or> authorizationOf req = ''''")
  case True
  with ok run show ?thesis by (auto simp: canActivate_def guardSpec_def Let_def)
next
  case False
  let ?anon = "setReqHeader ''authenticatedUser'' Undefined req"
  obtain x db1 where a: "verifyAccessToken sqlDb L cfg now (bearerPiece (authorizationOf req)) db = (x, db1)"
    by fastforce
  from verifyAccess_read [OF ok a] obtain r where va: "authGood db1" "userAuths db1 = userAuths db" "x = Inr r"
    "r = None \<longleftrightarrow> accessAnswer L cfg now (bearerPiece (authorizationOf req)) db"
    by (auto simp: accessAnswer_def split: sum.split)
  obtain y db2 where b: "verifyRefreshToken sqlDb L cfg now (httpCookies req ''refreshToken'') db1 = (y, db2)"
    by fastforce
  from verifyRefresh_read [OF va(1) b] refreshAnswer_cong [OF va(2)] va(2) have
    vr: "authGood db2" "userAuths db2 = userAuths db"
      "y = Inr (refreshAnswer L cfg now (httpCookies req ''refreshToken'') db)" by simp_all
  have c: "canActivate sqlDb L cfg now pub roles req db =
    (case r of Some e \<Rightarrow> (Inl (AuthUnauthorizedException None), db1)
     | None \<Rightarrow> (case refreshAnswer L cfg now (httpCookies req ''refreshToken'') db of
         Inl e \<Rightarrow> (Inl (AuthUnauthorizedException None), db2)
       | Inr ses \<Rightarrow> (Inr (if roles = None \<or> seUserRole ses \<in> set (the roles)
            then (True, setReqHeader ''authenticatedUser'' (Single (seUid ses)) ?anon) else (False, ?anon)), db2)))"
    using False a b va(3) vr(3)
    by (auto simp: canActivate_def Let_def bindR_def split: option.split sum.split)
  show ?thesis using run va vr False unfolding c
    by (auto simp: guardSpec_def Let_def split: option.splits sum.splits if_splits)
qed

lemma guard_on:
  assumes "orm D abst" and "authGood (abst s)" and "canActivate D L cfg now pub roles req s = (res, s')"
  shows "authGood (abst s') \<and> userAuths (abst s') = userAuths (abst s) \<and>
    res = guardSpec L cfg now pub roles req (abst s)"
  by (rule guard_step [OF assms(2) sim_apply [OF orm.sim_canActivate [OF assms(1)] assms(3)]])

text \<open>Freshly issued tokens, sent back, pass the guard while they last.\<close>

lemma tokens_pass:
  assumes "token_lib L lifetime" and "signedIn L cfg now uid role tok db db1" and "hasAuth db1 uid"
    and "CHR '' '' \<notin> set (accessToken tok)"
    and "t div 1000 < now div 1000 + lifetime (accessTokenExpireTime cfg)"
    and "t div 1000 < now div 1000 + lifetime (refreshTokenExpireTime cfg)"
    and "httpHeaders req ''authorization'' = Single (''Bearer '' @ accessToken tok)"
    and "httpCookies req ''refreshToken'' = Some (refreshToken tok)"
    and "pub \<noteq> Some True" and "roles = None \<or> role \<in> set (the roles)"
  shows "guardSpec L cfg t pub roles req db1 = Inr (True, setReqHeader ''authenticatedUser'' (Single uid) req)"
proof -
  let ?ses = "\<lparr>seUid = uid, seRefreshToken = refreshToken tok, seUserRole = role\<rparr>"
  have "tokenUid L cfg t (Some (accessToken tok)) = Inr uid" "tokenUid L cfg t (Some (refreshToken tok)) = Inr uid"
    using assms(2,5,6) by (auto simp: signedIn_def intro!: issued_valid [OF assms(1)])
  moreover have "sessionOfUid db1 uid = Some ?ses" using assms(2) by (simp add: signedIn_def)
  moreover have "authorizationOf req = ''Bearer '' @ accessToken tok" using assms(7) by (simp add: authorizationOf_def)
  moreover note bearerPiece_token [OF assms(4)]
  ultimately have "accessAnswer L cfg t (bearerPiece (authorizationOf req)) db1"
    "refreshAnswer L cfg t (httpCookies req ''refreshToken'') db1 = Inr ?ses" "authorizationOf req \<noteq> ''''"
    using assms(3,8) by (simp_all add: accessAnswer_def refreshAnswer_Inr)
  with assms(9,10) show ?thesis by (auto simp: guardSpec_def Let_def)
qed

section \<open>Properties\<close>

text \<open>C15: The identity of a request comes from its tokens only. Whatever headers the client sent, when the
  guard has decided about a request, the header \<open>authenticatedUser\<close> is either absent or the id of
  an existing user, on a non-public route, whose role the route allows and whose stored session has
  exactly the refresh token of the request's cookie; all other headers and the cookies are as the
  client sent them, and no account or session changed.\<close>

theorem identity_only_from_tokens:
  assumes "orm D abst" and "authGood (abst s)"
    and "canActivate D L cfg now pub roles req s = (Inr (pass, req'), s')"
  shows "(httpHeaders req' ''authenticatedUser'' = Undefined \<or>
      (\<exists>ses. httpHeaders req' ''authenticatedUser'' = Single (seUid ses) \<and> pass \<and> pub \<noteq> Some True \<and>
         sessionOfUid (abst s) (seUid ses) = Some ses \<and>
         httpCookies req ''refreshToken'' = Some (seRefreshToken ses) \<and>
         (roles = None \<or> seUserRole ses \<in> set (the roles)))) \<and>
    (\<forall>n. n \<noteq> ''authenticatedUser'' \<longrightarrow> httpHeaders req' n = httpHeaders req n) \<and>
    httpCookies req' = httpCookies req \<and> userAuths (abst s') = userAuths (abst s)"
proof -
  from guard_on [OF assms] have
    g: "userAuths (abst s') = userAuths (abst s)" "guardSpec L cfg now pub roles req (abst s) = Inr (pass, req')"
    by simp_all
  then show ?thesis
    by (auto simp: guardSpec_def Let_def refreshAnswer_Inr split: if_splits sum.splits)
qed

text \<open>Only public routes are open. On a route that is not public the guard never lets a request pass
  without a valid access token for an existing account and a valid refresh token that is the stored
  one of its user: it throws the unauthorized exception, which the client sees with code 10001 and
  HTTP status 200, or, when only the role is not allowed, answers no.\<close>

lemma unauthenticated_requests_refused:
  assumes "orm D abst" and "authGood (abst s)" and "pub \<noteq> Some True"
    and "canActivate D L cfg now pub roles req s = (res, s')"
    and "\<not> accessAnswer L cfg now (bearerPiece (authorizationOf req)) (abst s) \<or>
      (\<forall>ses. refreshAnswer L cfg now (httpCookies req ''refreshToken'') (abst s) = Inr ses \<longrightarrow>
         roles \<noteq> None \<and> seUserRole ses \<notin> set (the roles))"
  shows "case res of
      Inl e \<Rightarrow> e = AuthUnauthorizedException None \<and> httpStatus (handleException e) = 200 \<and>
        respCode (replyBody (handleException e)) = 10001
    | Inr (pass, req') \<Rightarrow> \<not> pass \<and> httpHeaders req' ''authenticatedUser'' = Undefined"
  using guard_on [OF assms(1,2,4)] assms(3,5)
  by (auto simp: guardSpec_def Let_def exn_defs mkBase_def filter_defs split: sum.splits if_splits)

text \<open>Signing in gives access. After any successful sign-in, while both lifetimes last, a request with
  the access token in its authorization header and the refresh token in its cookie passes the guard
  of every route that allows the user's role, as the user who signed in.\<close>

lemma sign_in_gives_access:
  assumes "orm D abst" and "token_lib L lifetime" and "authGood (abst s)"
    and "authCall D L cfg now draw op s = (Inr tok, s1)" and "CHR '' '' \<notin> set (accessToken tok)"
    and "t div 1000 < now div 1000 + lifetime (accessTokenExpireTime cfg)"
    and "t div 1000 < now div 1000 + lifetime (refreshTokenExpireTime cfg)"
    and "httpHeaders req ''authorization'' = Single (''Bearer '' @ accessToken tok)"
    and "httpCookies req ''refreshToken'' = Some (refreshToken tok)"
  shows "\<exists>uid role. subjectOf L cfg now op = Some uid \<and>
    (\<forall>roles. roles = None \<or> role \<in> set (the roles) \<longrightarrow>
       fst (canActivate D L cfg t None roles req s1) =
         Inr (True, setReqHeader ''authenticatedUser'' (Single uid) req))"
proof -
  from auth_on [OF assms(1-4)] obtain uid role where
    g: "authGood (abst s1)" "subjectOf L cfg now op = Some uid" "hasAuth (abst s1) uid"
      "signedIn L cfg now uid role tok (abst s) (abst s1)" by auto
  have "fst (canActivate D L cfg t None roles req s1) = Inr (True, setReqHeader ''authenticatedUser'' (Single uid) req)"
    if "roles = None \<or> role \<in> set (the roles)" for roles
  proof -
    obtain r s2 where r: "canActivate D L cfg t None roles req s1 = (r, s2)" by fastforce
    from guard_on [OF assms(1) g(1) r] tokens_pass [OF assms(2) g(4,3) assms(5-9) _ that, of None] r show ?thesis
      by simp
  qed
  with g(2) show ?thesis by blast
qed

text \<open>Signing in again ends the old session everywhere. After any successful sign-in, a request whose
  refresh cookie names the same user but is not the newest token is refused on every non-public
  route, even with a valid access token.\<close>

lemma old_session_refused:
  assumes "orm D abst" and "token_lib L lifetime" and "authGood (abst s)"
    and "authCall D L cfg now draw op s = (Inr tok, s1)"
    and "tokenUid L cfg t (httpCookies req ''refreshToken'') = Inr uid" and "subjectOf L cfg now op = Some uid"
    and "httpCookies req ''refreshToken'' \<noteq> Some (refreshToken tok)" and "pub \<noteq> Some True"
  shows "fst (canActivate D L cfg t pub roles req s1) = Inl (AuthUnauthorizedException None)"
proof -
  from auth_on [OF assms(1-4)] assms(6) obtain role where
    g: "authGood (abst s1)" "signedIn L cfg now uid role tok (abst s) (abst s1)" by auto
  have "sessionOfUid (abst s1) uid = Some \<lparr>seUid = uid, seRefreshToken = refreshToken tok, seUserRole = role\<rparr>"
    using g(2) by (simp add: signedIn_def)
  then have a: "\<exists>e. refreshAnswer L cfg t (httpCookies req ''refreshToken'') (abst s1) = Inl e"
    using assms(5,7) by (simp add: refreshAnswer_def)
  obtain r s2 where r: "canActivate D L cfg t pub roles req s1 = (r, s2)" by fastforce
  from guard_on [OF assms(1) g(1) r] a r assms(8) show ?thesis by (auto simp: guardSpec_def Let_def)
qed

text \<open>C30: The two tokens need not belong together. The guard never compares their users, and tokens carry
  no kind: any unexpired token the server issued for any existing account (another user's access
  token, or a refresh token) is accepted as access token beside a valid refresh cookie, and the
  request is the cookie owner's.\<close>

theorem mixed_tokens_accepted:
  assumes "orm D abst" and "token_lib L lifetime" and "authGood (abst s)"
    and "issued L cfg now other ex tok" and "t div 1000 < now div 1000 + lifetime ex" and "hasAuth (abst s) other"
    and "CHR '' '' \<notin> set tok" and "httpHeaders req ''authorization'' = Single (''Bearer '' @ tok)"
    and "refreshAnswer L cfg t (httpCookies req ''refreshToken'') (abst s) = Inr ses"
    and "roles = None \<or> seUserRole ses \<in> set (the roles)"
  shows "fst (canActivate D L cfg t None roles req s) =
    Inr (True, setReqHeader ''authenticatedUser'' (Single (seUid ses)) req)"
proof -
  have "authorizationOf req = ''Bearer '' @ tok" using assms(8) by (simp add: authorizationOf_def)
  then have a: "accessAnswer L cfg t (bearerPiece (authorizationOf req)) (abst s)" "authorizationOf req \<noteq> ''''"
    using bearerPiece_token [OF assms(7)] issued_valid [OF assms(2,4,5)] assms(6)
    by (simp_all add: accessAnswer_def)
  obtain r s2 where r: "canActivate D L cfg t None roles req s = (r, s2)" by fastforce
  from guard_on [OF assms(1,3) r] a assms(9,10) r show ?thesis by (auto simp: guardSpec_def Let_def)
qed

section \<open>Instances\<close>

definition guardReq :: "header \<Rightarrow> string option \<Rightarrow> httpRequest" where
  "guardReq auth cookie = \<lparr>httpMethod = ''GET'', httpPath = ''/posts'',
     httpHeaders = (\<lambda>n. if n = ''authorization'' then auth
       else if n = ''authenticatedUser'' then Single ''admin'' else Undefined),
     httpCookies = (\<lambda>n. if n = ''refreshToken'' then cookie else None), httpIp = ''10.0.0.1''\<rparr>"

theorem identity_only_from_tokens_witness:
  "\<exists>req'. fst (canActivate sqlDb (toyLibs 0) demoCfg 0 (Some True) None (guardReq Undefined None) demoDb) =
     Inr (True, req') \<and> httpHeaders req' ''authenticatedUser'' = Undefined"
proof -
  have r: "canActivate sqlDb (toyLibs 0) demoCfg 0 (Some True) None (guardReq Undefined None) demoDb =
      (Inr (True, setReqHeader ''authenticatedUser'' Undefined (guardReq Undefined None)), demoDb)"
    by (simp add: canActivate_def)
  from identity_only_from_tokens [OF sql.orm_axioms demoDb_good r] r show ?thesis by simp
qed

text \<open>A user who just registered, with both tokens.\<close>

lemma demo_signed_in:
  obtains tok s1 role where
    "authCall sqlDb (toyLibs 0) demoCfg 5000 0 (Join demoJoin) demoDb = (Inr tok, s1)" "authGood s1"
    "CHR '' '' \<notin> set (accessToken tok)" "hasAuth s1 ''a''"
    "refreshAnswer (toyLibs 0) demoCfg 6000 (Some (refreshToken tok)) s1 =
       Inr \<lparr>seUid = ''c'', seRefreshToken = refreshToken tok, seUserRole = role\<rparr>"
proof -
  obtain tok s1 where r: "createNewUser sqlDb (toyLibs 0) demoCfg 5000 0 demoJoin demoDb = (Inr tok, s1)"
    "CHR '' '' \<notin> set (accessToken tok)" by (rule demo_join_runs)
  then have c: "authCall sqlDb (toyLibs 0) demoCfg 5000 0 (Join demoJoin) demoDb = (Inr tok, s1)" by simp
  from auth_on [OF sql.orm_axioms toyl.token_lib_axioms demoDb_good c] obtain role where
    g: "authGood s1" "signedIn (toyLibs 0) demoCfg 5000 ''c'' role tok demoDb s1"
      "hasAuth demoDb ''a'' \<longrightarrow> hasAuth s1 ''a''" by (auto simp: demoJoin_def)
  have "tokenUid (toyLibs 0) demoCfg 6000 (Some (refreshToken tok)) = Inr ''c''"
    using g(2) by (auto simp: signedIn_def demoCfg_def intro!: issued_valid [OF toyl.token_lib_axioms])
  moreover have "sessionOfUid s1 ''c'' = Some \<lparr>seUid = ''c'', seRefreshToken = refreshToken tok, seUserRole = role\<rparr>"
    using g(2) by (simp add: signedIn_def)
  moreover have "hasAuth demoDb ''a''" by (simp add: hasAuth_def demoDb_def demoAuth_def)
  ultimately show thesis using that [OF c g(1) r(2)] g(3) by (simp add: refreshAnswer_Inr)
qed

theorem mixed_tokens_accepted_witness:
  "\<exists>tok s1 req'. createNewUser sqlDb (toyLibs 0) demoCfg 5000 0 demoJoin demoDb = (Inr tok, s1) \<and>
     fst (canActivate sqlDb (toyLibs 0) demoCfg 6000 None None
       (guardReq (Single (''Bearer '' @ showNat 8 @ ''.pka'')) (Some (refreshToken tok))) s1) = Inr (True, req') \<and>
     httpHeaders req' ''authenticatedUser'' = Single ''c''"
proof -
  obtain tok s1 role where r: "authCall sqlDb (toyLibs 0) demoCfg 5000 0 (Join demoJoin) demoDb = (Inr tok, s1)"
    "authGood s1" "hasAuth s1 ''a''" "refreshAnswer (toyLibs 0) demoCfg 6000 (Some (refreshToken tok)) s1 =
       Inr \<lparr>seUid = ''c'', seRefreshToken = refreshToken tok, seUserRole = role\<rparr>" by (rule demo_signed_in)
  let ?tok = "showNat 8 @ ''.pka''"
  let ?req = "guardReq (Single (''Bearer '' @ ?tok)) (Some (refreshToken tok))"
  have "decryptPrimaryKey (aesLib (toyLibs 0)) ''pka'' ''pk'' = Inr ''a''"
    by (simp add: decryptPrimaryKey_def toyLibs_def toyAes_def consOk_def)
  then have "issued (toyLibs 0) demoCfg 5000 ''a'' ''15m'' ?tok"
    unfolding issued_def by (intro exI [of _ "''pka''"]) (simp add: toyLibs_def demoCfg_def)
  moreover have "CHR '' '' \<notin> set ?tok" using showNat_digits [of "CHR '' ''" 8] by (auto simp: isDigit_def)
  ultimately have "fst (canActivate sqlDb (toyLibs 0) demoCfg 6000 None None ?req s1) =
      Inr (True, setReqHeader ''authenticatedUser'' (Single ''c'') ?req)"
    using mixed_tokens_accepted [OF sql.orm_axioms toyl.token_lib_axioms r(2), of 0 demoCfg 5000 "''a''" "''15m''"
        ?tok 6000 ?req _ None] r(3,4)
    by (simp add: guardReq_def)
  with r(1) show ?thesis by auto
qed

end
