(* ===== verification/Validation.thy ===== *)
theory Validation
  imports PostRead AuthGuard
begin

text \<open>
  What happens to the parameters of a handler before it runs: the decorators of the request bodies
  (\<open>blog/dto/\<close>, \<open>user/dto/\<close>), the global validation pipe (\<open>pipe/path-param-aware-validation.pipe.ts\<close>)
  and the chain that decrypts path parameters. The framework's \<open>ValidationPipe\<close> and \<open>ParseIntPipe\<close>
  are parameters; the locale \<open>web_lib\<close> states what is documented of them.
\<close>

section \<open>Validation decorators\<close>

datatype check = IsString | IsNotEmpty | IsEmail | IsInt | MinOf int | IsOptional

definition CreatePostChecks :: "(string \<times> check list) list" where
  "CreatePostChecks = [(''title'', [IsString, IsNotEmpty]), (''contents'', [IsString, IsNotEmpty])]"

definition PatchPostChecks :: "(string \<times> check list) list" where
  "PatchPostChecks = [(''title'', [IsString, IsOptional]), (''contents'', [IsString, IsOptional])]"

definition PageQueryChecks :: "(string \<times> check list) list" where
  "PageQueryChecks = [(''page'', [IsOptional, IsInt, MinOf 1])]"

definition UserAuthRequestChecks :: "(string \<times> check list) list" where
  "UserAuthRequestChecks = [(''uid'', [IsEmail, IsNotEmpty]), (''password'', [IsString, IsNotEmpty])]"

definition OauthRequestChecks :: "(string \<times> check list) list" where
  "OauthRequestChecks = [(''credentialToken'', [IsString, IsNotEmpty])]"

definition UserInfoRequestChecks :: "(string \<times> check list) list" where
  "UserInfoRequestChecks = [(''nickname'', [IsString, IsNotEmpty]), (''introduce'', [IsString, IsNotEmpty])]"

definition PostLikeRequestChecks :: "(string \<times> check list) list" where
  "PostLikeRequestChecks = [(''encryptedPostId'', [IsString, IsNotEmpty])]"

definition checksOf :: "string \<Rightarrow> (string \<times> check list) list" where
  "checksOf cls =
     (if cls = ''CreatePostDto'' then CreatePostChecks
      else if cls = ''PatchPostDto'' then PatchPostChecks
      else if cls = ''PageQueryDto'' then PageQueryChecks
      else if cls = ''UserAuthRequestDto'' then UserAuthRequestChecks
      else if cls = ''OauthRequestDto'' then OauthRequestChecks
      else if cls = ''UserInfoRequestDto'' then UserInfoRequestChecks
      else if cls = ''PostLikeRequestDto'' then PostLikeRequestChecks
      else [])"

lemmas checks_defs = checksOf_def CreatePostChecks_def PatchPostChecks_def PageQueryChecks_def
  UserAuthRequestChecks_def OauthRequestChecks_def UserInfoRequestChecks_def PostLikeRequestChecks_def

text \<open>The documented meaning of the decorators; \<open>IsOptional\<close> suspends the others on \<open>undefined\<close> and \<open>null\<close>.\<close>

definition propOf :: "jsval \<Rightarrow> string \<Rightarrow> jsval" where
  "propOf v p = (case map_of (spread v) p of None \<Rightarrow> VUndefined | Some x \<Rightarrow> x)"

fun meetsCheck :: "(string \<Rightarrow> bool) \<Rightarrow> jsval \<Rightarrow> check \<Rightarrow> bool" where
  "meetsCheck isMail v IsString = (case v of VStr s \<Rightarrow> True | _ \<Rightarrow> False)"
| "meetsCheck isMail v IsNotEmpty = (v \<noteq> VStr '''' \<and> v \<noteq> VNull \<and> v \<noteq> VUndefined)"
| "meetsCheck isMail v IsEmail = (case v of VStr s \<Rightarrow> isMail s | _ \<Rightarrow> False)"
| "meetsCheck isMail v IsInt = (case v of VNum n \<Rightarrow> True | _ \<Rightarrow> False)"
| "meetsCheck isMail v (MinOf m) = (case v of VNum n \<Rightarrow> m \<le> n | _ \<Rightarrow> False)"
| "meetsCheck isMail v IsOptional = True"

definition meetsChecks :: "(string \<Rightarrow> bool) \<Rightarrow> jsval \<Rightarrow> check list \<Rightarrow> bool" where
  "meetsChecks isMail v cs \<longleftrightarrow>
     IsOptional \<in> set cs \<and> (v = VUndefined \<or> v = VNull) \<or> list_all (meetsCheck isMail v) cs"

section \<open>The pipes\<close>

text \<open>
  \<open>parentTransform\<close> is \<open>ValidationPipe.transform\<close> at the class of the parameter, with the options of
  \<open>config/app-setup.ts\<close> (whitelist and transform); \<open>parseIntPipe\<close> is the framework's pipe on a text.
\<close>

record webLib =
  parentTransform :: "string \<Rightarrow> jsval \<Rightarrow> exn + jsval"
  parseIntPipe :: "string \<Rightarrow> exn + int"
  isMailAddress :: "string \<Rightarrow> bool"

datatype paramType = BodyParam | QueryParam | PathParam | CustomParam

definition pathAwareTransform :: "webLib \<Rightarrow> jsval \<Rightarrow> paramType \<Rightarrow> string \<Rightarrow> exn + jsval" where
  "pathAwareTransform V value type metatype =
     (if type = PathParam then Inr value else parentTransform V metatype value)"

definition badRequest :: "exn \<Rightarrow> bool" where
  "badRequest e \<longleftrightarrow> (case e of HttpException s r \<Rightarrow> s = 400 | _ \<Rightarrow> False)"

locale web_lib =
  fixes V :: webLib
  assumes transform_ok: "checksOf cls \<noteq> [] \<Longrightarrow> parentTransform V cls v = Inr w \<Longrightarrow>
      (\<exists>fs. w = VObj cls fs \<and> set (map fst fs) \<subseteq> set (map fst (checksOf cls))) \<and>
      (\<forall>(p, cs) \<in> set (checksOf cls). meetsChecks (isMailAddress V) (propOf w p) cs)"
    and transform_error: "parentTransform V cls v = Inl e \<Longrightarrow> badRequest e"
    and parse_int: "\<bar>i\<bar> < 2 ^ 53 \<Longrightarrow> parseIntPipe V (showInt i) = Inr i"
    and parse_error: "parseIntPipe V s = Inl e \<Longrightarrow> badRequest e"

section \<open>Reading the validated parameters\<close>

definition textProp :: "jsval \<Rightarrow> string \<Rightarrow> string" where
  "textProp v p = (case propOf v p of VStr s \<Rightarrow> s | _ \<Rightarrow> '''')"

definition optProp :: "jsval \<Rightarrow> string \<Rightarrow> string option option" where
  "optProp v p = (case propOf v p of VStr s \<Rightarrow> Some (Some s) | VNull \<Rightarrow> Some None | _ \<Rightarrow> None)"

definition readCreatePostDto :: "jsval \<Rightarrow> CreatePostDto" where
  "readCreatePostDto v = \<lparr>cdTitle = textProp v ''title'', cdContents = textProp v ''contents''\<rparr>"

definition readPatchPostDto :: "jsval \<Rightarrow> postPatch" where
  "readPatchPostDto v = \<lparr>patchTitle = optProp v ''title'', patchContents = optProp v ''contents''\<rparr>"

text \<open>The class initialises \<open>page\<close> with 1. A query string carries texts only, so that \<open>page\<close> is never \<open>null\<close>.\<close>

definition readPageQueryDto :: "jsval \<Rightarrow> int" where
  "readPageQueryDto v = (case propOf v ''page'' of VNum n \<Rightarrow> n | _ \<Rightarrow> 1)"

definition readUserAuthRequestDto :: "jsval \<Rightarrow> UserAuthRequestDto" where
  "readUserAuthRequestDto v = \<lparr>reqUid = textProp v ''uid'', reqPassword = textProp v ''password''\<rparr>"

definition readOauthRequestDto :: "jsval \<Rightarrow> OauthRequestDto" where
  "readOauthRequestDto v = \<lparr>credentialToken = textProp v ''credentialToken''\<rparr>"

record UserInfoRequestDto =
  irNickname :: string
  irIntroduce :: string

definition readUserInfoRequestDto :: "jsval \<Rightarrow> UserInfoRequestDto" where
  "readUserInfoRequestDto v = \<lparr>irNickname = textProp v ''nickname'', irIntroduce = textProp v ''introduce''\<rparr>"

lemmas reader_defs = readCreatePostDto_def readPatchPostDto_def readPageQueryDto_def
  readUserAuthRequestDto_def readOauthRequestDto_def readUserInfoRequestDto_def

text \<open>A body or query of a class, through the global pipe.\<close>

definition bodyParam :: "webLib \<Rightarrow> string \<Rightarrow> (jsval \<Rightarrow> 'a) \<Rightarrow> jsval \<Rightarrow> exn + 'a" where
  "bodyParam V cls read v = map_sum id read (pathAwareTransform V v BodyParam cls)"

definition pageParam :: "webLib \<Rightarrow> jsval \<Rightarrow> exn + int" where
  "pageParam V v = map_sum id readPageQueryDto (pathAwareTransform V v QueryParam ''PageQueryDto'')"

text \<open>Path parameters: the global pipe passes them on, then decryption, then (for ids) the number.\<close>

definition userParam :: "webLib \<Rightarrow> aes \<Rightarrow> string \<Rightarrow> string \<Rightarrow> exn + string" where
  "userParam V A key raw =
     (case pathAwareTransform V (VStr raw) PathParam ''String'' of
        Inl e \<Rightarrow> Inl e
      | Inr v \<Rightarrow> decryptPrimaryKeyPipe A key (stringOf v))"

definition postIdParam :: "webLib \<Rightarrow> aes \<Rightarrow> string \<Rightarrow> string \<Rightarrow> exn + int" where
  "postIdParam V A key raw =
     (case pathAwareTransform V (VStr raw) PathParam ''Number'' of
        Inl e \<Rightarrow> Inl e
      | Inr v \<Rightarrow>
          (case decryptPrimaryKeyPipe A key (stringOf v) of
             Inl e \<Rightarrow> Inl e
           | Inr s \<Rightarrow> parseIntPipe V s))"

section \<open>What validation guarantees\<close>

context web_lib
begin

lemma validated_prop:
  assumes "pathAwareTransform V v BodyParam cls = Inr w" and "(p, cs) \<in> set (checksOf cls)"
  shows "meetsChecks (isMailAddress V) (propOf w p) cs"
proof -
  have "checksOf cls \<noteq> []" using assms(2) by auto
  from transform_ok [OF this, of v w] assms show ?thesis by (auto simp: pathAwareTransform_def)
qed

lemma page_positive: "pageParam V v = Inr n \<Longrightarrow> 1 \<le> n"
proof -
  assume "pageParam V v = Inr n"
  then obtain w where w: "parentTransform V ''PageQueryDto'' v = Inr w" "n = readPageQueryDto w"
    by (auto simp: pageParam_def pathAwareTransform_def map_sum_def split: sum.splits)
  have "checksOf ''PageQueryDto'' \<noteq> []" by (simp add: checks_defs)
  from transform_ok [OF this w(1)] have "meetsChecks (isMailAddress V) (propOf w ''page'') [IsOptional, IsInt, MinOf 1]"
    by (simp add: checks_defs)
  then show "1 \<le> n" by (auto simp: w(2) readPageQueryDto_def meetsChecks_def split: jsval.splits)
qed

text \<open>An encrypted identifier, as it was sent or as the router decoded it, names its post or user.\<close>

lemma params_encrypted:
  assumes "aes_cipher A" and "c' = c \<or> decodeURIComponent c = Inr c'"
  shows "fst (encryptPrimaryKey A (showInt i) key draw) = Inr c \<Longrightarrow> \<bar>i\<bar> < 2 ^ 53 \<Longrightarrow> postIdParam V A key c' = Inr i"
    and "fst (encryptPrimaryKey A u key draw) = Inr c \<Longrightarrow> u \<noteq> [] \<Longrightarrow> userParam V A key c' = Inr u"
proof -
  have d: "decryptPrimaryKey A c' key = Inr v" if "fst (encryptPrimaryKey A v key draw) = Inr c" for v
  proof -
    have "encryptPrimaryKey A v key draw = (Inr c, snd (encryptPrimaryKey A v key draw))"
      using that by (simp add: prod_eq_iff)
    from aes_cipher.decrypt_encrypt [OF assms(1) this] aes_cipher.decrypt_decoded [OF assms(1) this] assms(2)
    show ?thesis by blast
  qed
  show "postIdParam V A key c' = Inr i"
    if "fst (encryptPrimaryKey A (showInt i) key draw) = Inr c" "\<bar>i\<bar> < 2 ^ 53"
    using d [OF that(1)] parse_int [OF that(2)]
    by (simp add: postIdParam_def pathAwareTransform_def decryptPrimaryKeyPipe_def)
  show "userParam V A key c' = Inr u" if "fst (encryptPrimaryKey A u key draw) = Inr c" "u \<noteq> []"
    using d [OF that(1)] that(2) by (simp add: userParam_def pathAwareTransform_def decryptPrimaryKeyPipe_def)
qed

end

section \<open>A concrete library for the instances\<close>

definition toyParseInt :: "string \<Rightarrow> exn + int" where
  "toyParseInt s =
     (let neg = take 1 s = ''-''; ds = (if neg then drop 1 s else s) in
      if ds = [] \<or> \<not> list_all isDigit ds
      then Inl (BadRequestException ''Validation failed (numeric string is expected)'')
      else Inr ((if neg then -1 else 1) * int (readNat ds)))"

definition toyTransform :: "string \<Rightarrow> jsval \<Rightarrow> exn + jsval" where
  "toyTransform cls v =
     (if checksOf cls = [] then Inr v
      else
        (let w = VObj cls (filter (\<lambda>f. fst f \<in> set (map fst (checksOf cls))) (spread v)) in
         if list_all (\<lambda>(p, cs). meetsChecks (\<lambda>_. True) (propOf w p) cs) (checksOf cls) then Inr w
         else Inl (BadRequestException ''Bad Request'')))"

definition toyWeb :: webLib where
  "toyWeb = \<lparr>parentTransform = toyTransform, parseIntPipe = toyParseInt, isMailAddress = (\<lambda>_. True)\<rparr>"

lemma toyParseInt_show: "toyParseInt (showInt i) = Inr i"
proof -
  have d: "list_all isDigit (showNat n)" for n using showNat_digits by (auto simp: list_all_iff)
  have "take 1 (showNat n) \<noteq> ''-''" for n
    using showNat_digits [of "CHR ''-''" n] by (cases "showNat n") auto
  with d show ?thesis by (auto simp: toyParseInt_def showInt_def Let_def)
qed

interpretation toyw: web_lib toyWeb
proof unfold_locales
  show "(\<exists>fs. w = VObj cls fs \<and> set (map fst fs) \<subseteq> set (map fst (checksOf cls))) \<and>
      (\<forall>(p, cs) \<in> set (checksOf cls). meetsChecks (isMailAddress toyWeb) (propOf w p) cs)"
    if "checksOf cls \<noteq> []" "parentTransform toyWeb cls v = Inr w" for cls v w
    using that by (auto simp: toyWeb_def toyTransform_def Let_def list_all_iff split: if_splits)
  show "badRequest e" if "parentTransform toyWeb cls v = Inl e" for cls v e
    using that by (auto simp: toyWeb_def toyTransform_def Let_def badRequest_def BadRequestException_def split: if_splits)
  show "parseIntPipe toyWeb (showInt i) = Inr i" for i by (simp add: toyWeb_def toyParseInt_show)
  show "badRequest e" if "parseIntPipe toyWeb s = Inl e" for s e
    using that by (auto simp: toyWeb_def toyParseInt_def Let_def badRequest_def BadRequestException_def split: if_splits)
qed

end
