(* ===== verification/Web.thy ===== *)
theory Web
  imports Validation
begin

text \<open>
  The controllers (\<open>blog/controller/\<close>, \<open>user/controller/\<close>, \<open>app.controller.ts\<close>): the parameters of
  every route, the call of the service and the answer, with the metadata of each class and the
  interceptor that puts the refresh token into a cookie. A handler's parameters are resolved in
  their order; the first that fails decides the error.
\<close>

section \<open>Requests and answers\<close>

text \<open>
  A routed request: the HTTP request, the path parameter as the router decoded it, query and body as
  parsed objects, and the number of the next salt.
\<close>

record webRequest =
  httpPart :: httpRequest
  pathText :: string
  queryValue :: jsval
  bodyValue :: jsval
  saltDraw :: nat

text \<open>The objects the handlers return. A date is an object with its instant.\<close>

definition successJs :: jsval where
  "successJs = VObj ''SuccessResponse''
     [(''code'', VNum (respCode SuccessResponse)), (''message'', VStr (respMessage SuccessResponse))]"

definition dateJs :: "nat \<Rightarrow> jsval" where
  "dateJs t = VObj ''Date'' [(''time'', VNum (int t))]"

definition postFields :: "PostDto \<Rightarrow> (string \<times> jsval) list" where
  "postFields d =
     [(''postId'', VNum (ptPostId d)), (''postUid'', VStr (ptPostUid d)), (''title'', VStr (ptTitle d)),
      (''writeDatetime'', dateJs (ptWriteDatetime d)), (''contents'', VStr (ptContents d)),
      (''hits'', VNum (ptHits d)),
      (''postLikeNicknameList'', (case ptPostLikeNicknameList d of None \<Rightarrow> VUndefined | Some ns \<Rightarrow> VArr (map VStr ns)))]"

definition postJs :: "PostDto \<Rightarrow> jsval" where
  "postJs d = VObj ''PostDto'' (postFields d)"

definition metaJs :: "PaginationMetaDto \<Rightarrow> jsval" where
  "metaJs m = VObj ''PaginationMetaDto''
     [(''total'', VNum (metaTotal m)), (''currentPage'', VNum (metaCurrentPage m)),
      (''lastPage'', VNum (metaLastPage m)), (''hasPreviousPage'', VBool (hasPreviousPage m)),
      (''hasNextPage'', VBool (hasNextPage m))]"

definition pageJs :: "PostDto PaginationDto \<Rightarrow> jsval" where
  "pageJs p = VObj ''PaginationDto''
     [(''data'', VArr (map postJs (pageData p))), (''paginationMeta'', metaJs (paginationMeta p))]"

definition profileJs :: "UserInfoDto \<Rightarrow> jsval" where
  "profileJs d = VObj ''UserInfoDto''
     [(''uid'', VStr (dtoUid d)), (''nickname'', VStr (dtoNickname d)), (''introduce'', VStr (dtoIntroduce d))]"

definition jwtJs :: "JwtDto \<Rightarrow> jsval" where
  "jwtJs t = VObj ''JwtDto'' [(''accessToken'', VStr (accessToken t)), (''refreshToken'', VStr (refreshToken t))]"

definition andSuccess :: "('d, exn, unit) run \<Rightarrow> ('d, exn, jsval) run" where
  "andSuccess m = bindR m (\<lambda>_. returnR successJs)"

text \<open>Class metadata: \<open>@Public\<close> and \<open>@Roles\<close>.\<close>

record controllerMeta =
  ctlPublic :: "bool option"
  ctlRoles :: "UserRole list option"

definition Public :: "controllerMeta \<Rightarrow> controllerMeta" where
  "Public m = m\<lparr>ctlPublic := Some True\<rparr>"

definition Roles :: "UserRole list \<Rightarrow> controllerMeta \<Rightarrow> controllerMeta" where
  "Roles rs m = m\<lparr>ctlRoles := Some rs\<rparr>"

definition noMeta :: controllerMeta where
  "noMeta = \<lparr>ctlPublic = None, ctlRoles = None\<rparr>"

section \<open>Post controller\<close>

definition PostController :: controllerMeta where
  "PostController = Roles [USER] noMeta"

definition ctlGetAllPosts ::
  "('d, 'z) ormOps_scheme \<Rightarrow> webLib \<Rightarrow> nat \<Rightarrow> webRequest \<Rightarrow> ('d, exn, jsval) run" where
  "ctlGetAllPosts D V now req =
     bindR (liftR (pageParam V (queryValue req))) (\<lambda>page.
     bindR (getPostPageListByPage D (svcGetUserInfoByUid D) now page) (\<lambda>p. returnR (pageJs p)))"

definition ctlGetUserPosts ::
  "('d, 'z) ormOps_scheme \<Rightarrow> webLib \<Rightarrow> aes \<Rightarrow> string \<Rightarrow> nat \<Rightarrow> webRequest \<Rightarrow> ('d, exn, jsval) run" where
  "ctlGetUserPosts D V A key now req =
     bindR (liftR (userParam V A key (pathText req))) (\<lambda>postUid.
     bindR (liftR (pageParam V (queryValue req))) (\<lambda>page.
     bindR (getPostPageListByPostUid D (svcGetUserInfoByUid D) now postUid page) (\<lambda>p. returnR (pageJs p))))"

definition ctlGetPost ::
  "('d, 'z) ormOps_scheme \<Rightarrow> webLib \<Rightarrow> aes \<Rightarrow> string \<Rightarrow> nat \<Rightarrow> webRequest \<Rightarrow> ('d, exn, jsval) run" where
  "ctlGetPost D V A key now req =
     bindR (liftR (postIdParam V A key (pathText req))) (\<lambda>postId.
     bindR (getPostByPostId D (svcGetUserInfoByUid D) now postId) (\<lambda>d. returnR (postJs d)))"

definition ctlCreatePost ::
  "('d, 'z) ormOps_scheme \<Rightarrow> webLib \<Rightarrow> nat \<Rightarrow> webRequest \<Rightarrow> ('d, exn, jsval) run" where
  "ctlCreatePost D V now req =
     bindR (liftR (AuthenticatedUserValidation (httpPart req))) (\<lambda>authUid.
     bindR (liftR (bodyParam V ''CreatePostDto'' readCreatePostDto (bodyValue req))) (\<lambda>dto.
     andSuccess (svcCreatePost D now authUid dto)))"

definition ctlPatchPost ::
  "('d, 'z) ormOps_scheme \<Rightarrow> webLib \<Rightarrow> aes \<Rightarrow> string \<Rightarrow> webRequest \<Rightarrow> ('d, exn, jsval) run" where
  "ctlPatchPost D V A key req =
     bindR (liftR (AuthenticatedUserValidation (httpPart req))) (\<lambda>authUid.
     bindR (liftR (postIdParam V A key (pathText req))) (\<lambda>postId.
     bindR (liftR (bodyParam V ''PatchPostDto'' readPatchPostDto (bodyValue req))) (\<lambda>dto.
     andSuccess (svcUpdatePost D authUid postId dto))))"

definition ctlDeletePost ::
  "('d, 'z) ormOps_scheme \<Rightarrow> webLib \<Rightarrow> aes \<Rightarrow> string \<Rightarrow> webRequest \<Rightarrow> ('d, exn, jsval) run" where
  "ctlDeletePost D V A key req =
     bindR (liftR (AuthenticatedUserValidation (httpPart req))) (\<lambda>authUid.
     bindR (liftR (postIdParam V A key (pathText req))) (\<lambda>postId.
     andSuccess (svcDeletePost D authUid postId)))"

section \<open>Like controller\<close>

definition PostLikeController :: controllerMeta where
  "PostLikeController = Roles [USER] noMeta"

definition ctlAddPostLikeUser ::
  "('d, 'z) ormOps_scheme \<Rightarrow> webLib \<Rightarrow> aes \<Rightarrow> string \<Rightarrow> webRequest \<Rightarrow> ('d, exn, jsval) run" where
  "ctlAddPostLikeUser D V A key req =
     bindR (liftR (AuthenticatedUserValidation (httpPart req))) (\<lambda>authUid.
     bindR (liftR (postIdParam V A key (pathText req))) (\<lambda>postId.
     andSuccess (addPostLikeUser D \<lparr>ldPostId = postId, ldUid = authUid\<rparr>)))"

definition ctlDeletePostLikeUser ::
  "('d, 'z) ormOps_scheme \<Rightarrow> webLib \<Rightarrow> aes \<Rightarrow> string \<Rightarrow> webRequest \<Rightarrow> ('d, exn, jsval) run" where
  "ctlDeletePostLikeUser D V A key req =
     bindR (liftR (AuthenticatedUserValidation (httpPart req))) (\<lambda>authUid.
     bindR (liftR (postIdParam V A key (pathText req))) (\<lambda>postId.
     andSuccess (removePostLikeUser D \<lparr>ldPostId = postId, ldUid = authUid\<rparr>)))"

section \<open>Profile controller\<close>

definition UserInfoController :: controllerMeta where
  "UserInfoController = Roles [USER, ADMIN] noMeta"

definition ctlCreateUserInfo ::
  "('d, 'z) ormOps_scheme \<Rightarrow> webLib \<Rightarrow> webRequest \<Rightarrow> ('d, exn, jsval) run" where
  "ctlCreateUserInfo D V req =
     bindR (liftR (AuthenticatedUserValidation (httpPart req))) (\<lambda>authUid.
     bindR (liftR (bodyParam V ''UserInfoRequestDto'' readUserInfoRequestDto (bodyValue req))) (\<lambda>dto.
     andSuccess (svcCreateUserInfo D
       \<lparr>dtoUid = authUid, dtoNickname = irNickname dto, dtoIntroduce = irIntroduce dto\<rparr>)))"

definition ctlGetUserInfo ::
  "('d, 'z) ormOps_scheme \<Rightarrow> nat \<Rightarrow> webRequest \<Rightarrow> ('d, exn, jsval) run" where
  "ctlGetUserInfo D now req =
     bindR (liftR (AuthenticatedUserValidation (httpPart req))) (\<lambda>authUid.
     bindR (svcGetUserInfoByUid D now authUid) (\<lambda>d. returnR (profileJs d)))"

definition ctlUpdateUserInfo ::
  "('d, 'z) ormOps_scheme \<Rightarrow> webLib \<Rightarrow> webRequest \<Rightarrow> ('d, exn, jsval) run" where
  "ctlUpdateUserInfo D V req =
     bindR (liftR (AuthenticatedUserValidation (httpPart req))) (\<lambda>authUid.
     bindR (liftR (bodyParam V ''UserInfoRequestDto'' readUserInfoRequestDto (bodyValue req))) (\<lambda>dto.
     andSuccess (svcUpdateUserInfo D
       \<lparr>dtoUid = authUid, dtoNickname = irNickname dto, dtoIntroduce = irIntroduce dto\<rparr>)))"

definition ctlDeleteUserInfo ::
  "('d, 'z) ormOps_scheme \<Rightarrow> webRequest \<Rightarrow> ('d, exn, jsval) run" where
  "ctlDeleteUserInfo D req =
     bindR (liftR (AuthenticatedUserValidation (httpPart req))) (\<lambda>authUid.
     andSuccess (svcDeleteUserInfoByUid D authUid))"

section \<open>Account controller\<close>

definition UserAuthController :: controllerMeta where
  "UserAuthController = Public noMeta"

definition ctlJoin ::
  "('d, 'z) ormOps_scheme \<Rightarrow> webLib \<Rightarrow> libs \<Rightarrow> authConfig \<Rightarrow> nat \<Rightarrow> webRequest \<Rightarrow> ('d, exn, jsval) run" where
  "ctlJoin D V L cfg now req =
     bindR (liftR (bodyParam V ''UserAuthRequestDto'' readUserAuthRequestDto (bodyValue req))) (\<lambda>dto.
     bindR (createNewUser D L cfg now (saltDraw req) dto) (\<lambda>t. returnR (jwtJs t)))"

definition ctlLogin ::
  "('d, 'z) ormOps_scheme \<Rightarrow> webLib \<Rightarrow> libs \<Rightarrow> authConfig \<Rightarrow> nat \<Rightarrow> webRequest \<Rightarrow> ('d, exn, jsval) run" where
  "ctlLogin D V L cfg now req =
     bindR (liftR (bodyParam V ''UserAuthRequestDto'' readUserAuthRequestDto (bodyValue req))) (\<lambda>dto.
     bindR (login D L cfg now (saltDraw req) dto) (\<lambda>t. returnR (jwtJs t)))"

definition ctlRefresh ::
  "('d, 'z) ormOps_scheme \<Rightarrow> libs \<Rightarrow> authConfig \<Rightarrow> nat \<Rightarrow> webRequest \<Rightarrow> ('d, exn, jsval) run" where
  "ctlRefresh D L cfg now req =
     bindR (refresh D L cfg now (saltDraw req) (httpCookies (httpPart req) ''refreshToken''))
       (\<lambda>t. returnR (jwtJs t))"

definition ctlGoogleOauthLogin ::
  "('d, 'z) ormOps_scheme \<Rightarrow> webLib \<Rightarrow> libs \<Rightarrow> authConfig \<Rightarrow> nat \<Rightarrow> webRequest \<Rightarrow> ('d, exn, jsval) run" where
  "ctlGoogleOauthLogin D V L cfg now req =
     bindR (liftR (bodyParam V ''OauthRequestDto'' readOauthRequestDto (bodyValue req))) (\<lambda>dto.
     bindR (googleOauthLogin D L cfg now (saltDraw req) dto) (\<lambda>t. returnR (jwtJs t)))"

section \<open>Root controller\<close>

definition AppController :: controllerMeta where
  "AppController = Public noMeta"

definition appServiceGetHello :: string where
  "appServiceGetHello = ''Hello World!''"

definition ctlGetHello :: "('d, exn, jsval) run" where
  "ctlGetHello = returnR (VStr appServiceGetHello)"

section \<open>The cookie of the refresh token\<close>

record cookieSettings =
  cookieMaxAge :: int
  cookieSecure :: bool
  cookieSameSite :: string

record cookie =
  ckName :: string
  ckValue :: jsval
  ckHttpOnly :: bool
  ckSecure :: bool
  ckSameSite :: string
  ckMaxAge :: int

definition refreshCookie :: "cookieSettings \<Rightarrow> jsval \<Rightarrow> cookie list" where
  "refreshCookie cs data =
     (if constructorName data = ''JwtDto'' \<and> truthy (propOf data ''refreshToken'')
      then [\<lparr>ckName = ''refreshToken'', ckValue = propOf data ''refreshToken'', ckHttpOnly = True,
             ckSecure = cookieSecure cs, ckSameSite = cookieSameSite cs, ckMaxAge = cookieMaxAge cs\<rparr>]
      else [])"

text \<open>The state of the interceptor is the handler's and the cookies of the response.\<close>

definition setRefreshTokenCookieInterceptor ::
  "cookieSettings \<Rightarrow> ('d \<times> cookie list, exn, jsval) run \<Rightarrow> ('d \<times> cookie list, exn, jsval) run" where
  "setRefreshTokenCookieInterceptor cs handler =
     bindR handler (\<lambda>data (d, cookies). (Inr data, (d, cookies @ refreshCookie cs data)))"

lemmas ctl_defs = ctlGetAllPosts_def ctlGetUserPosts_def ctlGetPost_def ctlCreatePost_def ctlPatchPost_def
  ctlDeletePost_def ctlAddPostLikeUser_def ctlDeletePostLikeUser_def ctlCreateUserInfo_def ctlGetUserInfo_def
  ctlUpdateUserInfo_def ctlDeleteUserInfo_def ctlJoin_def ctlLogin_def ctlRefresh_def ctlGoogleOauthLogin_def
  ctlGetHello_def

lemmas meta_defs = PostController_def PostLikeController_def UserInfoController_def UserAuthController_def
  AppController_def Public_def Roles_def noMeta_def

lemmas js_defs = postJs_def postFields_def pageJs_def metaJs_def profileJs_def jwtJs_def successJs_def dateJs_def

end
