(* ===== verification/IdemProtocol.thy ===== *)
theory IdemProtocol
  imports Interceptor
begin

text \<open>
  Concurrent requests through the idempotency interceptor. Every \<open>await\<close> of the interceptor is a
  point where other requests can run; a step of this machine is one request passing from one such
  point to the next: the lookup, the lock attempt, the record write after the handler. Requests
  are numbered; \<open>started\<close> logs which request entered its handler, and when.
\<close>

datatype phase = Arrived | Missed | Running | Answered

record call =
  callUid :: string
  callKey :: string
  callMethod :: string
  callPath :: string

record 'r protoState =
  redisOf :: 'r
  clock :: nat
  phases :: "nat \<Rightarrow> phase"
  started :: "(nat \<times> nat) list"

definition moveTo :: "nat \<Rightarrow> phase \<Rightarrow> 'r \<Rightarrow> 'r protoState \<Rightarrow> 'r protoState" where
  "moveTo i ph r s = s\<lparr>redisOf := r, phases := (phases s)(i := ph)\<rparr>"

lemma moveTo_sel [simp]:
  "redisOf (moveTo i ph r s) = r" "clock (moveTo i ph r s) = clock s"
  "started (moveTo i ph r s) = started s" "phases (moveTo i ph r s) = (phases s)(i := ph)"
  by (simp_all add: moveTo_def)

section \<open>The steps\<close>

inductive proto_step ::
  "'r idempotencyService \<Rightarrow> (nat \<Rightarrow> call) \<Rightarrow> 'r protoState \<Rightarrow> 'r protoState \<Rightarrow> bool"
  for S and C where
  tick: "clock s \<le> t \<Longrightarrow> proto_step S C s (s\<lparr>clock := t\<rparr>)"
| lookup_miss:
    "phases s i = Arrived \<Longrightarrow> ms now = clock s \<Longrightarrow>
     svcGet S now (callUid (C i)) (callKey (C i)) (redisOf s) = (Inr None, r') \<Longrightarrow>
     proto_step S C s (moveTo i Missed r' s)"
| lookup_hit:
    "phases s i = Arrived \<Longrightarrow> ms now = clock s \<Longrightarrow>
     svcGet S now (callUid (C i)) (callKey (C i)) (redisOf s) = (Inr (Some rec), r') \<Longrightarrow>
     proto_step S C s (moveTo i Answered r' s)"
| lookup_err:
    "phases s i = Arrived \<Longrightarrow> ms now = clock s \<Longrightarrow>
     svcGet S now (callUid (C i)) (callKey (C i)) (redisOf s) = (Inl err, r') \<Longrightarrow>
     proto_step S C s (moveTo i Answered r' s)"
| lock_won:
    "phases s i = Missed \<Longrightarrow> ms now = clock s \<Longrightarrow>
     svcSetPending S now (callUid (C i)) (callKey (C i)) (callMethod (C i)) (callPath (C i))
       (redisOf s) = (Inr True, r') \<Longrightarrow>
     proto_step S C s ((moveTo i Running r' s)\<lparr>started := (i, clock s) # started s\<rparr>)"
| lock_lost:
    "phases s i = Missed \<Longrightarrow> ms now = clock s \<Longrightarrow>
     svcSetPending S now (callUid (C i)) (callKey (C i)) (callMethod (C i)) (callPath (C i))
       (redisOf s) = (Inr False, r') \<Longrightarrow>
     proto_step S C s (moveTo i Answered r' s)"
| lock_err:
    "phases s i = Missed \<Longrightarrow> ms now = clock s \<Longrightarrow>
     svcSetPending S now (callUid (C i)) (callKey (C i)) (callMethod (C i)) (callPath (C i))
       (redisOf s) = (Inl err, r') \<Longrightarrow>
     proto_step S C s (moveTo i Answered r' s)"
| handler_returned:
    "phases s i = Running \<Longrightarrow> ms now = clock s \<Longrightarrow>
     svcSetCompleted S now (callUid (C i)) (callKey (C i)) (callMethod (C i)) (callPath (C i))
       code body (redisOf s) = (res, r') \<Longrightarrow>
     proto_step S C s (moveTo i Answered r' s)"
| handler_threw:
    "phases s i = Running \<Longrightarrow> ms now = clock s \<Longrightarrow>
     svcSetCompletedFailure S now (callUid (C i)) (callKey (C i)) (callMethod (C i)) (callPath (C i))
       (fst (toFailure err)) (snd (toFailure err)) (redisOf s) = (res, r') \<Longrightarrow>
     proto_step S C s (moveTo i Answered r' s)"

definition proto_init :: "'r \<Rightarrow> 'r protoState" where
  "proto_init r = \<lparr>redisOf = r, clock = 0, phases = (\<lambda>_. Arrived), started = []\<rparr>"

inductive proto_reach ::
  "'r idempotencyService \<Rightarrow> (nat \<Rightarrow> call) \<Rightarrow> 'r \<Rightarrow> 'r protoState \<Rightarrow> bool"
  for S and C and r0 where
  start: "proto_reach S C r0 (proto_init r0)"
| step: "proto_reach S C r0 s \<Longrightarrow> proto_step S C s s' \<Longrightarrow> proto_reach S C r0 s'"

inductive_cases proto_stepE: "proto_step S C s s'"

section \<open>The invariant\<close>

text \<open>
  Every started request has left the phases before its handler, no request starts twice, its
  entry is live until its 24 hours are over, and two starts of one (user, key) pair are that far
  apart.
\<close>

definition sameKey :: "(nat \<Rightarrow> call) \<Rightarrow> nat \<Rightarrow> nat \<Rightarrow> bool" where
  "sameKey C i j \<longleftrightarrow> callUid (C i) = callUid (C j) \<and> callKey (C i) = callKey (C j)"

definition apart :: "nat \<Rightarrow> nat \<Rightarrow> bool" where
  "apart t t' \<longleftrightarrow> t + TTL_MS \<le> t' \<or> t' + TTL_MS \<le> t"

fun separated :: "(nat \<Rightarrow> call) \<Rightarrow> (nat \<times> nat) list \<Rightarrow> bool" where
  "separated C [] = True"
| "separated C ((i, t) # es) =
     ((\<forall>(j, u) \<in> set es. i \<noteq> j \<and> (sameKey C i j \<longrightarrow> u + TTL_MS \<le> t)) \<and> separated C es)"

context idem_service
begin

definition guarded :: "(nat \<Rightarrow> call) \<Rightarrow> nat \<Rightarrow> 'r \<Rightarrow> nat \<times> nat \<Rightarrow> bool" where
  "guarded C now r e \<longleftrightarrow> snd e \<le> now \<and>
     (\<forall>t. now \<le> t \<longrightarrow> t < snd e + TTL_MS \<longrightarrow>
        st r t (callUid (C (fst e))) (callKey (C (fst e))) \<noteq> None)"

definition proto_inv :: "(nat \<Rightarrow> call) \<Rightarrow> 'r protoState \<Rightarrow> bool" where
  "proto_inv C s \<longleftrightarrow>
     separated C (started s) \<and>
     (\<forall>e \<in> set (started s). phases s (fst e) \<in> {Running, Answered} \<and> guarded C (clock s) (redisOf s) e)"

lemma guarded_same: "guarded C now r e \<Longrightarrow> st r' = st r \<Longrightarrow> guarded C now r' e"
  by (simp add: guarded_def)

lemma guarded_later: "guarded C now r e \<Longrightarrow> now \<le> now' \<Longrightarrow> guarded C now' r e"
  by (auto simp: guarded_def)

lemma guarded_upd:
  assumes "guarded C now r e" and "\<And>j. valid (callKey (C j))"
    and "storeUpd (st r) valid now uid key rec (st r')"
  shows "guarded C now r' e"
proof -
  obtain j t where e: "e = (j, t)" by fastforce
  show ?thesis
  proof (cases "(callUid (C j), callKey (C j)) = (uid, key)")
    case True
    with assms e show ?thesis by (auto simp: guarded_def storeUpd_def)
  next
    case False
    then have "st r' u (callUid (C j)) (callKey (C j)) = st r u (callUid (C j)) (callKey (C j))" for u
      using assms(2) [of j] assms(3) by (simp add: storeUpd_def)
    with assms(1) e show ?thesis by (simp add: guarded_def)
  qed
qed

lemma guarded_new:
  "storeUpd (st r) valid now (callUid (C i)) (callKey (C i)) rec (st r') \<Longrightarrow> guarded C now r' (i, now)"
  by (simp add: guarded_def storeUpd_def)

text \<open>A step that keeps the log and moves one request forward.\<close>

lemma proto_inv_move:
  assumes "proto_inv C s" and "ph \<in> {Running, Answered} \<or> phases s i \<in> {Arrived, Missed}"
    and "\<And>e. e \<in> set (started s) \<Longrightarrow> guarded C (clock s) (redisOf s) e \<Longrightarrow> guarded C (clock s) r' e"
  shows "proto_inv C (moveTo i ph r' s)"
  using assms by (fastforce simp: proto_inv_def)

lemma proto_inv_kept:
  assumes "proto_inv C s" and "ph \<in> {Running, Answered} \<or> phases s i \<in> {Arrived, Missed}"
    and "\<And>j. valid (callKey (C j))"
    and "st r' = st (redisOf s) \<or> (\<exists>uid key rec. storeUpd (st (redisOf s)) valid (clock s) uid key rec (st r'))"
  shows "proto_inv C (moveTo i ph r' s)"
  using assms(1,2)
proof (rule proto_inv_move)
  fix e assume g: "guarded C (clock s) (redisOf s) e"
  from assms(4) show "guarded C (clock s) r' e"
    by (elim disjE exE) (rule guarded_same [OF g], assumption, rule guarded_upd [OF g assms(3)])
qed

lemma proto_inv_start:
  assumes "proto_inv C (moveTo i Running r' s)"
    and "\<forall>x \<in> set (started s). i \<noteq> fst x \<and> (sameKey C i (fst x) \<longrightarrow> snd x + TTL_MS \<le> clock s)"
    and "guarded C (clock s) r' (i, clock s)"
  shows "proto_inv C ((moveTo i Running r' s)\<lparr>started := (i, clock s) # started s\<rparr>)"
proof -
  let ?s = "(moveTo i Running r' s)\<lparr>started := (i, clock s) # started s\<rparr>"
  have "separated C (started ?s)"
    using assms(1,2) unfolding proto_inv_def by (simp add: case_prod_unfold)
  moreover have "phases ?s (fst e) \<in> {Running, Answered} \<and> guarded C (clock ?s) (redisOf ?s) e"
    if "e \<in> set (started ?s)" for e
  proof (cases "e = (i, clock s)")
    case True
    with assms(3) show ?thesis by simp
  next
    case False
    with that have "e \<in> set (started s)" by simp
    with assms(1) show ?thesis unfolding proto_inv_def moveTo_sel by fastforce
  qed
  ultimately show ?thesis unfolding proto_inv_def by blast
qed

lemma proto_step_inv:
  assumes step: "proto_step S C s s'" and inv: "proto_inv C s" and val: "\<And>j. valid (callKey (C j))"
  shows "proto_inv C s'"
  using step
proof (cases rule: proto_step.cases)
  case (tick t)
  with inv show ?thesis by (auto simp: proto_inv_def intro: guarded_later)
next
  case (lookup_miss i now r')
  with inv get_state [OF lookup_miss(4)] show ?thesis by (auto intro: proto_inv_kept [OF _ _ val])
next
  case (lookup_hit i now rec r')
  with inv get_state [OF lookup_hit(4)] show ?thesis by (auto intro: proto_inv_kept [OF _ _ val])
next
  case (lookup_err i now err r')
  with inv get_state [OF lookup_err(4)] show ?thesis by (auto intro: proto_inv_kept [OF _ _ val])
next
  case (lock_won i now r')
  note upd = pending_won [OF val lock_won(4), unfolded lock_won(3)]
  have none: "st (redisOf s) (clock s) (callUid (C i)) (callKey (C i)) = None"
    using pending_iff [OF lock_won(4)] lock_won(3) by simp
  have moved: "proto_inv C (moveTo i Running r' s)"
    using inv by (intro proto_inv_move) (auto intro: guarded_upd [OF _ val upd])
  have fresh: "i \<noteq> j \<and> (sameKey C i j \<longrightarrow> u + TTL_MS \<le> clock s)" if "(j, u) \<in> set (started s)" for j u
  proof -
    from that inv have "phases s j \<in> {Running, Answered}" and g: "guarded C (clock s) (redisOf s) (j, u)"
      by (auto simp: proto_inv_def)
    with lock_won(2) have "i \<noteq> j" by auto
    moreover from g none have "sameKey C i j \<Longrightarrow> \<not> clock s < u + TTL_MS"
      by (auto simp: guarded_def sameKey_def)
    ultimately show ?thesis by auto
  qed
  have fresh_all: "\<forall>x \<in> set (started s). i \<noteq> fst x \<and> (sameKey C i (fst x) \<longrightarrow> snd x + TTL_MS \<le> clock s)"
    using fresh by (metis prod.collapse)
  from proto_inv_start [OF moved fresh_all guarded_new [where C = C and i = i, OF upd]] show ?thesis
    unfolding lock_won(1) .
next
  case (lock_lost i now r')
  with inv pending_lost [OF lock_lost(4)] show ?thesis by (auto intro: proto_inv_kept [OF _ _ val])
next
  case (lock_err i now err r')
  have "st r' = st (redisOf s) \<or> (\<exists>uid key rec. storeUpd (st (redisOf s)) valid (clock s) uid key rec (st r'))"
    using pending_err [OF val lock_err(4)] lock_err(3) by auto
  with inv lock_err show ?thesis by (auto intro: proto_inv_kept [OF _ _ val])
next
  case (handler_returned i now code body res r')
  have "st r' = st (redisOf s) \<or> (\<exists>uid key rec. storeUpd (st (redisOf s)) valid (clock s) uid key rec (st r'))"
    using completed_ok [OF val] completed_err [OF val] handler_returned(3,4) by (cases res) metis+
  with inv handler_returned show ?thesis by (auto intro: proto_inv_kept [OF _ _ val])
next
  case (handler_threw i now err res r')
  have "st r' = st (redisOf s) \<or> (\<exists>uid key rec. storeUpd (st (redisOf s)) valid (clock s) uid key rec (st r'))"
    using failure_ok [OF val] failure_err [OF val] handler_threw(3,4) by (cases res) metis+
  with inv handler_threw show ?thesis by (auto intro: proto_inv_kept [OF _ _ val])
qed

lemma proto_reach_inv:
  assumes "proto_reach S C r0 s" and "\<And>j. valid (callKey (C j))"
  shows "proto_inv C s"
  using assms(1)
proof (induction rule: proto_reach.induct)
  case start
  show ?case by (simp add: proto_inv_def proto_init_def)
next
  case (step s s')
  then show ?case using proto_step_inv assms(2) by blast
qed

lemma separated_apart:
  "separated C es \<Longrightarrow> (i, t) \<in> set es \<Longrightarrow> (j, u) \<in> set es \<Longrightarrow> (i, t) \<noteq> (j, u) \<Longrightarrow>
   i \<noteq> j \<and> (sameKey C i j \<longrightarrow> apart t u)"
proof (induction es)
  case (Cons e es)
  then show ?case by (cases e) (fastforce simp: apart_def sameKey_def)
qed simp

end


section \<open>The steps are those of the interceptor\<close>

text \<open>
  One request alone, run through the interceptor at instants \<open>t0 \<le> t1 \<le> t2\<close>, is a run of the
  machine: the store it leaves is reached, and the log grows by the request exactly if its
  handler ran.
\<close>

definition callOf :: "request \<Rightarrow> string \<Rightarrow> string \<Rightarrow> call" where
  "callOf req uid key =
     \<lparr>callUid = uid, callKey = key, callMethod = reqMethod req, callPath = reqPath req\<rparr>"

lemma callOf_sel [simp]:
  "callUid (callOf req uid key) = uid" "callKey (callOf req uid key) = key"
  "callMethod (callOf req uid key) = reqMethod req" "callPath (callOf req uid key) = reqPath req"
  by (simp_all add: callOf_def)

lemma proto_reach_tick:
  "proto_reach S C r0 s \<Longrightarrow> clock s \<le> t \<Longrightarrow> proto_reach S C r0 (s\<lparr>clock := t\<rparr>)"
  by (blast intro: proto_reach.step proto_step.tick)

lemma replayRecord_store [simp]: "store (snd (replayRecord m p rec e)) = store e"
  by (simp add: replayRecord_def inProgress_def run_simps)

lemma running_reaches:
  assumes reach: "proto_reach S C r0 s" and ph: "phases s i = Running" and C: "C i = callOf req uid key"
    and t: "clock s \<le> ms t2" and e: "store e = redisOf s"
  shows "\<exists>s'. proto_reach S C r0 s' \<and> phases s' i = Answered \<and> redisOf s' =
    store (snd (runAndRecord S t2 status uid key (reqMethod req) (reqPath req) handler e))"
proof -
  let ?s = "s\<lparr>clock := ms t2\<rparr>"
  let ?r = "store (snd (runAndRecord S t2 status uid key (reqMethod req) (reqPath req) handler e))"
  obtain h w where hw: "handler (world e) = (h, w)" by fastforce
  have "proto_step S C ?s (moveTo i Answered ?r ?s)"
  proof (cases h)
    case (Inl err)
    with hw have "handler (world e) = (Inl err, w)" by simp
    from runAndRecord_store_Inl [where handler = handler and e = e, OF this] show ?thesis
      using C ph e by (intro proto_step.handler_threw [where now = t2 and err = err and
        res = "fst (svcSetCompletedFailure S t2 uid key (reqMethod req) (reqPath req)
                 (fst (toFailure err)) (snd (toFailure err)) (store e))"]) auto
  next
    case (Inr body)
    with hw have "handler (world e) = (Inr body, w)" by simp
    from runAndRecord_store_Inr [where handler = handler and e = e, OF this] show ?thesis
      using C ph e by (intro proto_step.handler_returned [where now = t2 and code = status and body = body
        and res = "fst (svcSetCompleted S t2 uid key (reqMethod req) (reqPath req) status body (store e))"]) auto
  qed
  with proto_reach_tick [OF reach t] have "proto_reach S C r0 (moveTo i Answered ?r ?s)"
    by (rule proto_reach.step)
  then show ?thesis by (intro exI [of _ "moveTo i Answered ?r ?s"]) simp
qed

definition lockAndRun ::
  "'r idempotencyService \<Rightarrow> request \<Rightarrow> string \<Rightarrow> string \<Rightarrow> instant \<Rightarrow> instant \<Rightarrow> int \<Rightarrow>
   ('w, exn, json option) run \<Rightarrow> (('r, 'w) env, exn, json option) run" where
  "lockAndRun S req uid key t1 t2 status handler =
     bindR (onStore (svcSetPending S t1 uid key (reqMethod req) (reqPath req)))
       (\<lambda>acquired. if \<not> acquired then inProgress
          else runAndRecord S t2 status uid key (reqMethod req) (reqPath req) handler)"

lemma missed_reaches:
  assumes reach: "proto_reach S C r0 s" and ph: "phases s i = Missed" and C: "C i = callOf req uid key"
    and t: "clock s \<le> ms t1" "ms t1 \<le> ms t2" and e: "store e = redisOf s"
  shows "\<exists>s'. proto_reach S C r0 s' \<and> phases s' i = Answered \<and>
    redisOf s' = store (snd (lockAndRun S req uid key t1 t2 status handler e))"
proof -
  let ?s = "s\<lparr>clock := ms t1\<rparr>"
  have r1: "proto_reach S C r0 ?s" using reach t(1) by (rule proto_reach_tick)
  obtain ok r2 where p: "svcSetPending S t1 uid key (reqMethod req) (reqPath req) (redisOf s) = (ok, r2)"
    by fastforce
  show ?thesis
  proof (cases "ok = Inr True")
    case True
    let ?s2 = "(moveTo i Running r2 ?s)\<lparr>started := (i, clock ?s) # started ?s\<rparr>"
    have "proto_step S C ?s ?s2"
      using p True C ph by (intro proto_step.lock_won [where now = t1]) auto
    with r1 have "proto_reach S C r0 ?s2" by (rule proto_reach.step)
    from running_reaches [OF this _ C, of t2 "e\<lparr>store := r2\<rparr>" status handler] show ?thesis
      using p True e t(2) by (simp add: lockAndRun_def bindR_def onStore_def)
  next
    case False
    have "proto_step S C ?s (moveTo i Answered r2 ?s)"
    proof (cases ok)
      case (Inl err)
      with p C ph show ?thesis by (intro proto_step.lock_err [where now = t1]) auto
    next
      case (Inr b)
      with p False C ph show ?thesis by (intro proto_step.lock_lost [where now = t1]) auto
    qed
    with r1 have "proto_reach S C r0 (moveTo i Answered r2 ?s)" by (rule proto_reach.step)
    moreover have "store (snd (lockAndRun S req uid key t1 t2 status handler e)) = r2"
      using False p e by (auto simp: lockAndRun_def run_simps inProgress_def split: sum.splits)
    ultimately show ?thesis by (intro exI [of _ "moveTo i Answered r2 ?s"]) simp
  qed
qed

lemma intercept_reaches:
  assumes reach: "proto_reach S C r0 s" and ph: "phases s i = Arrived" and C: "C i = callOf req uid key"
    and k: "keyed skip req uid key"
    and t: "clock s \<le> ms t0" "ms t0 \<le> ms t1" "ms t1 \<le> ms t2" and e: "store e = redisOf s"
  shows "\<exists>s'. proto_reach S C r0 s' \<and> phases s' i = Answered \<and>
    redisOf s' = store (snd (intercept S skip req t0 t1 t2 status handler e))"
proof -
  let ?X = "intercept S skip req t0 t1 t2 status handler e"
  let ?s = "s\<lparr>clock := ms t0\<rparr>"
  note X = intercept_keyed [OF k, of S t0 t1 t2 status handler, folded lockAndRun_def]
  have r0: "proto_reach S C r0 ?s" using reach t(1) by (rule proto_reach_tick)
  obtain res r1 where g: "svcGet S t0 uid key (redisOf s) = (res, r1)" by fastforce
  show ?thesis
  proof (cases "res = Inr None")
    case True
    have "proto_step S C ?s (moveTo i Missed r1 ?s)"
      using g True ph C by (intro proto_step.lookup_miss [where now = t0]) auto
    with r0 have "proto_reach S C r0 (moveTo i Missed r1 ?s)" by (rule proto_reach.step)
    from missed_reaches [OF this _ C _ t(3), of "e\<lparr>store := r1\<rparr>" status handler] show ?thesis
      using g True e t(2) by (simp add: X bindR_def onStore_def)
  next
    case False
    have "proto_step S C ?s (moveTo i Answered r1 ?s)"
    proof (cases res)
      case (Inl err)
      with g C ph show ?thesis by (intro proto_step.lookup_err [where now = t0]) auto
    next
      case (Inr b)
      with False obtain rec where "res = Inr (Some rec)" by (cases b) auto
      with g C ph show ?thesis by (intro proto_step.lookup_hit [where now = t0]) auto
    qed
    with r0 have "proto_reach S C r0 (moveTo i Answered r1 ?s)" by (rule proto_reach.step)
    moreover have "store (snd ?X) = r1"
      using False g e by (auto simp: X bindR_def onStore_def split: sum.splits option.splits)
    ultimately show ?thesis by (intro exI [of _ "moveTo i Answered r1 ?s"]) simp
  qed
qed

section \<open>Properties\<close>

text \<open>C1: Exactly-once under concurrency. Take any number of requests with UUID keys, interleaved at
  every await of the interceptor in any order, over a Redis server whose calls may fail at any
  point, including after having taken effect. Then two different requests of one user with one
  key enter their handlers at least 24 hours apart: within the lifetime of a record, a key runs
  at most one handler.\<close>

theorem at_most_one_execution_per_key:
  assumes "redis_records R ent" and "\<And>j. UUID_V4_REGEX (callKey (C j))"
    and "proto_reach (IdempotencyService R) C r0 s"
    and "(i, t) \<in> set (started s)" and "(j, u) \<in> set (started s)" and "(i, t) \<noteq> (j, u)"
    and "callUid (C i) = callUid (C j)" and "callKey (C i) = callKey (C j)"
  shows "t + 86400000 \<le> u \<or> u + 86400000 \<le> t"
proof -
  note svc = redis_records.provides_service [OF assms(1)]
  have "separated C (started s)"
    using idem_service.proto_reach_inv [OF svc assms(3)] UUID_V4_noColon [OF assms(2)]
    by (simp add: idem_service.proto_inv_def [OF svc])
  from idem_service.separated_apart [OF svc this assms(4-6)] assms(7,8) show ?thesis
    by (simp add: sameKey_def apart_def TTL_MS_def TTL_SECONDS_def)
qed

text \<open>A run with two starts of one key, 24 hours apart, over the expiring map.\<close>

definition demoCall :: call where
  "demoCall = callOf demoReq ''a@b.c'' demoKey"

abbreviation "demoCalls \<equiv> (\<lambda>_::nat. demoCall)"

lemma mem_svcGet:
  "svcGet (IdempotencyService memRedis) now u k m = (Inr (live m (ms now) (buildKey u k)), m)"
  by (simp add: idemGet_def memRedis_def)

lemma mem_svcSetPending:
  "live m (ms now) (buildKey u k) = None \<Longrightarrow>
   svcSetPending (IdempotencyService memRedis) now u k meth p m =
     (Inr True, m(buildKey u k \<mapsto> (pendingRecord meth p now, Some (ms now + TTL_MS))))"
  by (simp add: setPending_def memRedis_def bindR_def SET_PENDING_SCRIPT_def memSetNx_def TTL_MS_def)

lemma mem_start:
  assumes reach: "proto_reach (IdempotencyService memRedis) demoCalls r0 s" and ph: "phases s i = Arrived"
    and free: "live (redisOf s) (clock s) (buildKey ''a@b.c'' demoKey) = None"
  shows "\<exists>s'. proto_reach (IdempotencyService memRedis) demoCalls r0 s' \<and>
    started s' = (i, clock s) # started s \<and> clock s' = clock s \<and> phases s' = (phases s)(i := Running) \<and>
    live (redisOf s') (clock s + TTL_MS) (buildKey ''a@b.c'' demoKey) = None"
proof -
  let ?now = "\<lparr>ms = clock s, isoText = []\<rparr>"
  let ?s1 = "moveTo i Missed (redisOf s) s"
  let ?r = "(redisOf s)(buildKey ''a@b.c'' demoKey \<mapsto>
    (pendingRecord (reqMethod demoReq) (reqPath demoReq) ?now, Some (clock s + TTL_MS)))"
  let ?s2 = "(moveTo i Running ?r ?s1)\<lparr>started := (i, clock ?s1) # started ?s1\<rparr>"
  have "proto_step (IdempotencyService memRedis) demoCalls s ?s1"
    using ph free by (intro proto_step.lookup_miss [where now = ?now])
      (simp_all add: mem_svcGet demoCall_def del: IdempotencyService_sel)
  with reach have r1: "proto_reach (IdempotencyService memRedis) demoCalls r0 ?s1" by (rule proto_reach.step)
  have "proto_step (IdempotencyService memRedis) demoCalls ?s1 ?s2"
    using free by (intro proto_step.lock_won [where now = ?now])
      (simp_all add: mem_svcSetPending demoCall_def del: IdempotencyService_sel)
  with r1 have "proto_reach (IdempotencyService memRedis) demoCalls r0 ?s2" by (rule proto_reach.step)
  then show ?thesis by (intro exI [of _ ?s2]) simp
qed

lemma demo_two_starts:
  "\<exists>s. proto_reach (IdempotencyService memRedis) demoCalls (\<lambda>_. None) s \<and>
     started s = [(1, 86400000), (0, 0)]"
proof -
  let ?S = "IdempotencyService memRedis"
  from mem_start [OF proto_reach.start, of "\<lambda>_. None" 0] obtain s where
    s: "proto_reach ?S demoCalls (\<lambda>_. None) s" "started s = [(0, 0)]" "clock s = 0"
      "phases s = (\<lambda>_. Arrived)(0 := Running)" "live (redisOf s) TTL_MS (buildKey ''a@b.c'' demoKey) = None"
    by (auto simp: proto_init_def live_def liveEntry_def)
  have "proto_reach ?S demoCalls (\<lambda>_. None) (s\<lparr>clock := TTL_MS\<rparr>)"
    using s(1,3) by (intro proto_reach_tick) simp_all
  from mem_start [OF this, of 1] s show ?thesis by (auto simp: TTL_MS_def TTL_SECONDS_def)
qed

theorem at_most_one_execution_per_key_witness:
  "\<exists>s. proto_reach (IdempotencyService memRedis) demoCalls (\<lambda>_. None) s \<and>
     (1, 86400000) \<in> set (started s) \<and> (0, 0) \<in> set (started s) \<and> (0::nat) + 86400000 \<le> 86400000"
proof -
  from demo_two_starts obtain s where
    s: "proto_reach (IdempotencyService memRedis) demoCalls (\<lambda>_. None) s"
      "started s = [(1, 86400000), (0, 0)]" by blast
  have "UUID_V4_REGEX (callKey demoCall)" by (simp add: demoCall_def)
  from at_most_one_execution_per_key [where i = 0 and t = 0 and j = 1 and u = 86400000,
      OF memr.redis_records_axioms this s(1)] s
  show ?thesis by auto
qed



end
