(* ===== verification/Throttler.thy ===== *)
theory Throttler
  imports Interceptor
begin

text \<open>
  Rate limiting: the Redis storage of the counters (\<open>throttler/redis-throttler.storage.ts\<close>, its
  Lua script included) and the choice of the tracker (\<open>throttler/custom-throttler.guard.ts\<close>).
  The storage is proved to implement a fixed-window limiter per key, and the limiter is proved
  to bound what a client gets through.
\<close>

section \<open>The storage\<close>

definition counterKeyOf :: "string \<Rightarrow> string" where
  "counterKeyOf key = ''throttle:'' @ key"

definition blockKeyOf :: "string \<Rightarrow> string" where
  "blockKeyOf key = ''throttle:block:'' @ key"

text \<open>The script returns four numbers: hits, time to expiry, blocked or not, time to unblocking.\<close>

definition INCREMENT_SCRIPT ::
  "('r, 'z) redisCounters_scheme \<Rightarrow> nat \<Rightarrow> string \<Rightarrow> string \<Rightarrow> nat \<Rightarrow> int \<Rightarrow> nat \<Rightarrow>
   'r \<Rightarrow> int list \<times> 'r" where
  "INCREMENT_SCRIPT R now counterKey blockKey ttl limit blockDuration r =
     (let blockPttl = callPttl R r now blockKey in
      if 0 < blockPttl then
        (let hits = (case callGet R r now counterKey of Some n \<Rightarrow> n | None \<Rightarrow> limit);
             pttl = callPttl R r now counterKey;
             pttl' = (if pttl < 0 then blockPttl else pttl)
         in ([hits, pttl', 1, blockPttl], r))
      else
        (case callIncr R r now counterKey of
          (totalHits, r1) \<Rightarrow>
            (case (let timeToExpire = callPttl R r1 now counterKey in
                   if timeToExpire \<le> 0 then (int ttl, callPexpire R r1 now counterKey ttl)
                   else (timeToExpire, r1)) of
              (timeToExpire, r2) \<Rightarrow>
                if limit < totalHits then
                  ([totalHits, timeToExpire, 1, int blockDuration],
                   callSetPx R r2 now blockKey 1 blockDuration)
                else ([totalHits, timeToExpire, 0, 0], r2))))"

definition msToSeconds :: "int \<Rightarrow> int" where
  "msToSeconds d = (if 0 < d then (d + 999) div 1000 else 0)"

record ThrottlerStorageRecord =
  totalHits :: int
  timeToExpire :: int
  isBlocked :: bool
  timeToBlockExpire :: int

definition throttlerRecord :: "int list \<Rightarrow> ThrottlerStorageRecord" where
  "throttlerRecord ns =
     \<lparr>totalHits = ns ! 0, timeToExpire = msToSeconds (ns ! 1),
      isBlocked = (ns ! 2 = 1), timeToBlockExpire = msToSeconds (ns ! 3)\<rparr>"

definition increment ::
  "('r, 'z) redisCounters_scheme \<Rightarrow> nat \<Rightarrow> string \<Rightarrow> nat \<Rightarrow> int \<Rightarrow> nat \<Rightarrow>
   ('r, exn, ThrottlerStorageRecord) run" where
  "increment R now key ttl limit blockDuration =
     bindR (redisEval R (INCREMENT_SCRIPT R now (counterKeyOf key) (blockKeyOf key)
              ttl limit blockDuration))
       (\<lambda>ns. returnR (throttlerRecord ns))"

section \<open>The tracker\<close>

definition getTracker :: "request \<Rightarrow> string \<Rightarrow> string" where
  "getTracker req ip =
     (case authenticatedUserHeader req of
        Single userId \<Rightarrow> ''user:'' @ userId
      | _ \<Rightarrow> ''ip:'' @ ip)"

section \<open>The fixed-window limiter\<close>

text \<open>
  What the storage promises for one key: hits counted in the current window, the end of the
  window, the end of the block. A window starts at the first hit after the previous one ended.
\<close>

record limiter =
  windowHits :: int
  windowEnd :: nat
  blockedTill :: nat

definition hitLimiter :: "nat \<Rightarrow> nat \<Rightarrow> int \<Rightarrow> nat \<Rightarrow> limiter \<Rightarrow> bool \<times> limiter" where
  "hitLimiter now ttl limit blockDuration L =
     (if now < blockedTill L then (False, L)
      else
        let fresh = (windowEnd L \<le> now);
            n = (if fresh then 1 else windowHits L + 1);
            d = (if fresh then now + ttl else windowEnd L)
        in (n \<le> limit,
            \<lparr>windowHits = n, windowEnd = d,
             blockedTill = (if limit < n then now + blockDuration else blockedTill L)\<rparr>))"

definition limiterOf :: "(string \<Rightarrow> int entry option) \<Rightarrow> string \<Rightarrow> limiter" where
  "limiterOf m key =
     \<lparr>windowHits = (case m (counterKeyOf key) of Some (n, Some d) \<Rightarrow> n | _ \<Rightarrow> 0),
      windowEnd = (case m (counterKeyOf key) of Some (n, Some d) \<Rightarrow> d | _ \<Rightarrow> 0),
      blockedTill = (case m (blockKeyOf key) of Some (n, Some d) \<Rightarrow> d | _ \<Rightarrow> 0)\<rparr>"

text \<open>Every key of the storage carries an expiry: no counter can live forever.\<close>

definition timed :: "(string \<Rightarrow> int entry option) \<Rightarrow> bool" where
  "timed m \<longleftrightarrow> (\<forall>k v. m k \<noteq> Some (v, None))"

text \<open>
  The guard hashes class, handler, throttler and tracker into the key; what the storage needs of
  that hash is that it does not begin with the block prefix.
\<close>

definition plainKey :: "string \<Rightarrow> bool" where
  "plainKey key \<longleftrightarrow> take 6 key \<noteq> ''block:''"

lemma counter_block_ne [simp]:
  "plainKey key \<Longrightarrow> counterKeyOf key \<noteq> blockKeyOf key'"
  "plainKey key \<Longrightarrow> blockKeyOf key' \<noteq> counterKeyOf key"
  by (auto simp: counterKeyOf_def blockKeyOf_def plainKey_def)

lemma throttle_keys_inject [simp]:
  "counterKeyOf k = counterKeyOf k' \<longleftrightarrow> k = k'" "blockKeyOf k = blockKeyOf k' \<longleftrightarrow> k = k'"
  by (simp_all add: counterKeyOf_def blockKeyOf_def)

lemma hitLimiter_window:
  "hitLimiter now ttl limit bd L = (ok, L') \<Longrightarrow> 0 < ttl \<Longrightarrow> blockedTill L \<le> now \<Longrightarrow> now < windowEnd L'"
  by (auto simp: hitLimiter_def Let_def split: if_splits)

section \<open>The storage implements the limiter\<close>

lemma blocked_iff: "timed m \<Longrightarrow> 0 < ttlMs m now (blockKeyOf key) \<longleftrightarrow> now < blockedTill (limiterOf m key)"
  by (auto simp: ttlMs_def liveEntry_def limiterOf_def timed_def split: option.splits if_splits)

lemma counter_liveEntry:
  "timed m \<Longrightarrow> liveEntry m now (counterKeyOf key) =
     (if now < windowEnd (limiterOf m key)
      then Some (windowHits (limiterOf m key), Some (windowEnd (limiterOf m key))) else None)"
  by (auto simp: liveEntry_def limiterOf_def timed_def split: option.splits)

lemma timed_upd [simp]: "timed m \<Longrightarrow> timed (m(k \<mapsto> (v, Some d)))"
  by (simp add: timed_def)

lemma limiterOf_counter_upd [simp]:
  "plainKey key \<Longrightarrow> limiterOf (m(counterKeyOf key \<mapsto> (n, Some d))) key =
     (limiterOf m key)\<lparr>windowHits := n, windowEnd := d\<rparr>"
  "plainKey key' \<Longrightarrow> plainKey key \<Longrightarrow> key' \<noteq> key \<Longrightarrow>
     limiterOf (m(counterKeyOf key \<mapsto> e)) key' = limiterOf m key'"
  by (simp_all add: limiterOf_def)

lemma limiterOf_block_upd [simp]:
  "plainKey key \<Longrightarrow> limiterOf (m(blockKeyOf key \<mapsto> (n, Some d))) key = (limiterOf m key)\<lparr>blockedTill := d\<rparr>"
  "plainKey key' \<Longrightarrow> key' \<noteq> key \<Longrightarrow>
     limiterOf (m(blockKeyOf key \<mapsto> e)) key' = limiterOf m key'"
  by (simp_all add: limiterOf_def)

text \<open>One hit as the script performs it, on the entries.\<close>

definition hitEntries ::
  "nat \<Rightarrow> nat \<Rightarrow> int \<Rightarrow> nat \<Rightarrow> string \<Rightarrow> (string \<Rightarrow> int entry option) \<Rightarrow> (string \<Rightarrow> int entry option)" where
  "hitEntries now ttl limit bd key m =
     (let L = limiterOf m key; L' = snd (hitLimiter now ttl limit bd L) in
      if now < blockedTill L then m
      else let m1 = m(counterKeyOf key \<mapsto> (windowHits L', Some (windowEnd L'))) in
        if limit < windowHits L' then m1(blockKeyOf key \<mapsto> (1, Some (now + bd))) else m1)"

lemma hitEntries_limiter:
  "plainKey key \<Longrightarrow>
   limiterOf (hitEntries now ttl limit bd key m) key = snd (hitLimiter now ttl limit bd (limiterOf m key))"
  by (simp add: hitEntries_def hitLimiter_def Let_def)

lemma hitEntries_other:
  "plainKey key \<Longrightarrow> plainKey key' \<Longrightarrow> key' \<noteq> key \<Longrightarrow>
   limiterOf (hitEntries now ttl limit bd key m) key' = limiterOf m key'"
  by (simp add: hitEntries_def Let_def)

lemma hitEntries_timed: "timed m \<Longrightarrow> timed (hitEntries now ttl limit bd key m)"
  by (simp add: hitEntries_def Let_def)

context redis_counters
begin

text \<open>Counting and, where the counter has no expiry yet, starting the window.\<close>

lemma counted:
  assumes inc: "callIncr R r now (counterKeyOf key) = (n, r1)" and t: "timed (ent r)" and ttl: "0 < ttl"
    and L: "L = limiterOf (ent r) key"
  shows "n = (if now < windowEnd L then windowHits L + 1 else 1)"
    and "now < windowEnd L \<Longrightarrow> 0 < callPttl R r1 now (counterKeyOf key) \<and>
      ent r1 = (ent r)(counterKeyOf key \<mapsto> (n, Some (windowEnd L)))"
    and "\<not> now < windowEnd L \<Longrightarrow> callPttl R r1 now (counterKeyOf key) \<le> 0 \<and>
      ent (callPexpire R r1 now (counterKeyOf key) ttl) =
        (ent r)(counterKeyOf key \<mapsto> (n, Some (now + ttl)))"
proof -
  note c = counter_liveEntry [OF t, of now key, folded L]
  show n: "n = (if now < windowEnd L then windowHits L + 1 else 1)"
    using incr_value [OF inc] by (simp add: live_def c)
  show "0 < callPttl R r1 now (counterKeyOf key) \<and>
      ent r1 = (ent r)(counterKeyOf key \<mapsto> (n, Some (windowEnd L)))" if "now < windowEnd L"
    using incr_state [OF inc] that by (simp add: c pttl ttlMs_def)
  show "callPttl R r1 now (counterKeyOf key) \<le> 0 \<and>
      ent (callPexpire R r1 now (counterKeyOf key) ttl) =
        (ent r)(counterKeyOf key \<mapsto> (n, Some (now + ttl)))" if "\<not> now < windowEnd L"
  proof -
    from incr_state [OF inc] that have e: "ent r1 = (ent r)(counterKeyOf key \<mapsto> (n, None))" by (simp add: c)
    then have "liveEntry (ent r1) now (counterKeyOf key) = Some (n, None)" by simp
    from pexpire [OF this ttl] e show ?thesis by (simp add: pttl ttlMs_def)
  qed
qed

lemma script_hit:
  assumes run: "INCREMENT_SCRIPT R now (counterKeyOf key) (blockKeyOf key) ttl limit bd r = (ns, r')"
    and t: "timed (ent r)" and pos: "0 < ttl" "0 < bd"
  shows "ent r' = hitEntries now ttl limit bd key (ent r)"
    and "(ns ! 2 = 1) = (\<not> fst (hitLimiter now ttl limit bd (limiterOf (ent r) key)))"
    and "ns ! 2 = 1 \<Longrightarrow> ns ! 3 =
      int (blockedTill (snd (hitLimiter now ttl limit bd (limiterOf (ent r) key)))) - int now"
proof -
  let ?L = "limiterOf (ent r) key"
  obtain n r1 where inc: "callIncr R r now (counterKeyOf key) = (n, r1)" by fastforce
  note c = counted [OF inc t pos(1) refl]
  have b: "0 < callPttl R r now (blockKeyOf key) \<longleftrightarrow> now < blockedTill ?L"
    using blocked_iff [OF t] by (simp add: pttl)
  have left: "callPttl R r now (blockKeyOf key) = int (blockedTill ?L) - int now" if "now < blockedTill ?L"
    using that t by (auto simp: pttl ttlMs_def liveEntry_def limiterOf_def timed_def split: option.splits)
  show "ent r' = hitEntries now ttl limit bd key (ent r)"
    and "(ns ! 2 = 1) = (\<not> fst (hitLimiter now ttl limit bd ?L))"
    and "ns ! 2 = 1 \<Longrightarrow> ns ! 3 = int (blockedTill (snd (hitLimiter now ttl limit bd ?L))) - int now"
    using run b c left setpx [OF pos(2)] inc
    by (auto simp: INCREMENT_SCRIPT_def hitEntries_def hitLimiter_def Let_def split: if_splits)
qed

end

section \<open>The interface of the guard\<close>

text \<open>
  What the guard relies on: \<open>lim r key\<close> is the limiter of a key in a state \<open>r\<close> that satisfies
  \<open>valid\<close>. A call that rejects may or may not have counted the hit.
\<close>

locale rate_limiter =
  fixes inc :: "nat \<Rightarrow> string \<Rightarrow> ('r, exn, ThrottlerStorageRecord) run"
    and ttl :: nat and limit :: int and bd :: nat
    and lim :: "'r \<Rightarrow> string \<Rightarrow> limiter"
    and valid :: "'r \<Rightarrow> bool" and plain :: "string \<Rightarrow> bool"
  assumes ttl_pos: "0 < ttl" and bd_pos: "0 < bd"
    and inc_valid: "valid r \<Longrightarrow> plain key \<Longrightarrow> inc now key r = (res, r') \<Longrightarrow> valid r'"
    and inc_other: "valid r \<Longrightarrow> plain key \<Longrightarrow> plain k \<Longrightarrow> k \<noteq> key \<Longrightarrow> inc now key r = (res, r') \<Longrightarrow>
      lim r' k = lim r k"
    and inc_error: "valid r \<Longrightarrow> plain key \<Longrightarrow> inc now key r = (Inl e, r') \<Longrightarrow>
      lim r' key = lim r key \<or> lim r' key = snd (hitLimiter now ttl limit bd (lim r key))"
    and inc_hit: "valid r \<Longrightarrow> plain key \<Longrightarrow> inc now key r = (Inr rec, r') \<Longrightarrow>
      (\<not> isBlocked rec, lim r' key) = hitLimiter now ttl limit bd (lim r key)"
    and inc_retry: "valid r \<Longrightarrow> plain key \<Longrightarrow> inc now key r = (Inr rec, r') \<Longrightarrow> isBlocked rec \<Longrightarrow>
      int (blockedTill (lim r' key)) \<le> int now + 1000 * timeToBlockExpire rec"

lemma msToSeconds_ge: "d \<le> 1000 * msToSeconds d"
proof -
  have "1000 * ((d + 999) div 1000) + (d + 999) mod 1000 = d + 999" "(d + 999) mod 1000 < 1000"
    by simp_all
  then have "d \<le> 1000 * ((d + 999) div 1000)" by linarith
  then show ?thesis by (simp add: msToSeconds_def)
qed

context redis_counters
begin

lemma increment_entries:
  assumes run: "increment R now key ttl limit bd r = (res, r')" and t: "timed (ent r)"
    and pos: "0 < ttl" "0 < bd"
  shows "ent r' = hitEntries now ttl limit bd key (ent r) \<or> (\<exists>e. res = Inl e) \<and> ent r' = ent r"
    and "res = Inr rec \<Longrightarrow> isBlocked rec = (\<not> fst (hitLimiter now ttl limit bd (limiterOf (ent r) key)))"
    and "res = Inr rec \<Longrightarrow> isBlocked rec \<Longrightarrow>
      int (blockedTill (snd (hitLimiter now ttl limit bd (limiterOf (ent r) key))))
        \<le> int now + 1000 * timeToBlockExpire rec"
proof -
  let ?f = "INCREMENT_SCRIPT R now (counterKeyOf key) (blockKeyOf key) ttl limit bd"
  obtain x r1 where e: "redisEval R ?f r = (x, r1)" by fastforce
  note hit = script_hit [OF _ t pos, of now key limit]
  show "ent r' = hitEntries now ttl limit bd key (ent r) \<or> (\<exists>e. res = Inl e) \<and> ent r' = ent r"
    using run e eval_err [of ?f r] eval_ok [of ?f r] hit(1) [of "fst (?f r)" "snd (?f r)"]
    by (cases x) (auto simp: increment_def bindR_def prod_eq_iff)
  assume "res = Inr rec"
  with run e obtain ns where ns: "x = Inr ns" "rec = throttlerRecord ns"
    by (cases x) (auto simp: increment_def bindR_def)
  with e eval_ok [of ?f r ns r1] have f: "?f r = (ns, r1)" by simp
  show "isBlocked rec = (\<not> fst (hitLimiter now ttl limit bd (limiterOf (ent r) key)))"
    using hit(2) [OF f] by (simp add: ns throttlerRecord_def)
  show "isBlocked rec \<Longrightarrow> int (blockedTill (snd (hitLimiter now ttl limit bd (limiterOf (ent r) key))))
        \<le> int now + 1000 * timeToBlockExpire rec"
    using hit(3) [OF f] msToSeconds_ge [of "ns ! 3"] by (simp add: ns throttlerRecord_def)
qed

lemma provides_limiter:
  assumes pos: "0 < ttl" "0 < bd"
  shows "rate_limiter (\<lambda>now key. increment R now key ttl limit bd) ttl limit bd
    (\<lambda>r. limiterOf (ent r)) (\<lambda>r. timed (ent r)) plainKey"
proof unfold_locales
  show "0 < ttl" "0 < bd" by (rule pos)+
next
  fix r key now res r' assume t: "timed (ent r)" "plainKey key"
    and run: "increment R now key ttl limit bd r = (res, r')"
  note i = increment_entries [OF run t(1) pos]
  show "timed (ent r')" using i(1) t(1) hitEntries_timed by metis
  show "limiterOf (ent r') k = limiterOf (ent r) k" if "plainKey k" "k \<noteq> key" for k
    using i(1) hitEntries_other [OF t(2) that] by metis
next
  fix r key now e r' assume t: "timed (ent r)" "plainKey key"
    and run: "increment R now key ttl limit bd r = (Inl e, r')"
  show "limiterOf (ent r') key = limiterOf (ent r) key \<or>
      limiterOf (ent r') key = snd (hitLimiter now ttl limit bd (limiterOf (ent r) key))"
    using increment_entries(1) [OF run t(1) pos] hitEntries_limiter [OF t(2)] by metis
next
  fix r key now rec r' assume t: "timed (ent r)" "plainKey key"
    and run: "increment R now key ttl limit bd r = (Inr rec, r')"
  note i = increment_entries [OF run t(1) pos]
  have s: "limiterOf (ent r') key = snd (hitLimiter now ttl limit bd (limiterOf (ent r) key))"
    using i(1) hitEntries_limiter [OF t(2)] by auto
  show "(\<not> isBlocked rec, limiterOf (ent r') key) = hitLimiter now ttl limit bd (limiterOf (ent r) key)"
    using i(2) [OF refl] s by (simp add: prod_eq_iff)
  show "isBlocked rec \<Longrightarrow>
      int (blockedTill (limiterOf (ent r') key)) \<le> int now + 1000 * timeToBlockExpire rec"
    using i(3) [OF refl] s by simp
qed

end

interpretation memt: rate_limiter "\<lambda>now key. increment memCounters now key 60000 200 60000" 60000 200 60000
  limiterOf timed plainKey
  using memc.provides_limiter [of 60000 60000 200] by simp

section \<open>Sequences of requests\<close>

text \<open>
  The guard calls \<open>increment\<close> once per request; an answer that is not blocked lets the request
  through, a blocked one and a rejected call do not. Requests are pairs of instant and key.
\<close>

fun throttleRun ::
  "(nat \<Rightarrow> string \<Rightarrow> ('r, exn, ThrottlerStorageRecord) run) \<Rightarrow> (nat \<times> string) list \<Rightarrow> 'r \<Rightarrow>
   ((nat \<times> string) \<times> (exn + ThrottlerStorageRecord)) list" where
  "throttleRun inc [] r = []"
| "throttleRun inc ((now, key) # hits) r =
     (case inc now key r of (res, r') \<Rightarrow> ((now, key), res) # throttleRun inc hits r')"

fun letThrough :: "exn + ThrottlerStorageRecord \<Rightarrow> bool" where
  "letThrough (Inl e) = False"
| "letThrough (Inr rec) = (\<not> isBlocked rec)"

definition passed ::
  "string \<Rightarrow> ((nat \<times> string) \<times> (exn + ThrottlerStorageRecord)) list \<Rightarrow> nat" where
  "passed key log = length (filter (\<lambda>((now, k), res). k = key \<and> letThrough res) log)"

lemma passed_simps [simp]:
  "passed key [] = 0"
  "passed key (((now, k), res) # log) = (if k = key \<and> letThrough res then 1 else 0) + passed key log"
  by (simp_all add: passed_def)

text \<open>
  What a key can still get through before the instant \<open>e\<close>: the rest of the current window, and
  a whole window more when the current one ends before \<open>e\<close>.
\<close>

definition budget :: "int \<Rightarrow> nat \<Rightarrow> limiter \<Rightarrow> int" where
  "budget limit e L =
     (let rest = max 0 (limit - windowHits L) in if e \<le> windowEnd L then rest else rest + limit)"

lemma budget_hit:
  assumes "hitLimiter now ttl limit bd L = (ok, L')" and "a \<le> now" and "now < e" and "e \<le> a + ttl"
    and "0 \<le> limit"
  shows "(if ok then 1 else 0) + budget limit e L' \<le> budget limit e L"
  using assms by (auto simp: hitLimiter_def budget_def Let_def max_def split: if_splits)

lemma budget_le: "0 \<le> limit \<Longrightarrow> 0 \<le> windowHits L \<Longrightarrow> budget limit e L \<le> 2 * limit"
  by (simp add: budget_def Let_def)

lemma budget_ended: "0 \<le> limit \<Longrightarrow> windowHits L = 0 \<Longrightarrow> e \<le> windowEnd L \<Longrightarrow> budget limit e L = limit"
  by (simp add: budget_def)

context rate_limiter
begin

lemma passed_le_budget:
  assumes "valid r" and "plain key" and "0 \<le> limit"
    and "\<forall>(now, k) \<in> set hits. plain k \<and> (k = key \<longrightarrow> a \<le> now \<and> now < e)" and "e \<le> a + ttl"
  shows "int (passed key (throttleRun inc hits r)) \<le> budget limit e (lim r key)"
  using assms(1,4)
proof (induction hits arbitrary: r)
  case Nil
  then show ?case using assms(3) by (simp add: budget_def Let_def)
next
  case (Cons h hits)
  obtain now k where h: "h = (now, k)" by fastforce
  obtain res r' where i: "inc now k r = (res, r')" by fastforce
  have p: "plain k" using Cons.prems h by simp
  have IH: "int (passed key (throttleRun inc hits r')) \<le> budget limit e (lim r' key)"
    using Cons.IH [OF inc_valid [OF Cons.prems(1) p i]] Cons.prems(2) by simp
  show ?case
  proof (cases "k = key")
    case False
    with inc_other [OF Cons.prems(1) p assms(2) _ i] IH h i show ?thesis by simp
  next
    case True
    obtain ok L' where hl: "hitLimiter now ttl limit bd (lim r key) = (ok, L')" by fastforce
    have t: "a \<le> now" "now < e" using Cons.prems(2) h True by auto
    note b = budget_hit [OF hl t assms(5,3)]
    show ?thesis
    proof (cases res)
      case (Inl err)
      then have "lim r' key = lim r key \<or> lim r' key = L'"
        using inc_error [OF Cons.prems(1) assms(2), of now err r'] i True hl by simp
      with b IH Inl h i True show ?thesis by (auto split: if_splits)
    next
      case (Inr rec)
      then have "\<not> isBlocked rec = ok" "lim r' key = L'"
        using inc_hit [OF Cons.prems(1) assms(2), of now rec r'] i True hl by auto
      with b IH Inr h i True show ?thesis by auto
    qed
  qed
qed

text \<open>The next hit after the announced waiting time.\<close>

lemma retry_allowed:
  assumes "valid r" and "plain key" and "inc now key r = (Inr rec, r')" and "isBlocked rec"
    and "ttl \<le> bd" and "1 \<le> limit" and "windowEnd (lim r key) \<le> now + ttl"
    and "now < blockedTill (lim r key) \<longrightarrow> windowEnd (lim r key) \<le> blockedTill (lim r key)"
    and "int now + 1000 * timeToBlockExpire rec \<le> int later"
    and "inc later key r' = (Inr rec2, r2)"
  shows "\<not> isBlocked rec2"
proof -
  have "lim r' key = snd (hitLimiter now ttl limit bd (lim r key))"
    "\<not> fst (hitLimiter now ttl limit bd (lim r key))"
    using inc_hit [OF assms(1-3)] assms(4) by (simp_all add: prod_eq_iff)
  moreover have "blockedTill (lim r' key) \<le> later"
    using inc_retry [OF assms(1-4)] assms(9) by simp
  ultimately have "windowEnd (lim r' key) \<le> later" "blockedTill (lim r' key) \<le> later"
    using assms(5,7,8) by (auto simp: hitLimiter_def Let_def split: if_splits)
  then have "fst (hitLimiter later ttl limit bd (lim r' key))"
    using assms(6) by (simp add: hitLimiter_def)
  with inc_hit [OF inc_valid [OF assms(1-3)] assms(2,10)] show ?thesis
    by (metis fst_conv)
qed

text \<open>The first requests of a window.\<close>

lemma first_hits:
  assumes rel: "\<And>now key r. \<exists>rec r'. inc now key r = (Inr rec, r')" and p: "plain key" and l: "0 \<le> limit"
    and t: "\<forall>(now, k) \<in> set hits. k = key \<and> t0 \<le> now \<and> now < t0 + ttl"
    and v: "valid r" and e: "windowEnd (lim r key) = t0 + ttl" and n: "0 \<le> windowHits (lim r key)"
    and b: "windowHits (lim r key) \<le> limit \<longrightarrow> blockedTill (lim r key) \<le> t0"
  shows "int (passed key (throttleRun inc hits r)) =
    min (int (length hits)) (max 0 (limit - windowHits (lim r key)))"
  using v e n b t
proof (induction hits arbitrary: r)
  case Nil
  then show ?case by simp
next
  case (Cons h hits)
  obtain now where h: "h = (now, key)" and t: "t0 \<le> now" "now < t0 + ttl"
    using Cons.prems(5) by (cases h) auto
  from rel obtain rec r' where i: "inc now key r = (Inr rec, r')" by blast
  let ?L = "lim r key"
  have hl: "lim r' key = snd (hitLimiter now ttl limit bd ?L)"
    "isBlocked rec \<longleftrightarrow> \<not> fst (hitLimiter now ttl limit bd ?L)"
    using inc_hit [OF Cons.prems(1) p i] by (auto simp: prod_eq_iff)
  have L': "windowEnd (lim r' key) = t0 + ttl \<and> 0 \<le> windowHits (lim r' key) \<and>
      (windowHits (lim r' key) \<le> limit \<longrightarrow> blockedTill (lim r' key) \<le> t0)"
    using hl Cons.prems(2-4) t by (auto simp: hitLimiter_def Let_def split: if_splits)
  have step: "(if isBlocked rec then 0 else 1) + max 0 (limit - windowHits (lim r' key)) =
      max 0 (limit - windowHits ?L) \<and> (isBlocked rec \<longleftrightarrow> limit \<le> windowHits ?L)"
    using hl Cons.prems(2-4) t by (auto simp: hitLimiter_def Let_def max_def split: if_splits)
  have "int (passed key (throttleRun inc hits r')) =
      min (int (length hits)) (max 0 (limit - windowHits (lim r' key)))"
    using Cons.IH [OF inc_valid [OF Cons.prems(1) p i]] L' Cons.prems(5) by simp
  with step show ?case by (auto simp: h i split: if_splits)
qed

end

text \<open>The state after a sequence of requests.\<close>

fun throttleState ::
  "(nat \<Rightarrow> string \<Rightarrow> ('r, exn, ThrottlerStorageRecord) run) \<Rightarrow> (nat \<times> string) list \<Rightarrow> 'r \<Rightarrow> 'r" where
  "throttleState inc [] r = r"
| "throttleState inc ((now, key) # hits) r = throttleState inc hits (snd (inc now key r))"

lemma throttleRun_append:
  "throttleRun inc (xs @ ys) r = throttleRun inc xs r @ throttleRun inc ys (throttleState inc xs r)"
  by (induction inc xs r rule: throttleRun.induct) (simp_all split: prod.split)

lemma length_throttleRun [simp]: "length (throttleRun inc xs r) = length xs"
  by (induction inc xs r rule: throttleRun.induct) (simp_all split: prod.split)

lemma hitLimiter_hits: "0 \<le> windowHits L \<Longrightarrow> 0 \<le> windowHits (snd (hitLimiter now ttl limit bd L))"
  by (simp add: hitLimiter_def Let_def)

context rate_limiter
begin

lemma throttleState_hits:
  assumes "plain key"
  shows "valid r \<Longrightarrow> \<forall>(now, k) \<in> set hits. plain k \<Longrightarrow> 0 \<le> windowHits (lim r key) \<Longrightarrow>
    valid (throttleState inc hits r) \<and> 0 \<le> windowHits (lim (throttleState inc hits r) key)"
proof (induction hits arbitrary: r)
  case (Cons h hits)
  obtain now k where h: "h = (now, k)" by fastforce
  obtain res r' where i: "inc now k r = (res, r')" by fastforce
  have p: "plain k" using Cons.prems(2) h by simp
  have "0 \<le> windowHits (lim r' key)"
  proof (cases "k = key")
    case True
    have "lim r' key = lim r key \<or> lim r' key = snd (hitLimiter now ttl limit bd (lim r key))"
      using inc_error [OF Cons.prems(1) assms] inc_hit [OF Cons.prems(1) assms] i True
      by (cases res) (auto simp: prod_eq_iff)
    with Cons.prems(3) hitLimiter_hits show ?thesis by metis
  next
    case False
    with inc_other [OF Cons.prems(1) p assms _ i] Cons.prems(3) show ?thesis by simp
  qed
  with Cons.IH [OF inc_valid [OF Cons.prems(1) p i]] Cons.prems(2) show ?case by (simp add: h i)
qed simp

end

section \<open>Properties\<close>

lemma limiterOf_free [simp]:
  "m (counterKeyOf key) = None \<Longrightarrow> m (blockKeyOf key) = None \<Longrightarrow>
   limiterOf m key = \<lparr>windowHits = 0, windowEnd = 0, blockedTill = 0\<rparr>"
  by (simp add: limiterOf_def)

text \<open>C18: The rate limit holds under any load. From a store in which every entry has an expiry and the
  key has no counter, after any sequence of requests of any clients, over a Redis server whose
  calls may fail at any point, a key gets at most twice its limit through in any interval as long
  as the window: at most the rest of one window and all of the next.\<close>

theorem rate_limit_any_interval:
  assumes "redis_counters R ent" and "0 < ttl" and "0 < bd" and "0 \<le> limit"
    and "timed (ent r)" and "ent r (counterKeyOf key) = None" and "ent r (blockKeyOf key) = None"
    and "\<forall>(now, k) \<in> set (before @ during). plainKey k" and "plainKey key"
    and "\<forall>(now, k) \<in> set during. a \<le> now \<and> now < a + ttl"
  shows "int (passed key (drop (length before)
      (throttleRun (\<lambda>now k. increment R now k ttl limit bd) (before @ during) r))) \<le> 2 * limit"
proof -
  let ?inc = "\<lambda>now k. increment R now k ttl limit bd" and ?lim = "\<lambda>r. limiterOf (ent r)"
  let ?r = "throttleState ?inc before r"
  note lim = redis_counters.provides_limiter [OF assms(1-3), of limit]
  have s: "timed (ent ?r) \<and> 0 \<le> windowHits (?lim ?r key)"
    using rate_limiter.throttleState_hits [OF lim assms(9,5), of before] assms(6-8) by auto
  have "int (passed key (throttleRun ?inc during ?r)) \<le> budget limit (a + ttl) (?lim ?r key)"
    using rate_limiter.passed_le_budget [OF lim _ assms(9,4), of ?r during a "a + ttl"] s assms(8,10)
    by fastforce
  also have "\<dots> \<le> 2 * limit" using budget_le [OF assms(4)] s by blast
  finally show ?thesis by (simp add: throttleRun_append)
qed

theorem rate_limit_any_interval_witness:
  "int (passed ''ip:1'' (drop 1 (throttleRun (\<lambda>now k. increment memCounters now k 10 2 10)
     ([(0, ''ip:2'')] @ [(7, ''ip:1''), (8, ''ip:1''), (9, ''ip:1'')]) (\<lambda>_. None)))) \<le> 4"
  using rate_limit_any_interval [OF memc.redis_counters_axioms, of 10 10 2 "\<lambda>_. None" "''ip:1''"
      "[(0, ''ip:2'')]" "[(7, ''ip:1''), (8, ''ip:1''), (9, ''ip:1'')]" 7]
  by (simp add: timed_def plainKey_def)

text \<open>On a server that answers every call, a client is not refused early either: of the requests of
  one key within one window, starting with the first of the window, exactly the first \<open>limit\<close>
  are let through.\<close>

lemma window_lets_first_requests_through:
  assumes "redis_counters R ent" and "0 < ttl" and "0 < bd" and "0 \<le> limit"
    and "\<forall>f r. \<exists>ns r'. redisEval R f r = (Inr ns, r')"
    and "timed (ent r)" and "ent r (counterKeyOf key) = None" and "ent r (blockKeyOf key) = None"
    and "plainKey key" and "\<forall>now \<in> set ts. t0 \<le> now \<and> now < t0 + ttl"
  shows "passed key (throttleRun (\<lambda>now k. increment R now k ttl limit bd)
      (map (\<lambda>now. (now, key)) (t0 # ts)) r) = min (length (t0 # ts)) (nat limit)"
proof -
  let ?inc = "\<lambda>now k. increment R now k ttl limit bd" and ?lim = "\<lambda>r. limiterOf (ent r)"
  note lim = redis_counters.provides_limiter [OF assms(1-3), of limit]
  have rel: "\<exists>rec r'. ?inc now k q = (Inr rec, r')" for now k q
  proof -
    obtain ns r' where "redisEval R (INCREMENT_SCRIPT R now (counterKeyOf k) (blockKeyOf k) ttl limit bd) q
        = (Inr ns, r')" using assms(5) by blast
    then show ?thesis by (simp add: increment_def bindR_def)
  qed
  then obtain rec r1 where i: "?inc t0 key r = (Inr rec, r1)" by blast
  from rate_limiter.inc_hit [OF lim assms(6,9) i] assms(7,8) have
    h: "isBlocked rec \<longleftrightarrow> limit < 1" "?lim r1 key = \<lparr>windowHits = 1, windowEnd = t0 + ttl,
      blockedTill = (if limit < 1 then t0 + bd else 0)\<rparr>"
    by (auto simp: hitLimiter_def)
  have "int (passed key (throttleRun ?inc (map (\<lambda>now. (now, key)) ts) r1)) =
      min (int (length ts)) (max 0 (limit - 1))"
    using rate_limiter.first_hits [OF lim rel assms(9,4) _ rate_limiter.inc_valid [OF lim assms(6,9) i],
        of "map (\<lambda>now. (now, key)) ts" t0] h assms(10) by simp
  with h i assms(4) show ?thesis by (auto simp: min_def max_def split: if_splits)
qed

text \<open>C26: Waiting helps. When a client is refused, its first request after the announced number of
  seconds is let through, provided the block lasts at least as long as the window (as configured,
  where both are the same), the limit is positive, and the limiter's times are those of earlier
  requests (the window ends within one window from now, and not after a block in force).\<close>

theorem retry_after_announced_time:
  assumes "redis_counters R ent" and "0 < ttl" and "ttl \<le> bd" and "1 \<le> limit"
    and "timed (ent r)" and "plainKey key"
    and "windowEnd (limiterOf (ent r) key) \<le> now + ttl"
    and "now < blockedTill (limiterOf (ent r) key) \<longrightarrow>
      windowEnd (limiterOf (ent r) key) \<le> blockedTill (limiterOf (ent r) key)"
    and "increment R now key ttl limit bd r = (Inr rec, r')" and "isBlocked rec"
    and "int now + 1000 * timeToBlockExpire rec \<le> int later"
    and "increment R later key ttl limit bd r' = (Inr rec2, r2)"
  shows "\<not> isBlocked rec2"
proof -
  have "0 < bd" using assms(2,3) by simp
  from rate_limiter.retry_allowed [OF redis_counters.provides_limiter [OF assms(1,2) this]
      assms(5,6,9,10,3,4,7,8,11,12)] show ?thesis .
qed

definition demoBlocked :: "int memory" where
  "demoBlocked = (\<lambda>_. None)(counterKeyOf ''k'' \<mapsto> (2, Some 1500), blockKeyOf ''k'' \<mapsto> (1, Some 1500))"

theorem retry_after_announced_time_witness:
  "\<exists>rec r' rec2. increment memCounters 200 ''k'' 1500 1 1500 demoBlocked = (Inr rec, r') \<and>
     isBlocked rec \<and> timeToBlockExpire rec = 2 \<and>
     fst (increment memCounters 2200 ''k'' 1500 1 1500 r') = Inr rec2 \<and> \<not> isBlocked rec2"
proof -
  let ?inc = "\<lambda>now. increment memCounters now ''k'' 1500 1 1500"
  obtain rec r' where i: "?inc 200 demoBlocked = (Inr rec, r')" "isBlocked rec" "timeToBlockExpire rec = 2"
    by (simp add: increment_def bindR_def memCounters_def INCREMENT_SCRIPT_def ttlMs_def liveEntry_def
        demoBlocked_def counterKeyOf_def blockKeyOf_def throttlerRecord_def msToSeconds_def)
  obtain rec2 r2 where j: "?inc 2200 r' = (Inr rec2, r2)"
    by (auto simp: increment_def bindR_def memCounters_def)
  have lim: "limiterOf demoBlocked ''k'' = \<lparr>windowHits = 2, windowEnd = 1500, blockedTill = 1500\<rparr>"
    by (simp add: limiterOf_def demoBlocked_def counterKeyOf_def blockKeyOf_def)
  from retry_after_announced_time [OF memc.redis_counters_axioms _ _ _ _ _ _ _ i(1,2) _ j] i(3) lim
  have "\<not> isBlocked rec2" by (simp add: demoBlocked_def plainKey_def timed_def)
  with i j show ?thesis by (intro exI conjI) auto
qed

text \<open>Two requests count against the same tracker only if both are authenticated as the same user,
  or neither has a user and both come from the same address; an authenticated client can neither
  use up nor share the quota of an address or of another user.\<close>

lemma tracker_separates_clients:
  "getTracker req ip = getTracker req' ip' \<longleftrightarrow>
     (\<exists>u. authenticatedUserHeader req = Single u \<and> authenticatedUserHeader req' = Single u) \<or>
     (\<forall>u. authenticatedUserHeader req \<noteq> Single u \<and> authenticatedUserHeader req' \<noteq> Single u) \<and> ip = ip'"
  by (auto simp: getTracker_def split: header.splits)

end
