(* ===== verification/App.thy ===== *)
theory App
  imports Web IdemProtocol Throttler
begin

text \<open>
  The application (\<open>app.module.ts\<close>): every route with its metadata, and a whole request through
  guards, interceptors, handler and exception filters in the order Nest applies them:
  \<open>AuthGuard\<close>, \<open>CustomThrottlerGuard\<close>, \<open>IdempotencyKeyInterceptor\<close>, the interceptor of the
  controller, the handler, and on an exception the filters. The framework's throttler guard is a
  parameter; it keeps its own state.
\<close>

section \<open>Routes\<close>

datatype route =
    GetAllPosts | GetUserPosts | GetPost | CreatePostRoute | PatchPost | DeletePostRoute
  | AddPostLikeUser | DeletePostLikeUser
  | CreateUserInfo | GetUserInfo | UpdateUserInfo | DeleteUserInfo
  | JoinRoute | LoginRoute | RefreshRoute | OauthRoute
  | GetHello

fun metaOf :: "route \<Rightarrow> controllerMeta" where
  "metaOf AddPostLikeUser = PostLikeController"
| "metaOf DeletePostLikeUser = PostLikeController"
| "metaOf CreateUserInfo = UserInfoController"
| "metaOf GetUserInfo = UserInfoController"
| "metaOf UpdateUserInfo = UserInfoController"
| "metaOf DeleteUserInfo = UserInfoController"
| "metaOf JoinRoute = UserAuthController"
| "metaOf LoginRoute = UserAuthController"
| "metaOf RefreshRoute = UserAuthController"
| "metaOf OauthRoute = UserAuthController"
| "metaOf GetHello = AppController"
| "metaOf _ = PostController"

text \<open>\<open>@SkipIdempotency\<close> is on three handlers.\<close>

definition skipIdempotency :: "route \<Rightarrow> bool option" where
  "skipIdempotency r = (if r \<in> {LoginRoute, RefreshRoute, OauthRoute} then Some True else None)"

definition methodOf :: "route \<Rightarrow> string" where
  "methodOf r =
     (if r \<in> {GetAllPosts, GetUserPosts, GetPost, GetUserInfo, GetHello} then ''GET''
      else if r \<in> {PatchPost, UpdateUserInfo} then ''PATCH''
      else if r \<in> {DeletePostRoute, DeletePostLikeUser, DeleteUserInfo} then ''DELETE''
      else ''POST'')"

definition successStatus :: "route \<Rightarrow> nat" where
  "successStatus r = (if methodOf r = ''POST'' then 201 else 200)"

section \<open>Application and server\<close>

text \<open>
  What the modules wire together. \<open>appThrottle\<close> is the framework's throttler guard at a tracker, a
  route and an instant: it throws the too-many-requests exception or lets the request pass.
\<close>

record ('r, 'c, 'd) application =
  appDb :: "'d ormOps"
  appWeb :: webLib
  appLibs :: libs
  appConfig :: authConfig
  appCookies :: cookieSettings
  appIdem :: "'r idempotencyService"
  appThrottle :: "string \<Rightarrow> route \<Rightarrow> nat \<Rightarrow> ('c, exn, unit) run"

record ('r, 'c, 'd) server =
  srvRecords :: 'r
  srvLimits :: 'c
  srvDb :: 'd

fun handlerOf :: "('r, 'c, 'd) application \<Rightarrow> route \<Rightarrow> nat \<Rightarrow> webRequest \<Rightarrow> ('d, exn, jsval) run" where
  "handlerOf X GetAllPosts now req = ctlGetAllPosts (appDb X) (appWeb X) now req"
| "handlerOf X GetUserPosts now req =
     ctlGetUserPosts (appDb X) (appWeb X) (aesLib (appLibs X)) (pkSecretKey (appConfig X)) now req"
| "handlerOf X GetPost now req =
     ctlGetPost (appDb X) (appWeb X) (aesLib (appLibs X)) (pkSecretKey (appConfig X)) now req"
| "handlerOf X CreatePostRoute now req = ctlCreatePost (appDb X) (appWeb X) now req"
| "handlerOf X PatchPost now req =
     ctlPatchPost (appDb X) (appWeb X) (aesLib (appLibs X)) (pkSecretKey (appConfig X)) req"
| "handlerOf X DeletePostRoute now req =
     ctlDeletePost (appDb X) (appWeb X) (aesLib (appLibs X)) (pkSecretKey (appConfig X)) req"
| "handlerOf X AddPostLikeUser now req =
     ctlAddPostLikeUser (appDb X) (appWeb X) (aesLib (appLibs X)) (pkSecretKey (appConfig X)) req"
| "handlerOf X DeletePostLikeUser now req =
     ctlDeletePostLikeUser (appDb X) (appWeb X) (aesLib (appLibs X)) (pkSecretKey (appConfig X)) req"
| "handlerOf X CreateUserInfo now req = ctlCreateUserInfo (appDb X) (appWeb X) req"
| "handlerOf X GetUserInfo now req = ctlGetUserInfo (appDb X) now req"
| "handlerOf X UpdateUserInfo now req = ctlUpdateUserInfo (appDb X) (appWeb X) req"
| "handlerOf X DeleteUserInfo now req = ctlDeleteUserInfo (appDb X) req"
| "handlerOf X JoinRoute now req = ctlJoin (appDb X) (appWeb X) (appLibs X) (appConfig X) now req"
| "handlerOf X LoginRoute now req = ctlLogin (appDb X) (appWeb X) (appLibs X) (appConfig X) now req"
| "handlerOf X RefreshRoute now req = ctlRefresh (appDb X) (appLibs X) (appConfig X) now req"
| "handlerOf X OauthRoute now req = ctlGoogleOauthLogin (appDb X) (appWeb X) (appLibs X) (appConfig X) now req"
| "handlerOf X GetHello now req = ctlGetHello"

section \<open>The wire format\<close>

text \<open>\<open>Date.toISOString()\<close> for instants from 1970 to the year 9999: the civil date of a day number.\<close>

definition padded :: "nat \<Rightarrow> nat \<Rightarrow> string" where
  "padded k n = replicate (k - length (showNat n)) (CHR ''0'') @ showNat n"

definition civilDate :: "nat \<Rightarrow> nat \<times> nat \<times> nat" where
  "civilDate days =
     (let z = days + 719468; era = z div 146097; doe = z mod 146097;
          yoe = (doe - doe div 1460 + doe div 36524 - doe div 146096) div 365;
          doy = doe - (365 * yoe + yoe div 4 - yoe div 100);
          mp = (5 * doy + 2) div 153; m = (if mp < 10 then mp + 3 else mp - 9) in
      (yoe + era * 400 + (if m \<le> 2 then 1 else 0), m, doy - (153 * mp + 2) div 5 + 1))"

definition toISOString :: "nat \<Rightarrow> string" where
  "toISOString t =
     (case civilDate (t div 86400000) of (y, m, d) \<Rightarrow>
        padded 4 y @ ''-'' @ padded 2 m @ ''-'' @ padded 2 d @ ''T'' @
        padded 2 (t div 3600000 mod 24) @ '':'' @ padded 2 (t div 60000 mod 60) @ '':'' @
        padded 2 (t div 1000 mod 60) @ ''.'' @ padded 3 (t mod 1000) @ ''Z'')"

definition dateOf :: "(string \<times> jsval) list \<Rightarrow> nat" where
  "dateOf fs = (case map_of fs ''time'' of Some (VNum n) \<Rightarrow> nat n | _ \<Rightarrow> 0)"

text \<open>The JSON of a value: properties that are \<open>undefined\<close> disappear, in arrays they read \<open>null\<close>.\<close>

fun jsonOf :: "jsval \<Rightarrow> json" and jsonFields :: "(string \<times> jsval) list \<Rightarrow> (string \<times> json) list" where
  "jsonOf VUndefined = JNull"
| "jsonOf VNull = JNull"
| "jsonOf (VBool b) = JBool b"
| "jsonOf (VNum n) = JNum n"
| "jsonOf (VStr s) = JStr s"
| "jsonOf (VArr xs) = JArr (map jsonOf xs)"
| "jsonOf (VObj c fs) = (if c = ''Date'' then JStr (toISOString (dateOf fs)) else JObj (jsonFields fs))"
| "jsonFields [] = []"
| "jsonFields ((k, v) # fs) = (if v = VUndefined then jsonFields fs else (k, jsonOf v) # jsonFields fs)"

definition jsonBody :: "jsval \<Rightarrow> json option" where
  "jsonBody v = (if v = VUndefined then None else Some (jsonOf v))"

section \<open>One request\<close>

text \<open>The view of the request that the throttler guard and the idempotency interceptor read.\<close>

definition idemRequest :: "httpRequest \<Rightarrow> request" where
  "idemRequest req =
     \<lparr>reqMethod = httpMethod req, reqPath = httpPath req,
      idempotencyKeyHeader = httpHeaders req ''idempotency-key'',
      authenticatedUserHeader = httpHeaders req ''authenticatedUser''\<rparr>"

definition onDb :: "('d, exn, 'a) run \<Rightarrow> ('d \<times> cookie list, exn, 'a) run" where
  "onDb m = (\<lambda>(d, cookies). case m d of (res, d') \<Rightarrow> (res, (d', cookies)))"

lemma onDb_apply: "onDb m (d, cs) = (fst (m d), (snd (m d), cs))"
  by (simp add: onDb_def split: prod.split)

text \<open>The handler inside the interceptor of its controller.\<close>

definition controllerCall ::
  "('r, 'c, 'd) application \<Rightarrow> route \<Rightarrow> nat \<Rightarrow> webRequest \<Rightarrow> ('d \<times> cookie list, exn, json option) run" where
  "controllerCall X r now req =
     (let h = onDb (handlerOf X r now req) in
      bindR
        (if r \<in> {GetAllPosts, GetUserPosts, GetPost, CreatePostRoute, PatchPost, DeletePostRoute,
                 AddPostLikeUser, DeletePostLikeUser}
         then bindR h (\<lambda>data. liftR (fst (encryptPrimaryKeyInterceptor (aesLib (appLibs X))
                 (pkSecretKey (appConfig X)) (returnR data) (saltDraw req))))
         else if r \<in> {JoinRoute, LoginRoute, RefreshRoute, OauthRoute}
         then setRefreshTokenCookieInterceptor (appCookies X) h
         else h)
        (\<lambda>v. returnR (jsonBody v)))"

record reply =
  repStatus :: nat
  repBody :: "json option"
  repCookies :: "cookie list"
  repHeaders :: "(string \<times> string) list"

definition failureJson :: "BaseResponse \<Rightarrow> json" where
  "failureJson b = JObj [(''code'', JNum (respCode b)), (''message'', JStr (respMessage b))]"

definition errorReply :: "exn \<Rightarrow> (string \<times> string) list \<Rightarrow> reply" where
  "errorReply e hs =
     \<lparr>repStatus = httpStatus (handleException e), repBody = Some (failureJson (replyBody (handleException e))),
      repCookies = [], repHeaders = hs\<rparr>"

text \<open>What the framework throws when a guard answers no.\<close>

definition ForbiddenException :: exn where
  "ForbiddenException = HttpException 403 (RespMessage ''Forbidden resource'')"

definition guards ::
  "('r, 'c, 'd) application \<Rightarrow> route \<Rightarrow> nat \<Rightarrow> httpRequest \<Rightarrow>
   (('r, 'c, 'd) server, exn, httpRequest) run" where
  "guards X r now req s =
     (case canActivate (appDb X) (appLibs X) (appConfig X) now (ctlPublic (metaOf r)) (ctlRoles (metaOf r)) req (srvDb s) of
        (Inl e, d) \<Rightarrow> (Inl e, s\<lparr>srvDb := d\<rparr>)
      | (Inr (pass, req'), d) \<Rightarrow>
          if \<not> pass then (Inl ForbiddenException, s\<lparr>srvDb := d\<rparr>)
          else (case appThrottle X (getTracker (idemRequest req') (httpIp req')) r now (srvLimits s) of
              (Inl e, c) \<Rightarrow> (Inl e, s\<lparr>srvDb := d, srvLimits := c\<rparr>)
            | (Inr _, c) \<Rightarrow> (Inr req', s\<lparr>srvDb := d, srvLimits := c\<rparr>)))"

definition serve ::
  "('r, 'c, 'd) application \<Rightarrow> route \<Rightarrow> instant \<Rightarrow> webRequest \<Rightarrow> ('r, 'c, 'd) server \<Rightarrow>
   reply \<times> ('r, 'c, 'd) server" where
  "serve X r now req s =
     (case guards X r (ms now) (httpPart req) s of
        (Inl e, s1) \<Rightarrow> (errorReply e [], s1)
      | (Inr http, s1) \<Rightarrow>
          (case intercept (appIdem X) (skipIdempotency r) (idemRequest http) now now now (int (successStatus r))
                  (controllerCall X r (ms now) (req\<lparr>httpPart := http\<rparr>))
                  \<lparr>store = srvRecords s1, world = (srvDb s1, []), respHeaders = []\<rparr> of
             (res, e) \<Rightarrow>
               (case res of
                  Inl err \<Rightarrow> errorReply err (respHeaders e)
                | Inr body \<Rightarrow> \<lparr>repStatus = successStatus r, repBody = body,
                    repCookies = snd (world e), repHeaders = respHeaders e\<rparr>,
                s1\<lparr>srvRecords := store e, srvDb := fst (world e)\<rparr>)))"

end
