(* ===== verification/Coherence.thy ===== *)
theory Coherence
  imports PostRead AuthGuard
begin

text \<open>
  The whole database: the schema's invariants together with the coherence of the three caches the
  code invalidates (sessions, profiles, likes), and that every operation of every component keeps
  them. The operations of one component leave the cache entries of the others alone, since the
  ids are distinct.
\<close>

definition databaseOk :: "dbState \<Rightarrow> bool" where
  "databaseOk db \<longleftrightarrow> authGood db \<and> infoFresh db \<and> likesFresh db"

section \<open>Cache entries of other queries\<close>

lemma sessionFresh_cached:
  assumes "\<And>u. cid \<noteq> getUserSessionEntityCacheId u"
  shows "keeps sessionFresh (cachedQuery now cid millis wrap unwrap query)"
  using assms by (auto simp: keeps_def sessionFresh_def cachedQuery_def split: option.split)

lemma infoFresh_cached:
  assumes "\<And>u. cid \<noteq> getUserInfoEntityCacheId u"
  shows "keeps infoFresh (cachedQuery now cid millis wrap unwrap query)"
  using assms by (auto simp: keeps_def infoFresh_def cachedQuery_def split: option.split)

lemma likesFresh_cached:
  assumes "\<And>i. cid \<noteq> getPostLikeEntityListCacheId i"
  shows "keeps likesFresh (cachedQuery now cid millis wrap unwrap query)"
  using assms by (auto simp: keeps_def likesFresh_def cachedQuery_def split: option.split)

lemma fresh_removed:
  "keeps sessionFresh (sqlRemoveCached ids)" "keeps infoFresh (sqlRemoveCached ids)"
  "keeps likesFresh (sqlRemoveCached ids)"
  by (auto simp: keeps_def sessionFresh_def infoFresh_def likesFresh_def sqlRemoveCached_def restrict_map_def
      split: if_splits)

lemma sessionIds [simp]:
  "getUserInfoEntityCacheId u \<noteq> getUserSessionEntityCacheId v" "pageId owner page \<noteq> getUserSessionEntityCacheId v"
  "countId (pageId owner page) \<noteq> getUserSessionEntityCacheId v"
  "getPostLikeEntityListCacheId i \<noteq> getUserSessionEntityCacheId v"
  "getUserSessionEntityCacheId v \<noteq> getUserInfoEntityCacheId u"
  "getUserSessionEntityCacheId v \<noteq> getPostLikeEntityListCacheId i"
  "getUserInfoEntityCacheId u \<noteq> getPostLikeEntityListCacheId i"
  by (cases owner; simp add: cache_id_defs countId_def)+

text \<open>Sessions under statements on profiles, posts and likes.\<close>

lemma sessionFresh_statements:
  "keeps sessionFresh (sqlExistUserInfo uid)" "keeps sessionFresh (sqlInsertUserInfo ui)"
  "keeps sessionFresh (sqlUpdateUserInfo ui)" "keeps sessionFresh (sqlDeleteUserInfo uid)"
  "keeps sessionFresh (sqlInsertPost now np)" "keeps sessionFresh (sqlFindPost i)"
  "keeps sessionFresh (sqlUpdatePost i uid patch)" "keeps sessionFresh (sqlDeletePost i uid)"
  "keeps sessionFresh (sqlExistPostLike i uid)" "keeps sessionFresh (sqlFindPostLikesIn ids')"
  "keeps sessionFresh (sqlInsertPostLike pl)" "keeps sessionFresh (sqlDeletePostLike i uid)"
  by (auto simp: keeps_def sessionFresh_def sqlExistUserInfo_def sqlInsertUserInfo_def sqlUpdateUserInfo_def
      sqlDeleteUserInfo_def sqlInsertPost_def sqlFindPost_def sqlUpdatePost_def sqlDeletePost_def
      sqlExistPostLike_def sqlFindPostLikesIn_def sqlInsertPostLike_def sqlDeletePostLike_def Let_def
      split: list.split)

text \<open>Profiles and likes under statements on accounts, likes under statements on profiles.\<close>

lemma infoFresh_statements:
  "keeps infoFresh (sqlInsertUserAuth ua)" "keeps infoFresh (sqlExistUserAuth uid)"
  "keeps infoFresh (sqlFindUserAuth uid)" "keeps infoFresh (sqlUpdateUserAuth ses)"
  by (auto simp: keeps_def infoFresh_def sqlInsertUserAuth_def sqlExistUserAuth_def sqlFindUserAuth_def
      sqlUpdateUserAuth_def Let_def split: list.split)

lemma likesFresh_statements:
  "keeps likesFresh (sqlInsertUserAuth ua)" "keeps likesFresh (sqlExistUserAuth uid)"
  "keeps likesFresh (sqlFindUserAuth uid)" "keeps likesFresh (sqlUpdateUserAuth ses)"
  "keeps likesFresh (sqlExistUserInfo uid)" "keeps likesFresh (sqlInsertUserInfo ui)"
  "keeps likesFresh (sqlUpdateUserInfo ui)" "keeps likesFresh (sqlDeleteUserInfo uid)"
  "keeps likesFresh (sqlFindPostLikesIn ids')" "keeps likesFresh (sqlFindPost i)"
  by (auto simp: keeps_def likesFresh_def sqlInsertUserAuth_def sqlExistUserAuth_def sqlFindUserAuth_def
      sqlUpdateUserAuth_def sqlExistUserInfo_def sqlInsertUserInfo_def sqlUpdateUserInfo_def
      sqlDeleteUserInfo_def sqlFindPostLikesIn_def sqlFindPost_def Let_def split: list.split)

section \<open>The operations\<close>

lemma sessionFresh_profileCall: "keeps sessionFresh (profileCall sqlDb op)"
  by (cases op) (simp_all only: profileCall.simps userInfo_defs sqlDb_sel sqlFindUserInfo_def orFail_def,
      (rule keeps_intros sessionFresh_statements sessionFresh_cached fresh_removed | simp)+)

lemma likesFresh_profileCall: "keeps likesFresh (profileCall sqlDb op)"
  by (cases op) (simp_all only: profileCall.simps userInfo_defs sqlDb_sel sqlFindUserInfo_def orFail_def,
      (rule keeps_intros likesFresh_statements likesFresh_cached fresh_removed | simp)+)

lemma sessionFresh_blogCall: "keeps sessionFresh (blogCall sqlDb op)"
  by (cases op) (simp_all only: blogCall.simps post_defs like_defs Let_def sqlDb_sel,
      (rule keeps_intros sessionFresh_statements fresh_removed | simp)+)

lemma sessionFresh_profileRead: "keeps sessionFresh (svcGetUserInfoByUid sqlDb now uid)"
  unfolding userInfo_defs sqlDb_sel sqlFindUserInfo_def orFail_def
  by (intro keeps_intros sessionFresh_statements sessionFresh_cached fresh_removed) simp_all

lemma sessionFresh_likes:
  "keeps sessionFresh (getPostLikeMapByPostIds sqlDb (svcGetUserInfoByUid sqlDb) now ids)"
  unfolding like_defs sqlDb_sel
  by (intro keeps_intros sessionFresh_statements sessionFresh_profileRead)

lemma likesFresh_likes:
  "keeps likesFresh (getPostLikeMapByPostIds sqlDb (svcGetUserInfoByUid sqlDb) now ids)"
  unfolding like_defs sqlDb_sel
  by (intro keeps_intros likesFresh_statements keeps_likes_profile)

text \<open>Listings.\<close>

lemma pageCacheIds:
  "getPostEntityListByPageCacheId page \<noteq> getUserSessionEntityCacheId v"
  "getPostEntityListByPostPageDtoCacheId dto \<noteq> getUserSessionEntityCacheId v"
  "countId (getPostEntityListByPageCacheId page) \<noteq> getUserSessionEntityCacheId v"
  "countId (getPostEntityListByPostPageDtoCacheId dto) \<noteq> getUserSessionEntityCacheId v"
  "getPostEntityListByPageCacheId page \<noteq> getPostLikeEntityListCacheId i"
  "getPostEntityListByPostPageDtoCacheId dto \<noteq> getPostLikeEntityListCacheId i"
  "countId (getPostEntityListByPageCacheId page) \<noteq> getPostLikeEntityListCacheId i"
  "countId (getPostEntityListByPostPageDtoCacheId dto) \<noteq> getPostLikeEntityListCacheId i"
  by (simp_all add: cache_id_defs countId_def)

lemma fresh_listRows:
  "keeps sessionFresh (listRows sqlDb now owner page)" "keeps likesFresh (listRows sqlDb now owner page)"
  by (cases owner; simp only: listRows.simps findPostEntityListAndCountByPage_def
      findPostEntityListAndCountByPostPageDto_def sqlDb_sel sqlFindPosts_def;
      (rule keeps_intros sessionFresh_cached likesFresh_cached | simp add: pageCacheIds)+)+

lemma fresh_listPosts:
  "keeps sessionFresh (listPosts sqlDb now owner page)" "keeps likesFresh (listPosts sqlDb now owner page)"
  unfolding listPosts_unfold toPostDaoList_def Let_def
  by (intro keeps_intros fresh_listRows sessionFresh_likes likesFresh_likes)+

lemma fresh_getPost:
  "keeps sessionFresh (getPostByPostId sqlDb (svcGetUserInfoByUid sqlDb) now i)"
  "keeps likesFresh (getPostByPostId sqlDb (svcGetUserInfoByUid sqlDb) now i)"
  unfolding getPostByPostId_def findPostEntityByPostId_def Let_def sqlDb_sel
  by (intro keeps_intros sessionFresh_statements likesFresh_statements sessionFresh_likes likesFresh_likes)+

text \<open>Accounts: signing in and the guard.\<close>

definition contentOf ::
  "dbState \<Rightarrow> UserInfoEntity list \<times> PostEntity list \<times> PostLikeEntity list \<times> int" where
  "contentOf db = (userInfos db, posts db, postLikes db, nextPostId db)"

lemma content_statements:
  "keeps (\<lambda>db. contentOf db = T) (sqlInsertUserAuth ua)" "keeps (\<lambda>db. contentOf db = T) (sqlExistUserAuth uid)"
  "keeps (\<lambda>db. contentOf db = T) (sqlFindUserAuth uid)" "keeps (\<lambda>db. contentOf db = T) (sqlUpdateUserAuth ses)"
  "keeps (\<lambda>db. contentOf db = T) (sqlFindSession now uid cid millis)"
  "keeps (\<lambda>db. contentOf db = T) (sqlRemoveCached ids)"
  by (auto simp: keeps_def contentOf_def sqlInsertUserAuth_def sqlExistUserAuth_def sqlFindUserAuth_def
      sqlUpdateUserAuth_def sqlFindSession_def orFail_def bindR_def cachedQuery_def sqlRemoveCached_def Let_def
      split: list.split option.split)

lemma fresh_session:
  "keeps infoFresh (sqlFindSession now uid (getUserSessionEntityCacheId u) millis)"
  "keeps likesFresh (sqlFindSession now uid (getUserSessionEntityCacheId u) millis)"
  unfolding sqlFindSession_def orFail_def
  by (rule keeps_intros infoFresh_cached likesFresh_cached | simp)+

lemmas account_statements = infoFresh_statements likesFresh_statements content_statements fresh_session fresh_removed

lemma fresh_authCall:
  "keeps infoFresh (authCall sqlDb L cfg now draw op)" "keeps likesFresh (authCall sqlDb L cfg now draw op)"
  "keeps (\<lambda>db. contentOf db = T) (authCall sqlDb L cfg now draw op)"
  by (cases op; simp only: authCall.simps userAuth_defs Let_def sqlDb_sel;
      (rule keeps_intros account_statements)+)+

lemma fresh_canActivate:
  "keeps infoFresh (canActivate sqlDb L cfg now pub roles req)"
  "keeps likesFresh (canActivate sqlDb L cfg now pub roles req)"
  "keeps (\<lambda>db. contentOf db = T) (canActivate sqlDb L cfg now pub roles req)"
  unfolding canActivate_def verifyAccessToken_def verifyRefreshToken_def getUserSessionEntityByUid_def Let_def sqlDb_sel
  by (rule keeps_intros account_statements)+

end
