(* ===== verification/Server.thy ===== *)
theory Server
  imports App Coherence
begin

text \<open>
  What a whole request may change: every handler, in terms of the tables, keeps the invariants of
  the database and touches only the data of the authenticated user; guards and interceptors touch
  none.
\<close>

section \<open>Changes to one user's data\<close>

text \<open>Posts and likes of everybody else are the same, and every profile but the user's.\<close>

definition onlyOwn :: "string option \<Rightarrow> dbState \<Rightarrow> dbState \<Rightarrow> bool" where
  "onlyOwn owner db db' \<longleftrightarrow>
     (\<forall>i p. blogPosts (blogOf db) i = Some p \<and> Some (peUid p) \<noteq> owner \<longrightarrow> blogPosts (blogOf db') i = Some p) \<and>
     (\<forall>i p. blogPosts (blogOf db') i = Some p \<longrightarrow> blogPosts (blogOf db) i = Some p \<or> Some (peUid p) = owner) \<and>
     (\<forall>i u. Some u \<noteq> owner \<longrightarrow> ((i, u) \<in> blogLikes (blogOf db') \<longleftrightarrow> (i, u) \<in> blogLikes (blogOf db))) \<and>
     (\<forall>u. Some u \<noteq> owner \<longrightarrow> profilesOf db' u = profilesOf db u)"

lemma onlyOwn_content: "contentOf db' = contentOf db \<Longrightarrow> onlyOwn owner db db'"
  by (auto simp: onlyOwn_def contentOf_def profilesOf_def)

lemma onlyOwn_same: "onlyOwn None db db' \<Longrightarrow> onlyOwn owner db db'"
  unfolding onlyOwn_def by blast

lemma onlyOwn_trans: "onlyOwn owner a b \<Longrightarrow> onlyOwn owner b c \<Longrightarrow> onlyOwn owner a c"
  unfolding onlyOwn_def by (intro conjI allI impI) (blast, blast, blast, simp)

lemma tables_content: "tablesOf db' = tablesOf db \<Longrightarrow> contentOf db' = contentOf db"
  by (simp add: tablesOf_def contentOf_def)

text \<open>An action is safe for a user if it keeps the database well-formed and touches the user's data only.\<close>

named_theorems safe_intros "actions that touch only the user's data"

definition safeFor :: "('d \<Rightarrow> dbState) \<Rightarrow> string option \<Rightarrow> ('d, exn, 'a) run \<Rightarrow> bool" where
  "safeFor abst owner m \<longleftrightarrow>
     (\<forall>s. databaseOk (abst s) \<longrightarrow>
        databaseOk (abst (snd (m s))) \<and> onlyOwn owner (abst s) (abst (snd (m s))))"

lemma safeD: "safeFor abst owner m \<Longrightarrow> databaseOk (abst s) \<Longrightarrow> m s = (res, s') \<Longrightarrow>
  databaseOk (abst s') \<and> onlyOwn owner (abst s) (abst s')"
  unfolding safeFor_def by (metis snd_conv)

lemma onlyOwn_refl [simp]: "onlyOwn owner db db"
  by (simp add: onlyOwn_def)

lemma safe_pure [safe_intros]: "safeFor abst owner (returnR a)" "safeFor abst owner (throwR e)"
  by (simp_all add: safeFor_def)

lemma safe_lift [safe_intros]:
  "(\<And>a. r = Inr a \<Longrightarrow> safeFor abst owner (k a)) \<Longrightarrow> safeFor abst owner (bindR (liftR r) k)"
  by (cases r) (simp_all add: safeFor_def bindR_def)

lemma safe_answer [safe_intros]: "safeFor abst owner m \<Longrightarrow> safeFor abst owner (bindR m (\<lambda>a. returnR (f a)))"
  unfolding safeFor_def bindR_def by (auto split: prod.splits sum.splits)

lemma safe_success [safe_intros]: "safeFor abst owner m \<Longrightarrow> safeFor abst owner (andSuccess m)"
  unfolding andSuccess_def by (rule safe_answer)

context orm
begin

lemma safe_blog:
  assumes "owner = Some (actor op)"
  shows "safeFor abst owner (blogCall D op)"
  unfolding safeFor_def
proof (intro allI impI)
  fix s assume ok: "databaseOk (abst s)"
  obtain res s' where r: "blogCall D op s = (res, s')" by fastforce
  note ab = sim_apply [OF sim_blogCall r]
  have "schemaOk (abst s)" using ok by (simp add: databaseOk_def authGood_def)
  note st = blog_on [OF orm_axioms this r] and ow = blog_own [OF orm_axioms this r]
  have "sessionFresh (abst s')"
    using keepsD [OF sessionFresh_blogCall _ ab] ok by (simp add: databaseOk_def authGood_def)
  moreover have "profilesOf (abst s') = profilesOf (abst s)" using st by (intro profilesOf_cong) simp
  ultimately show "databaseOk (abst (snd (blogCall D op s))) \<and> onlyOwn owner (abst s) (abst (snd (blogCall D op s)))"
    using st ow ok assms by (auto simp: r databaseOk_def authGood_def onlyOwn_def)
qed

lemma safe_posts [safe_intros]:
  "safeFor abst (Some u) (svcCreatePost D now u dto)" "safeFor abst (Some u) (svcUpdatePost D u i patch)"
  "safeFor abst (Some u) (svcDeletePost D u i)"
  "safeFor abst (Some u) (addPostLikeUser D \<lparr>ldPostId = i, ldUid = u\<rparr>)"
  "safeFor abst (Some u) (removePostLikeUser D \<lparr>ldPostId = i, ldUid = u\<rparr>)"
  using safe_blog [of "Some u" "CreatePost now u dto"] safe_blog [of "Some u" "UpdatePost u i patch"]
    safe_blog [of "Some u" "DeletePost u i"] safe_blog [of "Some u" "AddLike u i"]
    safe_blog [of "Some u" "RemoveLike u i"] by simp_all

lemma safe_profile:
  assumes own: "\<And>dto. op = CreateProfile dto \<or> op = UpdateProfile dto \<Longrightarrow> owner = Some (dtoUid dto)"
    and del: "\<And>uid. op = DeleteProfile uid \<Longrightarrow> owner = Some uid"
  shows "safeFor abst owner (profileCall D op)"
  unfolding safeFor_def
proof (intro allI impI)
  fix s assume ok: "databaseOk (abst s)"
  obtain res s' where r: "profileCall D op s = (res, s')" by fastforce
  note ab = sim_apply [OF sim_profileCall r]
  have g: "schemaOk (abst s)" "infoFresh (abst s)" using ok by (simp_all add: databaseOk_def authGood_def)
  note st = profile_step [OF g ab]
  have "profilesOf (abst s') u = profilesOf (abst s) u" if "Some u \<noteq> owner" for u
  proof -
    have "snd (profileSpec (hasAuth (abst s)) op (profilesOf (abst s))) u = profilesOf (abst s) u"
      using own del that by (cases op) (auto split: option.split)
    then show ?thesis using st by (metis snd_conv)
  qed
  moreover have "blogOf (abst s') = blogOf (abst s)"
  proof -
    let ?P = "\<lambda>db. (posts db, postLikes db, nextPostId db) = (posts (abst s), postLikes (abst s), nextPostId (abst s))"
    have w: "keeps ?P (sqlInsertUserInfo row)" "keeps ?P (sqlUpdateUserInfo row)" "keeps ?P (sqlDeleteUserInfo uid)"
      for row uid
      by (simp_all add: keeps_def sqlInsertUserInfo_def sqlUpdateUserInfo_def sqlDeleteUserInfo_def Let_def)
    have "keeps ?P (profileCall sqlDb op)"
      by (cases op) (simp_all only: profileCall.simps userInfo_defs sqlDb_sel,
        (rule keeps_intros keeps_reads w | simp)+)
    from keepsD [OF this refl ab] show ?thesis by (intro blogOf_cong) simp_all
  qed
  moreover have "sessionFresh (abst s')" "likesFresh (abst s')"
    using keepsD [OF sessionFresh_profileCall _ ab] keepsD [OF likesFresh_profileCall _ ab] ok
    by (simp_all add: databaseOk_def authGood_def)
  ultimately show "databaseOk (abst (snd (profileCall D op s))) \<and>
      onlyOwn owner (abst s) (abst (snd (profileCall D op s)))"
    using st ok by (simp add: r databaseOk_def authGood_def onlyOwn_def del: blogOf_sel)
qed

lemma safe_call: "safeFor abst owner (bindR m (\<lambda>_. returnR x)) = safeFor abst owner m"
proof -
  have "snd (bindR m (\<lambda>_. returnR x) s) = snd (m s)" for s
    by (simp add: bindR_def split: prod.split sum.split)
  then show ?thesis by (simp only: safeFor_def)
qed

lemma safe_profiles [safe_intros]:
  "safeFor abst (Some (dtoUid dto)) (svcCreateUserInfo D dto)"
  "safeFor abst (Some (dtoUid dto)) (svcUpdateUserInfo D dto)"
  "safeFor abst (Some uid) (svcDeleteUserInfoByUid D uid)"
proof -
  have "safeFor abst (Some (dtoUid dto)) (profileCall D (CreateProfile dto))"
    "safeFor abst (Some (dtoUid dto)) (profileCall D (UpdateProfile dto))"
    "safeFor abst (Some uid) (profileCall D (DeleteProfile uid))" by (rule safe_profile; auto)+
  then show "safeFor abst (Some (dtoUid dto)) (svcCreateUserInfo D dto)"
    "safeFor abst (Some (dtoUid dto)) (svcUpdateUserInfo D dto)"
    "safeFor abst (Some uid) (svcDeleteUserInfoByUid D uid)" by (simp_all only: profileCall.simps safe_call)
qed

text \<open>Reads.\<close>

lemma safe_read:
  assumes "sim abst m f" and "keeps sessionFresh f" and "keeps likesFresh f"
    and "\<And>s res s'. schemaOk (abst s) \<Longrightarrow> infoFresh (abst s) \<Longrightarrow> m s = (res, s') \<Longrightarrow>
      schemaOk (abst s') \<and> infoFresh (abst s') \<and> tablesOf (abst s') = tablesOf (abst s)"
  shows "safeFor abst owner m"
  unfolding safeFor_def
proof (intro allI impI)
  fix s assume ok: "databaseOk (abst s)"
  obtain res s' where r: "m s = (res, s')" by fastforce
  note ab = sim_apply [OF assms(1) r]
  from ok have g: "schemaOk (abst s)" "infoFresh (abst s)" "sessionFresh (abst s)" "likesFresh (abst s)"
    "list_all fitsUserAuth (userAuths (abst s))" by (simp_all add: databaseOk_def authGood_def)
  note st = assms(4) [OF g(1,2) r]
  then have "userAuths (abst s') = userAuths (abst s)" by (simp add: tablesOf_def)
  with st keepsD [OF assms(2) g(3) ab] keepsD [OF assms(3) g(4) ab] g(5)
  have "databaseOk (abst s')" by (simp add: databaseOk_def authGood_def)
  moreover have "contentOf (abst s') = contentOf (abst s)" using st by (intro tables_content) simp
  ultimately show "databaseOk (abst (snd (m s))) \<and> onlyOwn owner (abst s) (abst (snd (m s)))"
    by (simp add: r onlyOwn_content)
qed

lemma profile_get_read:
  assumes "schemaOk (abst s)" and "infoFresh (abst s)" and "svcGetUserInfoByUid D now uid s = (res, s')"
  shows "schemaOk (abst s') \<and> infoFresh (abst s') \<and> tablesOf (abst s') = tablesOf (abst s)"
  using profiles.get_good [OF _ assms(3)] profiles.get_frame [OF _ assms(3)] assms(1,2) by blast

lemma sim_listPosts: "sim abst (listPosts D now owner page) (listPosts sqlDb now owner page)"
  by (cases owner) (simp_all only: listPosts.simps, (rule sim_posts)+)

lemma list_read_any:
  assumes "schemaOk (abst s)" and "infoFresh (abst s)" and "listPosts D now owner page s = (res, s')"
  shows "schemaOk (abst s') \<and> infoFresh (abst s') \<and> tablesOf (abst s') = tablesOf (abst s)"
proof (cases "1 \<le> page")
  case True
  from list_read [OF assms(1,2) True assms(3)] show ?thesis by simp
next
  case False
  then have "listRows D now owner page = throwR (InvalidPageException page)" by (intro listRows_invalid) simp
  with assms show ?thesis by (simp add: listPosts_unfold bindR_def)
qed

lemma safe_reads [safe_intros]:
  "safeFor abst owner (svcGetUserInfoByUid D now uid)"
  "safeFor abst owner (getPostPageListByPage D (svcGetUserInfoByUid D) now page)"
  "safeFor abst owner (getPostPageListByPostUid D (svcGetUserInfoByUid D) now v page)"
  "safeFor abst owner (getPostByPostId D (svcGetUserInfoByUid D) now i)"
proof -
  have l: "safeFor abst owner (listPosts D now w page)" for w
    by (rule safe_read [OF sim_listPosts fresh_listPosts list_read_any])
  from l [of None] l [of "Some v"] show "safeFor abst owner (getPostPageListByPage D (svcGetUserInfoByUid D) now page)"
    "safeFor abst owner (getPostPageListByPostUid D (svcGetUserInfoByUid D) now v page)" by simp_all
  show "safeFor abst owner (svcGetUserInfoByUid D now uid)"
    by (rule safe_read [OF sim_svcGetUserInfoByUid sessionFresh_profileRead keeps_likes_profile profile_get_read])
  show "safeFor abst owner (getPostByPostId D (svcGetUserInfoByUid D) now i)"
    by (rule safe_read [OF sim_posts(3) fresh_getPost]) (use post_read in blast)
qed

text \<open>Accounts.\<close>

lemma safe_auth:
  assumes "token_lib L lifetime"
  shows "safeFor abst owner (authCall D L cfg now draw op)"
  unfolding safeFor_def
proof (intro allI impI)
  fix s assume ok: "databaseOk (abst s)"
  obtain res s' where r: "authCall D L cfg now draw op s = (res, s')" by fastforce
  note ab = sim_apply [OF sim_authCall r]
  have "authGood (abst s)" using ok by (simp add: databaseOk_def)
  from auth_on [OF orm_axioms assms this r] keepsD [OF fresh_authCall(1) _ ab] keepsD [OF fresh_authCall(2) _ ab]
    keepsD [OF fresh_authCall(3) refl ab] ok
  show "databaseOk (abst (snd (authCall D L cfg now draw op s))) \<and>
      onlyOwn owner (abst s) (abst (snd (authCall D L cfg now draw op s)))"
    by (simp add: r databaseOk_def onlyOwn_content)
qed

lemma safe_auths:
  assumes "token_lib L lifetime"
  shows "safeFor abst owner (createNewUser D L cfg now draw dto)" "safeFor abst owner (login D L cfg now draw dto)"
    "safeFor abst owner (googleOauthLogin D L cfg now draw odto)" "safeFor abst owner (refresh D L cfg now draw token)"
  using safe_auth [OF assms, of owner cfg now draw "Join dto"] safe_auth [OF assms, of owner cfg now draw "Login dto"]
    safe_auth [OF assms, of owner cfg now draw "Oauth odto"] safe_auth [OF assms, of owner cfg now draw "Refresh token"]
  by simp_all

lemma safe_canActivate: "safeFor abst owner (canActivate D L cfg now pub roles req)"
  unfolding safeFor_def
proof (intro allI impI)
  fix s assume ok: "databaseOk (abst s)"
  obtain res s' where r: "canActivate D L cfg now pub roles req s = (res, s')" by fastforce
  note ab = sim_apply [OF sim_canActivate r]
  have "authGood (abst s)" using ok by (simp add: databaseOk_def)
  from guard_on [OF orm_axioms this r] keepsD [OF fresh_canActivate(1) _ ab] keepsD [OF fresh_canActivate(2) _ ab]
    keepsD [OF fresh_canActivate(3) refl ab] ok
  show "databaseOk (abst (snd (canActivate D L cfg now pub roles req s))) \<and>
      onlyOwn owner (abst s) (abst (snd (canActivate D L cfg now pub roles req s)))"
    by (simp add: r databaseOk_def onlyOwn_content)
qed

end

section \<open>Every handler\<close>

text \<open>The user a request is authenticated as, and the database and libraries of an application.\<close>

definition ownerOf :: "httpRequest \<Rightarrow> string option" where
  "ownerOf req = (case AuthenticatedUserValidation req of Inl e \<Rightarrow> None | Inr u \<Rightarrow> Some u)"

lemma handler_safe:
  assumes "orm (appDb X) abst" and "token_lib (appLibs X) lifetime"
  shows "safeFor abst (ownerOf (httpPart req)) (handlerOf X r now req)"
proof -
  note si = orm.safe_posts [OF assms(1)] orm.safe_profiles [OF assms(1)] orm.safe_reads [OF assms(1)]
    orm.safe_auths [OF assms]
  have p: "safeFor abst (Some u) (svcCreateUserInfo (appDb X) \<lparr>dtoUid = u, dtoNickname = n, dtoIntroduce = i\<rparr>)"
    "safeFor abst (Some u) (svcUpdateUserInfo (appDb X) \<lparr>dtoUid = u, dtoNickname = n, dtoIntroduce = i\<rparr>)" for u n i
    using orm.safe_profiles(1) [OF assms(1), of "\<lparr>dtoUid = u, dtoNickname = n, dtoIntroduce = i\<rparr>"]
      orm.safe_profiles(2) [OF assms(1), of "\<lparr>dtoUid = u, dtoNickname = n, dtoIntroduce = i\<rparr>"] by simp_all
  have o: "ownerOf (httpPart req) = Some u" if "AuthenticatedUserValidation (httpPart req) = Inr u" for u
    using that by (simp add: ownerOf_def)
  show ?thesis
    by (cases r) (simp_all only: handlerOf.simps ctl_defs, (rule safe_intros p si | (subst o, assumption))+)
qed

section \<open>Whole requests\<close>

lemma keepsWorld: "(\<And>a w. snd (k a w) = w) \<Longrightarrow> snd (bindR m k w) = snd (m w)"
  by (simp add: bindR_def split: prod.splits sum.split)

lemma controllerCall_db:
  "fst (snd (controllerCall X r now req (d, cs))) = snd (handlerOf X r now req d)"
proof -
  obtain x d' where h: "handlerOf X r now req d = (x, d')" by fastforce
  have "fst (snd (setRefreshTokenCookieInterceptor cs' (onDb (handlerOf X r now req)) (d, cs))) = d'" for cs'
    by (cases x) (simp_all add: setRefreshTokenCookieInterceptor_def bindR_def onDb_apply h)
  moreover have "fst (snd (bindR (onDb (handlerOf X r now req)) (\<lambda>data. liftR (f data)) (d, cs))) = d'" for f
    by (cases x; simp add: bindR_def onDb_apply h liftR_def split: sum.split)
  ultimately show ?thesis by (simp add: controllerCall_def Let_def h onDb_apply keepsWorld)
qed

text \<open>The user a request acts as: the one whom the guard wrote into it.\<close>

definition actsAs :: "('r, 'c, 'd) application \<Rightarrow> route \<Rightarrow> nat \<Rightarrow> httpRequest \<Rightarrow> dbState \<Rightarrow> string option" where
  "actsAs X r now req db =
     (case guardSpec (appLibs X) (appConfig X) now (ctlPublic (metaOf r)) (ctlRoles (metaOf r)) req db of
        Inl e \<Rightarrow> None
      | Inr (pass, req') \<Rightarrow> if pass then ownerOf req' else None)"

lemma guards_outcome:
  assumes "orm (appDb X) abst" and "databaseOk (abst (srvDb s))" and "guards X r now req s = (res, s1)"
  shows "databaseOk (abst (srvDb s1)) \<and> onlyOwn None (abst (srvDb s)) (abst (srvDb s1)) \<and>
    srvRecords s1 = srvRecords s \<and> userAuths (abst (srvDb s1)) = userAuths (abst (srvDb s)) \<and>
    contentOf (abst (srvDb s1)) = contentOf (abst (srvDb s)) \<and>
    (case res of Inl e \<Rightarrow> True
     | Inr http \<Rightarrow> guardSpec (appLibs X) (appConfig X) now (ctlPublic (metaOf r)) (ctlRoles (metaOf r)) req
         (abst (srvDb s)) = Inr (True, http))"
proof -
  obtain x d where c: "canActivate (appDb X) (appLibs X) (appConfig X) now (ctlPublic (metaOf r)) (ctlRoles (metaOf r))
      req (srvDb s) = (x, d)" by fastforce
  have g: "authGood (abst (srvDb s))" using assms(2) by (simp add: databaseOk_def)
  note sp = guard_on [OF assms(1) g c]
  have ab: "canActivate sqlDb (appLibs X) (appConfig X) now (ctlPublic (metaOf r)) (ctlRoles (metaOf r)) req
      (abst (srvDb s)) = (x, abst d)" by (rule sim_apply [OF orm.sim_canActivate [OF assms(1)] c])
  have ct: "contentOf (abst d) = contentOf (abst (srvDb s))" by (rule keepsD [OF fresh_canActivate(3) refl ab])
  have s1: "srvDb s1 = d" "srvRecords s1 = srvRecords s" "\<And>http. res = Inr http \<Longrightarrow> x = Inr (True, http)"
    using assms(3) unfolding guards_def c by (auto split: sum.splits prod.splits if_splits)
  have "databaseOk (abst d)" "onlyOwn None (abst (srvDb s)) (abst d)"
    using safeD [OF orm.safe_canActivate [OF assms(1)] assms(2) c] by simp_all
  with sp s1 ct show ?thesis by (simp split: sum.split)
qed

lemma serve_db:
  assumes "orm (appDb X) abst" and "token_lib (appLibs X) lifetime" and "databaseOk (abst (srvDb s))"
    and "serve X r now req s = (rep, s')"
  shows "databaseOk (abst (srvDb s')) \<and>
    onlyOwn (actsAs X r (ms now) (httpPart req) (abst (srvDb s))) (abst (srvDb s)) (abst (srvDb s'))"
proof -
  let ?owner = "actsAs X r (ms now) (httpPart req) (abst (srvDb s))"
  obtain res s1 where g: "guards X r (ms now) (httpPart req) s = (res, s1)" by fastforce
  note st = guards_outcome [OF assms(1,3) g]
  show ?thesis
  proof (cases res)
    case (Inl e)
    with assms(4) g st show ?thesis by (auto simp: serve_def intro: onlyOwn_same)
  next
    case (Inr http)
    let ?h = "controllerCall X r (ms now) (req\<lparr>httpPart := http\<rparr>)"
    let ?e = "\<lparr>store = srvRecords s1, world = (srvDb s1, []), respHeaders = []\<rparr>"
    let ?out = "intercept (appIdem X) (skipIdempotency r) (idemRequest http) now now now (int (successStatus r)) ?h ?e"
    have db: "srvDb s' = fst (world (snd ?out))"
      using assms(4) g Inr by (auto simp: serve_def split: prod.splits)
    have o: "?owner = ownerOf http" using st Inr by (simp add: actsAs_def)
    have w: "world (snd ?out) = snd (?h (world ?e)) \<or> world (snd ?out) = world ?e"
      using intercept_once [of "appIdem X" "skipIdempotency r" "idemRequest http" now now now
        "int (successStatus r)" ?h ?e] by (metis snd_conv)
    have "snd (handlerOf X r (ms now) (req\<lparr>httpPart := http\<rparr>) (srvDb s1)) = srvDb s' \<or> srvDb s' = srvDb s1"
      using w controllerCall_db [of X r "ms now" "req\<lparr>httpPart := http\<rparr>" "srvDb s1" "[]"] by (auto simp: db)
    then have "databaseOk (abst (srvDb s')) \<and> onlyOwn ?owner (abst (srvDb s1)) (abst (srvDb s'))"
    proof
      assume "snd (handlerOf X r (ms now) (req\<lparr>httpPart := http\<rparr>) (srvDb s1)) = srvDb s'"
      then obtain x where "handlerOf X r (ms now) (req\<lparr>httpPart := http\<rparr>) (srvDb s1) = (x, srvDb s')"
        by (metis prod.collapse)
      from safeD [OF handler_safe [OF assms(1,2)] _ this] st o show ?thesis by simp
    qed (use st in simp)
    with st onlyOwn_trans [OF onlyOwn_same] show ?thesis by blast
  qed
qed

text \<open>Acting as a user takes the refresh token of the user's stored session.\<close>

lemma actsAs_token:
  assumes "actsAs X r now req db = Some u"
  shows "\<exists>ses. sessionOfUid db u = Some ses \<and> seUid ses = u \<and>
    httpCookies req ''refreshToken'' = Some (seRefreshToken ses) \<and>
    ctlPublic (metaOf r) \<noteq> Some True \<and>
    (ctlRoles (metaOf r) = None \<or> seUserRole ses \<in> set (the (ctlRoles (metaOf r))))"
  using assms
  by (auto simp: actsAs_def guardSpec_def Let_def ownerOf_def AuthenticatedUserValidation_def refreshAnswer_Inr
      split: sum.splits prod.splits if_splits header.splits)

fun serveAll ::
  "('r, 'c, 'd) application \<Rightarrow> (route \<times> instant \<times> webRequest) list \<Rightarrow> ('r, 'c, 'd) server \<Rightarrow>
   reply list \<times> ('r, 'c, 'd) server" where
  "serveAll X [] s = ([], s)"
| "serveAll X ((r, now, req) # rest) s =
     (case serve X r now req s of (rep, s1) \<Rightarrow>
        (case serveAll X rest s1 of (reps, s2) \<Rightarrow> (rep # reps, s2)))"

end
