(* ===== verification/Interleave.thy ===== *)
theory Interleave
  imports Server "HOL-Library.Sublist"
begin

text \<open>
  Concurrent requests. Between two statements of an \<open>async\<close> method the event loop may run
  statements of other requests, in this process or in another one on the same database. A request
  is run here on a database that records every statement it executes and lets an interference act
  before each of them; a pool of requests is a step relation in which one request at a time
  executes its next statement on the shared database.
\<close>

section \<open>A database that records its statements\<close>

text \<open>
  The state of one request: the database as its last statement left it, and the database before
  and after each of its statements so far.
\<close>

record trace =
  current :: dbState
  steps :: "(dbState \<times> dbState) list"

text \<open>What the others do before the statement with the given number.\<close>

type_synonym interference = "nat \<Rightarrow> dbState \<Rightarrow> dbState"

definition traced :: "interference \<Rightarrow> 'a sql \<Rightarrow> (trace, exn, 'a) run" where
  "traced E m t =
     (let db = E (length (steps t)) (current t) in
      case m db of (res, db') \<Rightarrow> (res, \<lparr>current = db', steps = steps t @ [(db, db')]\<rparr>))"

text \<open>
  A query with a cache option is three steps: the look-up in the cache, on a miss the query, and
  the storing of its rows. Everything else is one step.
\<close>

definition cacheLookup :: "nat \<Rightarrow> string \<Rightarrow> (cachedRows \<Rightarrow> 'x option) \<Rightarrow> 'x option sql" where
  "cacheLookup now cid unwrap db =
     (Inr (if cacheOn db then Option.bind (live (queryCache db) now cid) unwrap else None), db)"

definition cacheStore :: "nat \<Rightarrow> string \<Rightarrow> nat \<Rightarrow> cachedRows \<Rightarrow> unit sql" where
  "cacheStore now cid millis rows db =
     (Inr (), if cacheOn db then db\<lparr>queryCache := (queryCache db)(cid \<mapsto> (rows, Some (now + millis)))\<rparr> else db)"

definition tracedQuery ::
  "interference \<Rightarrow> nat \<Rightarrow> string \<Rightarrow> nat \<Rightarrow> ('x \<Rightarrow> cachedRows) \<Rightarrow> (cachedRows \<Rightarrow> 'x option) \<Rightarrow>
   (dbState \<Rightarrow> 'x) \<Rightarrow> (trace, exn, 'x) run" where
  "tracedQuery E now cid millis wrap unwrap query =
     bindR (traced E (cacheLookup now cid unwrap)) (\<lambda>hit.
       case hit of
         Some x \<Rightarrow> returnR x
       | None \<Rightarrow>
           bindR (traced E (readR query)) (\<lambda>x.
           bindR (traced E (cacheStore now cid millis (wrap x))) (\<lambda>_. returnR x)))"

definition firstRow :: "(trace, exn, 'x list) run \<Rightarrow> (trace, exn, 'x) run" where
  "firstRow q = bindR q (\<lambda>rows. case rows of [] \<Rightarrow> throwR EntityNotFoundError | r # _ \<Rightarrow> returnR r)"

definition sessionRows :: "string \<Rightarrow> dbState \<Rightarrow> UserSessionEntity list" where
  "sessionRows uid db = map sessionOf (filter (\<lambda>r. uaUid r = uid) (userAuths db))"

definition traceDb :: "interference \<Rightarrow> trace ormOps" where
  "traceDb E =
     \<lparr>insertUserAuth = (\<lambda>ua. traced E (sqlInsertUserAuth ua)),
      existUserAuth = (\<lambda>uid. traced E (sqlExistUserAuth uid)),
      findUserAuth = (\<lambda>uid. traced E (sqlFindUserAuth uid)),
      findSession = (\<lambda>now uid cid millis.
        firstRow (tracedQuery E now cid millis CachedSessions unSessions (sessionRows uid))),
      updateUserAuth = (\<lambda>ses. traced E (sqlUpdateUserAuth ses)),
      removeCached = (\<lambda>ids. traced E (sqlRemoveCached ids)),
      existUserInfo = (\<lambda>uid. traced E (sqlExistUserInfo uid)),
      insertUserInfo = (\<lambda>ui. traced E (sqlInsertUserInfo ui)),
      findUserInfo = (\<lambda>now uid cid millis.
        firstRow (tracedQuery E now cid millis CachedInfos unInfos
          (\<lambda>db. filter (\<lambda>r. uiUid r = uid) (userInfos db)))),
      updateUserInfo = (\<lambda>ui. traced E (sqlUpdateUserInfo ui)),
      deleteUserInfo = (\<lambda>uid. traced E (sqlDeleteUserInfo uid)),
      insertPost = (\<lambda>now np. traced E (sqlInsertPost now np)),
      findPosts = (\<lambda>now owner takeN skipN cid millis.
        bindR (tracedQuery E now cid millis CachedPosts unPosts
                 (\<lambda>db. take (nat takeN) (drop (nat skipN) (orderedPosts owner db)))) (\<lambda>rows.
        bindR (tracedQuery E now (countId cid) millis CachedCount unCount
                 (\<lambda>db. int (length (orderedPosts owner db)))) (\<lambda>n.
        returnR (rows, n)))),
      findPost = (\<lambda>postId. traced E (sqlFindPost postId)),
      updatePostRow = (\<lambda>postId uid patch. traced E (sqlUpdatePost postId uid patch)),
      deletePostRow = (\<lambda>postId uid. traced E (sqlDeletePost postId uid)),
      existPostLike = (\<lambda>postId uid. traced E (sqlExistPostLike postId uid)),
      findPostLikes = (\<lambda>now postId cid millis.
        tracedQuery E now cid millis CachedLikes unLikes
          (\<lambda>db. filter (\<lambda>l. plPostId l = postId) (postLikes db))),
      findPostLikesIn = (\<lambda>ids. traced E (sqlFindPostLikesIn ids)),
      insertPostLike = (\<lambda>pl. traced E (sqlInsertPostLike pl)),
      deletePostLike = (\<lambda>postId uid. traced E (sqlDeletePostLike postId uid))\<rparr>"

lemma traceDb_sel [simp]:
  "insertUserAuth (traceDb E) = (\<lambda>ua. traced E (sqlInsertUserAuth ua))"
  "existUserAuth (traceDb E) = (\<lambda>uid. traced E (sqlExistUserAuth uid))"
  "findUserAuth (traceDb E) = (\<lambda>uid. traced E (sqlFindUserAuth uid))"
  "findSession (traceDb E) = (\<lambda>now uid cid millis.
     firstRow (tracedQuery E now cid millis CachedSessions unSessions (sessionRows uid)))"
  "updateUserAuth (traceDb E) = (\<lambda>ses. traced E (sqlUpdateUserAuth ses))"
  "removeCached (traceDb E) = (\<lambda>ids. traced E (sqlRemoveCached ids))"
  "existUserInfo (traceDb E) = (\<lambda>uid. traced E (sqlExistUserInfo uid))"
  "insertUserInfo (traceDb E) = (\<lambda>ui. traced E (sqlInsertUserInfo ui))"
  "findUserInfo (traceDb E) = (\<lambda>now uid cid millis.
     firstRow (tracedQuery E now cid millis CachedInfos unInfos
       (\<lambda>db. filter (\<lambda>r. uiUid r = uid) (userInfos db))))"
  "updateUserInfo (traceDb E) = (\<lambda>ui. traced E (sqlUpdateUserInfo ui))"
  "deleteUserInfo (traceDb E) = (\<lambda>uid. traced E (sqlDeleteUserInfo uid))"
  "insertPost (traceDb E) = (\<lambda>now np. traced E (sqlInsertPost now np))"
  "findPosts (traceDb E) = (\<lambda>now owner takeN skipN cid millis.
     bindR (tracedQuery E now cid millis CachedPosts unPosts
              (\<lambda>db. take (nat takeN) (drop (nat skipN) (orderedPosts owner db)))) (\<lambda>rows.
     bindR (tracedQuery E now (countId cid) millis CachedCount unCount
              (\<lambda>db. int (length (orderedPosts owner db)))) (\<lambda>n.
     returnR (rows, n))))"
  "findPost (traceDb E) = (\<lambda>postId. traced E (sqlFindPost postId))"
  "updatePostRow (traceDb E) = (\<lambda>postId uid patch. traced E (sqlUpdatePost postId uid patch))"
  "deletePostRow (traceDb E) = (\<lambda>postId uid. traced E (sqlDeletePost postId uid))"
  "existPostLike (traceDb E) = (\<lambda>postId uid. traced E (sqlExistPostLike postId uid))"
  "findPostLikes (traceDb E) = (\<lambda>now postId cid millis.
     tracedQuery E now cid millis CachedLikes unLikes
       (\<lambda>db. filter (\<lambda>l. plPostId l = postId) (postLikes db)))"
  "findPostLikesIn (traceDb E) = (\<lambda>ids. traced E (sqlFindPostLikesIn ids))"
  "insertPostLike (traceDb E) = (\<lambda>pl. traced E (sqlInsertPostLike pl))"
  "deletePostLike (traceDb E) = (\<lambda>postId uid. traced E (sqlDeletePostLike postId uid))"
  by (simp_all add: traceDb_def)

text \<open>Without interference it is the reference database, so what is proved of a database holds of it.\<close>

lemma traced_apply:
  "traced E m t =
     (fst (m (E (length (steps t)) (current t))),
      \<lparr>current = snd (m (E (length (steps t)) (current t))),
       steps = steps t @ [(E (length (steps t)) (current t), snd (m (E (length (steps t)) (current t))))]\<rparr>)"
  by (simp add: traced_def Let_def split: prod.split)

lemma sim_traced: "sim current (traced (\<lambda>_ db. db) m) m"
  by (simp add: sim_def traced_apply)

lemma sim_tracedQuery:
  "sim current (tracedQuery (\<lambda>_ db. db) now cid millis wrap unwrap query) (cachedQuery now cid millis wrap unwrap query)"
  by (auto simp: sim_def tracedQuery_def cachedQuery_def run_simps traced_apply cacheLookup_def cacheStore_def
      split: option.split)

lemma sim_firstRow: "sim current q f \<Longrightarrow> sim current (firstRow q) (orFail f)"
  unfolding firstRow_def orFail_def
  by (rule sim_bind) (auto intro!: sim_intros split: list.split)

interpretation alone: orm "traceDb (\<lambda>_ db. db)" current
  by unfold_locales
    (simp_all only: traceDb_sel sqlFindSession_def sqlFindUserInfo_def sqlFindPosts_def sqlFindPostLikes_def
        sessionRows_def [abs_def],
      (rule sim_traced sim_tracedQuery sim_firstRow sim_intros)+)


section \<open>Threads\<close>

text \<open>
  A thread is an action given for every interference. It only appends to its record; a statement
  finds what the interference with its number makes of the database before it; what a thread does
  is determined by what its statements find, wherever it begins, and its behaviour up to the
  \<open>n\<close>-th statement does not depend on later interference.
\<close>

type_synonym 'a thread = "interference \<Rightarrow> (trace, exn, 'a) run"

definition dbBefore :: "dbState \<Rightarrow> (dbState \<times> dbState) list \<Rightarrow> nat \<Rightarrow> dbState" where
  "dbBefore db new k = (if k = 0 then db else snd (new ! (k - 1)))"

definition extends :: "interference \<Rightarrow> trace \<Rightarrow> trace \<Rightarrow> bool" where
  "extends E t t' \<longleftrightarrow>
     (\<exists>new. steps t' = steps t @ new \<and> current t' = dbBefore (current t) new (length new) \<and>
        (\<forall>k < length new. fst (new ! k) = E (length (steps t) + k) (dbBefore (current t) new k)))"

definition diverged :: "nat \<Rightarrow> trace \<Rightarrow> trace \<Rightarrow> bool" where
  "diverged n t t' \<longleftrightarrow>
     n < length (steps t) \<and> n < length (steps t') \<and> take n (steps t) = take n (steps t')"

definition thread :: "'a thread \<Rightarrow> bool" where
  "thread p \<longleftrightarrow>
     (\<forall>E t. extends E t (snd (p E t))) \<and>
     (\<forall>E E' t. extends E' t (snd (p E t)) \<longrightarrow> p E' t = p E t) \<and>
     (\<forall>E t t'. steps t = steps t' \<longrightarrow>
        E (length (steps t)) (current t) = E (length (steps t)) (current t') \<longrightarrow>
        fst (p E t) = fst (p E t') \<and> steps (snd (p E t)) = steps (snd (p E t'))) \<and>
     (\<forall>n E E' t. (\<forall>k < n. E k = E' k) \<longrightarrow>
        p E t = p E' t \<or> diverged n (snd (p E t)) (snd (p E' t)))"

named_theorems thread_intros "threads composed of threads"

lemma extends_refl [simp]: "extends E t t"
  by (simp add: extends_def dbBefore_def)

lemma dbBefore_append:
  "k \<le> length a \<Longrightarrow> dbBefore db (a @ b) k = dbBefore db a k"
  "dbBefore db (a @ b) (length a + j) = dbBefore (dbBefore db a (length a)) b j"
  by (auto simp: dbBefore_def nth_append)

lemma extends_append:
  assumes "steps t' = steps t @ a" and "current t' = dbBefore (current t) a (length a)"
    and "steps t'' = steps t @ a @ b" and "current t'' = dbBefore (current t) (a @ b) (length (a @ b))"
  shows "extends E t t'' \<longleftrightarrow> extends E t t' \<and> extends E t' t''"
proof
  assume "extends E t t''"
  then have f: "fst ((a @ b) ! k) = E (length (steps t) + k) (dbBefore (current t) (a @ b) k)" if "k < length (a @ b)" for k
    using assms(3) that by (auto simp: extends_def)
  have "fst (a ! k) = E (length (steps t) + k) (dbBefore (current t) a k)" if "k < length a" for k
    using f [of k] that by (simp add: nth_append dbBefore_append(1))
  moreover have "fst (b ! j) = E (length (steps t) + length a + j) (dbBefore (dbBefore (current t) a (length a)) b j)"
    if "j < length b" for j
    using f [of "length a + j"] that by (simp add: dbBefore_append(2) add.assoc)
  ultimately show "extends E t t' \<and> extends E t' t''"
    using assms by (simp add: extends_def dbBefore_append(2))
next
  assume "extends E t t' \<and> extends E t' t''"
  then have f: "\<And>k. k < length a \<Longrightarrow> fst (a ! k) = E (length (steps t) + k) (dbBefore (current t) a k)"
    "\<And>j. j < length b \<Longrightarrow> fst (b ! j) = E (length (steps t) + length a + j) (dbBefore (dbBefore (current t) a (length a)) b j)"
    using assms by (simp_all add: extends_def)
  have "fst ((a @ b) ! k) = E (length (steps t) + k) (dbBefore (current t) (a @ b) k)" if "k < length (a @ b)" for k
  proof (cases "k < length a")
    case True
    with f(1) show ?thesis by (simp add: nth_append dbBefore_append(1))
  next
    case False
    with f(2) [of "k - length a"] that dbBefore_append(2) [of "current t" a b "k - length a"] show ?thesis
      by (simp add: nth_append)
  qed
  with assms show "extends E t t''" by (auto simp: extends_def)
qed

lemma extends_split:
  assumes "extends E t t'" and "extends E0 t' t''"
  shows "extends E' t t'' \<longleftrightarrow> extends E' t t' \<and> extends E' t' t''"
proof -
  from assms obtain a b where "steps t' = steps t @ a" "current t' = dbBefore (current t) a (length a)"
    "steps t'' = steps t @ a @ b" "current t'' = dbBefore (current t') b (length b)"
    unfolding extends_def by auto
  then show ?thesis by (intro extends_append [of t' t a t'' b]) (simp_all add: dbBefore_append(2))
qed

lemma extends_trans: "extends E t t' \<Longrightarrow> extends E t' t'' \<Longrightarrow> extends E t t''"
  using extends_split by blast

lemma extends_take: "extends E t t' \<Longrightarrow> n \<le> length (steps t) \<Longrightarrow>
  length (steps t) \<le> length (steps t') \<and> take n (steps t') = take n (steps t)"
  by (auto simp: extends_def)

lemma diverged_extends:
  "diverged n t t' \<Longrightarrow> extends E t u \<Longrightarrow> extends E' t' u' \<Longrightarrow> diverged n u u'"
  using extends_take [of E t u n] extends_take [of E' t' u' n] by (simp add: diverged_def)

lemma thread_extends: "thread p \<Longrightarrow> extends E t (snd (p E t))"
  by (simp add: thread_def)

lemma thread_determined: "thread p \<Longrightarrow> extends E' t (snd (p E t)) \<Longrightarrow> p E' t = p E t"
  by (simp add: thread_def)

lemma thread_anywhere:
  "thread p \<Longrightarrow> steps t = steps t' \<Longrightarrow>
   E (length (steps t)) (current t) = E (length (steps t)) (current t') \<Longrightarrow>
   fst (p E t) = fst (p E t') \<and> steps (snd (p E t)) = steps (snd (p E t'))"
  unfolding thread_def by blast

lemma thread_agree:
  "thread p \<Longrightarrow> (\<And>k. k < n \<Longrightarrow> E k = E' k) \<Longrightarrow>
   p E t = p E' t \<or> diverged n (snd (p E t)) (snd (p E' t))"
  by (simp add: thread_def)

lemma thread_pure [thread_intros]:
  "thread (\<lambda>E. returnR a)" "thread (\<lambda>E. throwR e)" "thread (\<lambda>E. liftR r)"
  by (simp_all add: thread_def)

lemma thread_traced [thread_intros]: "thread (\<lambda>E. traced E m)"
  unfolding thread_def
proof (intro conjI allI impI)
  fix E t show "extends E t (snd (traced E m t))"
    by (auto simp: extends_def traced_apply dbBefore_def)
next
  fix E E' t assume "extends E' t (snd (traced E m t))"
  then show "traced E' m t = traced E m t"
    by (auto simp: extends_def traced_apply dbBefore_def)
next
  fix E :: interference and t t' :: trace
  assume "steps t = steps t'" "E (length (steps t)) (current t) = E (length (steps t)) (current t')"
  then show "fst (traced E m t) = fst (traced E m t')" "steps (snd (traced E m t)) = steps (snd (traced E m t'))"
    by (simp_all add: traced_apply)
next
  fix n and E E' :: interference and t assume eq: "\<forall>k < (n :: nat). E k = E' k"
  show "traced E m t = traced E' m t \<or> diverged n (snd (traced E m t)) (snd (traced E' m t))"
    using eq by (cases "length (steps t) < n") (simp_all add: traced_apply diverged_def)
qed

text \<open>Sequencing: the continuation runs on the same state, or the two runs have parted before.\<close>

definition after :: "(trace, exn, 'a) run \<Rightarrow> (exn + 'a \<Rightarrow> (trace, exn, 'b) run) \<Rightarrow> (trace, exn, 'b) run" where
  "after m k t = (case m t of (res, t') \<Rightarrow> k res t')"

lemma thread_after:
  assumes m: "thread m" and k: "\<And>res. thread (\<lambda>E. k E res)"
  shows "thread (\<lambda>E. after (m E) (k E))"
  unfolding thread_def
proof (intro conjI allI impI)
  have ap: "after (m E) (k E) t = k E (fst (m E t)) (snd (m E t))" for E t
    by (simp add: after_def split: prod.split)
  show ext: "extends E t (snd (after (m E) (k E) t))" for E t
    using extends_trans [OF thread_extends [OF m, of E t]
        thread_extends [OF k [of "fst (m E t)"], of E "snd (m E t)"]] by (simp add: ap)
  show "after (m E') (k E') t = after (m E) (k E) t" if "extends E' t (snd (after (m E) (k E) t))" for E E' t
  proof -
    have "extends E' t (snd (m E t))" "extends E' (snd (m E t)) (snd (k E (fst (m E t)) (snd (m E t))))"
      using that extends_split [OF thread_extends [OF m] thread_extends [OF k]] by (simp_all add: ap)
    then have "m E' t = m E t" "k E' (fst (m E t)) (snd (m E t)) = k E (fst (m E t)) (snd (m E t))"
      using thread_determined [OF m] thread_determined [OF k] by simp_all
    then show ?thesis by (simp add: ap)
  qed
  have any: "fst (after (m E) (k E) t) = fst (after (m E) (k E) t') \<and>
      steps (snd (after (m E) (k E) t)) = steps (snd (after (m E) (k E) t'))"
    if t: "steps t = steps t'" "E (length (steps t)) (current t) = E (length (steps t)) (current t')" for E t t'
  proof -
    let ?u = "snd (m E t)" and ?u' = "snd (m E t')"
    from thread_anywhere [OF m t(1), of E] t(2) have s: "fst (m E t) = fst (m E t')" "steps ?u = steps ?u'" by simp_all
    have "E (length (steps ?u)) (current ?u) = E (length (steps ?u)) (current ?u')"
    proof -
      from thread_extends [OF m, of E t] obtain a where
        a: "steps ?u = steps t @ a" "current ?u = dbBefore (current t) a (length a)" unfolding extends_def by auto
      from thread_extends [OF m, of E t'] obtain b where
        b: "steps ?u' = steps t' @ b" "current ?u' = dbBefore (current t') b (length b)" unfolding extends_def by auto
      have "a = b" using a b s(2) t(1) by simp
      with a b t show ?thesis by (cases "a = []") (simp_all add: dbBefore_def)
    qed
    from thread_anywhere [OF k [of "fst (m E t)"] s(2), of E] this s(1) show ?thesis by (simp add: ap)
  qed
  show "fst (after (m E) (k E) t) = fst (after (m E) (k E) t')"
    "steps (snd (after (m E) (k E) t)) = steps (snd (after (m E) (k E) t'))"
    if "steps t = steps t'" "E (length (steps t)) (current t) = E (length (steps t)) (current t')" for E t t'
    using any [OF that(1), of E] that(2) by blast+
  fix n and E E' :: interference and t assume eq: "\<forall>i < (n :: nat). E i = E' i"
  show "after (m E) (k E) t = after (m E') (k E') t \<or>
      diverged n (snd (after (m E) (k E) t)) (snd (after (m E') (k E') t))"
  proof (cases "m E t = m E' t")
    case True
    then show ?thesis
      using thread_agree [OF k [of "fst (m E t)"], of n E E' "snd (m E t)"] eq by (simp add: ap)
  next
    case False
    then have "diverged n (snd (m E t)) (snd (m E' t))" using thread_agree [OF m, of n E E' t] eq by blast
    from diverged_extends [OF this thread_extends [OF k] thread_extends [OF k]] show ?thesis
      by (simp add: ap)
  qed
qed

lemma thread_bind [thread_intros]:
  assumes "thread m" and "\<And>a. thread (\<lambda>E. k E a)"
  shows "thread (\<lambda>E. bindR (m E) (k E))"
proof -
  have "bindR (m E) (k E) = after (m E) (\<lambda>res. case res of Inl e \<Rightarrow> throwR e | Inr a \<Rightarrow> k E a)" for E
    by (rule ext) (simp add: bindR_def after_def split: prod.split sum.split)
  moreover have "thread (\<lambda>E. case res of Inl e \<Rightarrow> throwR e | Inr a \<Rightarrow> k E a)" for res
    using assms(2) by (cases res) (simp_all add: thread_pure)
  ultimately show ?thesis
    using thread_after [OF assms(1), of "\<lambda>E res. case res of Inl e \<Rightarrow> throwR e | Inr a \<Rightarrow> k E a"] by simp
qed

lemma thread_catch [thread_intros]:
  assumes "thread m" and "\<And>e. thread (\<lambda>E. h E e)"
  shows "thread (\<lambda>E. catchR (m E) (h E))"
proof -
  have "catchR (m E) (h E) = after (m E) (\<lambda>res. case res of Inl e \<Rightarrow> h E e | Inr a \<Rightarrow> returnR a)" for E
    by (rule ext) (simp add: catchR_def after_def split: prod.split sum.split)
  moreover have "thread (\<lambda>E. case res of Inl e \<Rightarrow> h E e | Inr a \<Rightarrow> returnR a)" for res
    using assms(2) by (cases res) (simp_all add: thread_pure)
  ultimately show ?thesis
    using thread_after [OF assms(1), of "\<lambda>E res. case res of Inl e \<Rightarrow> h E e | Inr a \<Rightarrow> returnR a"] by simp
qed

lemma thread_mapR [thread_intros]: "(\<And>x. thread (\<lambda>E. f E x)) \<Longrightarrow> thread (\<lambda>E. mapR (f E) xs)"
  by (induction xs) (auto intro!: thread_intros)

lemma thread_cases [thread_intros]:
  "thread (\<lambda>E. m E) \<Longrightarrow> thread (\<lambda>E. n E) \<Longrightarrow> thread (\<lambda>E. if b then m E else n E)"
  "thread (\<lambda>E. m E) \<Longrightarrow> (\<And>y. thread (\<lambda>E. k E y)) \<Longrightarrow>
   thread (\<lambda>E. case x of None \<Rightarrow> m E | Some y \<Rightarrow> k E y)"
  "(\<And>e. thread (\<lambda>E. h E e)) \<Longrightarrow> (\<And>y. thread (\<lambda>E. k E y)) \<Longrightarrow>
   thread (\<lambda>E. case z of Inl e \<Rightarrow> h E e | Inr y \<Rightarrow> k E y)"
  "(\<And>u v. thread (\<lambda>E. l E u v)) \<Longrightarrow> thread (\<lambda>E. case w of (u, v) \<Rightarrow> l E u v)"
  "thread (\<lambda>E. m E) \<Longrightarrow> (\<And>u us. thread (\<lambda>E. l' E u us)) \<Longrightarrow>
   thread (\<lambda>E. case xs of [] \<Rightarrow> m E | u # us \<Rightarrow> l' E u us)"
  by (cases b, simp, simp) (cases x, simp, simp, cases z, simp, simp, cases w, simp, cases xs, simp, simp)

lemma thread_query [thread_intros]: "thread (\<lambda>E. tracedQuery E now cid millis wrap unwrap query)"
  unfolding tracedQuery_def by (intro thread_intros)

lemma thread_firstRow [thread_intros]: "thread q \<Longrightarrow> thread (\<lambda>E. firstRow (q E))"
  unfolding firstRow_def by (intro thread_intros)

section \<open>Requests\<close>

text \<open>The application on another database.\<close>

definition withDb :: "'e ormOps \<Rightarrow> ('r, 'c, 'd) application \<Rightarrow> ('r, 'c, 'e) application" where
  "withDb D X =
     \<lparr>appDb = D, appWeb = appWeb X, appLibs = appLibs X, appConfig = appConfig X,
      appCookies = appCookies X, appIdem = appIdem X, appThrottle = appThrottle X\<rparr>"

lemma withDb_sel [simp]:
  "appDb (withDb D X) = D" "appWeb (withDb D X) = appWeb X" "appLibs (withDb D X) = appLibs X"
  "appConfig (withDb D X) = appConfig X" "appCookies (withDb D X) = appCookies X" "withDb (appDb X) X = X"
  by (simp_all add: withDb_def)

text \<open>
  The statements of a request: those of the guard and, when it lets the request pass, those of the
  handler. The rate limiter and the idempotency interceptor keep their state elsewhere; they may end
  a request between the two, which \<open>admitted\<close> says.
\<close>

record job =
  jobRoute :: route
  jobNow :: nat
  jobRequest :: webRequest
  admitted :: bool

definition requestOn :: "'e ormOps \<Rightarrow> ('r, 'c, 'd) application \<Rightarrow> job \<Rightarrow> ('e, exn, jsval) run" where
  "requestOn D X j =
     (let c = metaOf (jobRoute j) in
      bindR (canActivate D (appLibs X) (appConfig X) (jobNow j) (ctlPublic c) (ctlRoles c)
               (httpPart (jobRequest j)))
        (\<lambda>(pass, http).
           if pass \<and> admitted j
           then handlerOf (withDb D X) (jobRoute j) (jobNow j) ((jobRequest j)\<lparr>httpPart := http\<rparr>)
           else throwR ForbiddenException))"

definition requestJob :: "('r, 'c, 'd) application \<Rightarrow> job \<Rightarrow> jsval thread" where
  "requestJob X j E = requestOn (traceDb E) X j"

lemmas write_defs = svcCreatePost_def svcUpdatePost_def svcDeletePost_def repoCreatePost_def repoUpdatePost_def
  repoDeletePost_def addPostLikeUser_def removePostLikeUser_def savePostLikeEntity_def removePostLikeEntity_def
  removePostLikeEntityListCache_def postLikeIsExist_def svcCreateUserInfo_def svcUpdateUserInfo_def
  svcDeleteUserInfoByUid_def userInfoIsExist_def saveUserInfoEntity_def updateUserInfoEntity_def
  deleteUserInfoByUid_def removeUserInfoCache_def

lemma thread_profile [thread_intros]: "thread (\<lambda>E. svcGetUserInfoByUid (traceDb E) now uid)"
  unfolding userInfo_defs traceDb_sel by (intro thread_intros)

lemma thread_likes [thread_intros]:
  "thread (\<lambda>E. getPostLikeMapByPostIds (traceDb E) (svcGetUserInfoByUid (traceDb E)) now ids)"
  unfolding like_defs traceDb_sel by (intro thread_intros)

lemma thread_listRows [thread_intros]: "thread (\<lambda>E. listRows (traceDb E) now owner page)"
  by (cases owner) (simp_all only: listRows.simps findPostEntityListAndCountByPage_def
      findPostEntityListAndCountByPostPageDto_def traceDb_sel, (intro thread_intros)+)

lemma thread_handler [thread_intros]: "thread (\<lambda>E. handlerOf (withDb (traceDb E) X) r now req)"
proof -
  have l: "thread (\<lambda>E. listPosts (traceDb E) now owner page)" for owner page
    unfolding listPosts_unfold toPostDaoList_def Let_def by (intro thread_intros)
  from l [of None] l [of "Some v" for v]
  have p: "thread (\<lambda>E. getPostPageListByPage (traceDb E) (svcGetUserInfoByUid (traceDb E)) now page)"
    "thread (\<lambda>E. getPostPageListByPostUid (traceDb E) (svcGetUserInfoByUid (traceDb E)) now v page)"
    for page v by simp_all
  have g: "thread (\<lambda>E. getPostByPostId (traceDb E) (svcGetUserInfoByUid (traceDb E)) now i)" for i
    unfolding getPostByPostId_def findPostEntityByPostId_def Let_def traceDb_sel by (intro thread_intros)
  show ?thesis
    by (cases r) (simp_all only: handlerOf.simps ctl_defs withDb_sel Let_def andSuccess_def write_defs userAuth_defs traceDb_sel,
      (intro thread_intros p g)+)
qed

lemma thread_request: "thread (requestJob X j)"
proof -
  have "thread (\<lambda>E. canActivate (traceDb E) L cfg now pub roles req)" for L cfg now pub roles req
    unfolding canActivate_def verifyAccessToken_def verifyRefreshToken_def getUserSessionEntityByUid_def
      Let_def traceDb_sel
    by (intro thread_intros)
  then show ?thesis unfolding requestJob_def [abs_def] requestOn_def Let_def by (intro thread_intros)
qed

lemma threads_requests: "list_all thread (map (requestJob X) js)"
  by (simp add: list_all_iff thread_request)

section \<open>Pools\<close>

text \<open>
  A pool of threads on one database: the database now, the databases before, and for each thread
  the databases its statements so far have found.
\<close>

record pool =
  shared :: dbState
  past :: "dbState list"
  seen :: "nat \<Rightarrow> dbState list"

definition poolOf :: "dbState \<Rightarrow> pool" where
  "poolOf db = \<lparr>shared = db, past = [], seen = (\<lambda>_. [])\<rparr>"

text \<open>The interference under which the statements find the given databases, and then the last one.\<close>

definition finds :: "dbState list \<Rightarrow> dbState \<Rightarrow> interference" where
  "finds h db k _ = (if k < length h then h ! k else db)"

definition beginAt :: "dbState \<Rightarrow> trace" where
  "beginAt db = \<lparr>current = db, steps = []\<rparr>"

text \<open>
  The run of a thread as far as it is determined: its statements find what they have found, and the
  next one the shared database, where the thread begins when it has executed none.
\<close>

definition resume :: "'a thread \<Rightarrow> pool \<Rightarrow> nat \<Rightarrow> (exn + 'a) \<times> trace" where
  "resume p c i = p (finds (seen c i) (shared c)) (beginAt (hd (seen c i @ [shared c])))"

definition finished :: "'a thread \<Rightarrow> pool \<Rightarrow> nat \<Rightarrow> bool" where
  "finished p c i \<longleftrightarrow> length (steps (snd (resume p c i))) \<le> length (seen c i)"

definition outcome :: "'a thread \<Rightarrow> pool \<Rightarrow> nat \<Rightarrow> exn + 'a" where
  "outcome p c i = fst (resume p c i)"

text \<open>The statement that a thread executes next, on the shared database.\<close>

definition advance :: "'a thread \<Rightarrow> nat \<Rightarrow> pool \<Rightarrow> pool" where
  "advance p i c =
     c\<lparr>shared := snd (steps (snd (resume p c i)) ! length (seen c i)), past := past c @ [shared c],
       seen := (seen c)(i := seen c i @ [shared c])\<rparr>"

inductive poolStep :: "'a thread list \<Rightarrow> nat \<Rightarrow> pool \<Rightarrow> pool \<Rightarrow> bool" for ps where
  statement: "i < length ps \<Longrightarrow> \<not> finished (ps ! i) c i \<Longrightarrow> poolStep ps i c (advance (ps ! i) i c)"

inductive poolReach :: "'a thread list \<Rightarrow> dbState \<Rightarrow> pool \<Rightarrow> bool" for ps db where
  start: "poolReach ps db (poolOf db)"
| more: "poolReach ps db c \<Longrightarrow> poolStep ps i c c' \<Longrightarrow> poolReach ps db c'"

inductive_cases poolStepE: "poolStep ps i c c'"

text \<open>A schedule names the thread that executes the next statement; one that cannot is passed over.\<close>

fun runPool :: "'a thread list \<Rightarrow> nat list \<Rightarrow> pool \<Rightarrow> pool" where
  "runPool ps [] c = c"
| "runPool ps (i # is) c =
     runPool ps is (if i < length ps \<and> \<not> finished (ps ! i) c i then advance (ps ! i) i c else c)"

lemma runPool_reach: "poolReach ps db c \<Longrightarrow> poolReach ps db (runPool ps sched c)"
  by (induction sched arbitrary: c) (auto intro: more statement)

lemma runPool_append: "runPool ps (xs @ ys) c = runPool ps ys (runPool ps xs c)"
  by (induction xs arbitrary: c) simp_all

lemma pool_advance:
  assumes "i < length ps" and "length (seen c i) < length (steps (snd (resume (ps ! i) c i)))"
  shows "runPool ps (i # sched) c = runPool ps sched
    (c\<lparr>shared := snd (steps (snd (resume (ps ! i) c i)) ! length (seen c i)), past := past c @ [shared c],
       seen := (seen c)(i := seen c i @ [shared c])\<rparr>)"
  using assms by (simp add: finished_def advance_def)

subsection \<open>What a thread has done\<close>

lemma record_found:
  assumes "thread p" and "k < length (steps (snd (p (finds h d) (beginAt db))))"
  shows "fst (steps (snd (p (finds h d) (beginAt db))) ! k) = (if k < length h then h ! k else d)"
proof -
  from thread_extends [OF assms(1), of "finds h d" "beginAt db"] assms(2)
  show ?thesis by (auto simp: extends_def finds_def beginAt_def)
qed

lemma record_agree:
  assumes "thread p" and "take n h = take n h'" and "n \<le> length h" and "n \<le> length h'"
  shows "p (finds h d) t = p (finds h' d') t \<or>
    diverged n (snd (p (finds h d) t)) (snd (p (finds h' d') t))"
proof (rule thread_agree [OF assms(1)])
  fix k assume k: "k < n"
  from assms(2) have "take n h ! k = take n h' ! k" by simp
  with k assms(3,4) show "finds h d k = finds h' d' k" by (simp add: finds_def fun_eq_iff)
qed

text \<open>The statements a thread has executed.\<close>

definition did :: "'a thread \<Rightarrow> pool \<Rightarrow> nat \<Rightarrow> (dbState \<times> dbState) list" where
  "did p c i = take (length (seen c i)) (steps (snd (resume p c i)))"

definition poolOk :: "'a thread list \<Rightarrow> pool \<Rightarrow> bool" where
  "poolOk ps c \<longleftrightarrow> (\<forall>i < length ps. length (seen c i) \<le> length (steps (snd (resume (ps ! i) c i))))"

lemma steps_agree:
  assumes "thread p" and "take n h = take n h'" and "n \<le> length h" and "n \<le> length h'"
    and "n \<le> length (steps (snd (p (finds h d) t)))"
  shows "n \<le> length (steps (snd (p (finds h' d') t))) \<and>
    take n (steps (snd (p (finds h' d') t))) = take n (steps (snd (p (finds h d) t)))"
  using record_agree [OF assms(1-4), of d t d'] assms(5) by (auto simp: diverged_def)

lemma advance_sel [simp]:
  "past (advance p i c) = past c @ [shared c]"
  "seen (advance p i c) = (seen c)(i := seen c i @ [shared c])"
  by (simp_all add: advance_def)

lemma advance_did:
  assumes t: "thread (ps ! i)" "\<not> finished (ps ! i) c i" and j: "thread (ps ! j)"
    and ok: "length (seen c j) \<le> length (steps (snd (resume (ps ! j) c j)))"
  shows "length (seen (advance (ps ! i) i c) j) \<le> length (steps (snd (resume (ps ! j) (advance (ps ! i) i c) j))) \<and>
    did (ps ! j) (advance (ps ! i) i c) j =
      did (ps ! j) c j @ (if j = i then [(shared c, shared (advance (ps ! i) i c))] else [])"
proof (cases "j = i")
  case False
  show ?thesis
  proof (cases "seen c j = []")
    case True
    with False show ?thesis by (simp add: did_def)
  next
    case nonempty: False
    with steps_agree [OF j refl order_refl order_refl, of "seen c j" "shared c" _ "shared (advance (ps ! i) i c)"] ok False
    show ?thesis by (simp add: did_def resume_def)
  qed
next
  case True
  let ?h = "seen c i" and ?c = "advance (ps ! i) i c"
  let ?t = "beginAt (hd (?h @ [shared c]))"
  define l where "l = steps (snd (resume (ps ! i) c i))"
  have n: "length ?h < length l" using t(2) by (simp add: finished_def l_def)
  have same: "finds ?h (shared c) = finds (?h @ [shared c]) (shared c)"
    by (auto simp: finds_def fun_eq_iff nth_append)
  have l': "l = steps (snd ((ps ! i) (finds (?h @ [shared c]) (shared c)) ?t))"
    by (simp add: l_def resume_def same)
  have hd: "hd ((?h @ [shared c]) @ [d]) = hd (?h @ [shared c])" for d by (cases ?h) simp_all
  from steps_agree [OF t(1) refl order_refl order_refl, of "?h @ [shared c]" "shared c" ?t "shared ?c"] n
  have r: "Suc (length ?h) \<le> length (steps (snd (resume (ps ! i) ?c i)))"
    "take (Suc (length ?h)) (steps (snd (resume (ps ! i) ?c i))) = take (Suc (length ?h)) l"
    by (simp_all only: resume_def advance_sel fun_upd_same hd flip: l') (simp_all flip: l')
  have "fst (l ! length ?h) = shared c"
    using record_found [OF t(1), of "length ?h" ?h "shared c"] n by (simp add: l_def resume_def)
  then have "l ! length ?h = (shared c, shared ?c)"
    by (simp add: advance_def l_def prod_eq_iff)
  with r n True show ?thesis
    by (simp add: did_def take_Suc_conv_app_nth flip: l_def)
qed

lemma reach_ok:
  assumes "poolReach ps db c" and "list_all thread ps"
  shows "poolOk ps c"
  using assms(1)
proof (induction rule: poolReach.induct)
  case start
  show ?case by (simp add: poolOk_def poolOf_def)
next
  case (more c i c')
  from more(2) more.IH show ?case
    by (elim poolStepE) (use advance_did [of ps i c] assms(2) in \<open>auto simp: poolOk_def list_all_length\<close>)
qed

lemma step_did:
  assumes "poolReach ps db c" and "list_all thread ps" and "poolStep ps i c c'" and "j < length ps"
  shows "did (ps ! j) c' j = did (ps ! j) c j @ (if j = i then [(shared c, shared c')] else [])"
  using assms(3)
  by (elim poolStepE) (use advance_did [of ps i c j] assms(2) reach_ok [OF assms(1,2)] assms(4) in
    \<open>auto simp: poolOk_def list_all_length\<close>)

text \<open>A property that every prefix of a record has is one of the statements executed.\<close>

lemma did_has:
  assumes "\<And>E. keeps (\<lambda>t. P (steps t)) (p E)" and "P []" and "\<And>l n. P l \<Longrightarrow> P (take n l)"
  shows "P (did p c i)"
proof -
  have "P (steps (beginAt (hd (seen c i @ [shared c]))))" using assms(2) by (simp add: beginAt_def)
  with assms(1) have "P (steps (snd (resume p c i)))" unfolding keeps_def resume_def by blast
  with assms(3) show ?thesis by (simp add: did_def)
qed

subsection \<open>Every interleaving ends\<close>

lemma step_seen:
  "poolStep ps i c c' \<Longrightarrow> seen c' j = seen c j @ (if j = i then [shared c] else [])"
  by (auto elim!: poolStepE)

text \<open>
  A thread is a total function under every interference, so the databases of an endless run of it
  would lead it to an end after finitely many statements.
\<close>

lemma thread_ends:
  assumes p: "thread p" and grow: "\<And>n. prefix (h n) (h (Suc n))" and more: "\<And>N. \<exists>n. N < length (h n)"
  shows "\<exists>n. length (steps (snd (p (finds (h n) (d n)) t))) < length (h n)"
proof -
  have mono: "prefix (h m) (h n)" if "m \<le> n" for m n
    using that grow by (induction n rule: dec_induct) (auto intro: prefix_order.trans)
  from more have "\<forall>k. \<exists>n. k < length (h n)" by blast
  then obtain at where at: "\<And>k. k < length (h (at k))" by metis
  have same: "h n ! k = h (at k) ! k" if "k < length (h n)" for n k
    using mono [of n "at k"] mono [of "at k" n] that at [of k]
    by (cases "n \<le> at k") (auto simp: prefix_def nth_append)
  let ?E = "\<lambda>k _. h (at k) ! k"
  obtain n where n: "length (steps (snd (p ?E t))) < length (h n)" using more by blast
  have "p ?E t = p (finds (h n) (d n)) t \<or> diverged (length (h n)) (snd (p ?E t)) (snd (p (finds (h n) (d n)) t))"
    by (rule thread_agree [OF p]) (simp add: finds_def same fun_eq_iff)
  with n show ?thesis by (auto simp: diverged_def)
qed

lemma no_endless_run:
  assumes ps: "list_all thread ps" and start: "f 0 = poolOf db"
    and run: "\<And>n. \<exists>i. poolStep ps i (f n) (f (Suc n))"
  shows False
proof -
  from run have "\<forall>n. \<exists>i. poolStep ps i (f n) (f (Suc n))" by blast
  then obtain g where g: "\<And>n. poolStep ps (g n) (f n) (f (Suc n))" by metis
  have reach: "poolReach ps db (f n)" for n
    by (induction n) (use start g in \<open>auto intro: poolReach.intros\<close>)
  have "g ` UNIV \<subseteq> {..< length ps}" using g by (auto elim: poolStepE)
  then have "finite (range g)" by (rule finite_subset) simp
  then obtain i where i: "i \<in> range g" "infinite {n. g n = i}"
    using pigeonhole_infinite [of UNIV g] by auto
  then have lt: "i < length ps" using g by (auto elim: poolStepE)
  define h where "h n = seen (f n) i" for n
  have h: "h (Suc n) = h n @ (if i = g n then [shared (f n)] else [])" for n
    using step_seen [OF g] by (simp add: h_def)
  have mono: "length (h m) \<le> length (h n)" if "m \<le> n" for m n
    using that by (induction n rule: dec_induct) (auto simp: h)
  have "\<exists>n. N < length (h n)" for N
  proof (induction N)
    case 0
    from i(1) obtain n where "g n = i" by auto
    then show ?case by (intro exI [of _ "Suc n"]) (simp add: h)
  next
    case (Suc N)
    then obtain n where n: "N < length (h n)" by blast
    from i(2) obtain m where "n \<le> m" "g m = i" unfolding finite_nat_set_iff_bounded by (auto simp: not_less)
    with mono [of n m] n show ?case by (intro exI [of _ "Suc m"]) (simp add: h)
  qed
  note long = this
  have pre: "prefix (h n) (h (Suc n))" for n by (simp add: h)
  have chain: "prefix (h m) (h n)" if "m \<le> n" for m n
    using that pre by (induction n rule: dec_induct) (auto intro: prefix_order.trans)
  obtain n0 where n0: "0 < length (h n0)" using long by blast
  obtain m where m: "length (steps (snd ((ps ! i) (finds (h m) (shared (f m))) (beginAt (hd (h n0)))))) < length (h m)"
    using thread_ends [of "ps ! i" h "\<lambda>m. shared (f m)" "beginAt (hd (h n0))"] ps lt pre long
    unfolding list_all_length by blast
  have "h m \<noteq> []" using m by auto
  moreover from this have "hd (h m) = hd (h n0)"
    using chain [of m n0] chain [of n0 m] n0 by (cases "m \<le> n0") (auto simp: prefix_def)
  ultimately show False using reach_ok [OF reach ps, of m] lt m by (auto simp: poolOk_def resume_def h_def)
qed

subsection \<open>A thread that runs without interruption\<close>

text \<open>
  A thread that begins on the shared database and executes all its statements in a row ends as it
  does on a database of its own.
\<close>

definition alone :: "'a thread \<Rightarrow> dbState \<Rightarrow> (exn + 'a) \<times> trace" where
  "alone p db = p (\<lambda>_ db. db) (beginAt db)"

lemma alone_chain:
  assumes "thread p"
  shows "current (snd (alone p db)) = dbBefore db (steps (snd (alone p db))) (length (steps (snd (alone p db))))"
    and "k < length (steps (snd (alone p db))) \<Longrightarrow>
      fst (steps (snd (alone p db)) ! k) = dbBefore db (steps (snd (alone p db))) k"
  using thread_extends [OF assms, of "\<lambda>_ db. db" "beginAt db"]
  by (auto simp: alone_def extends_def beginAt_def)

lemma alone_replayed:
  assumes "thread p"
  shows "p (finds (map fst (steps (snd (alone p db)))) d) (beginAt db) = alone p db"
  unfolding alone_def
proof (rule thread_determined [OF assms])
  have "current (snd (alone p db)) = dbBefore db (steps (snd (alone p db))) (length (steps (snd (alone p db))))"
    by (rule alone_chain(1) [OF assms])
  then show "extends (finds (map fst (steps (snd (p (\<lambda>_ db. db) (beginAt db))))) d) (beginAt db)
      (snd (p (\<lambda>_ db. db) (beginAt db)))"
    by (auto simp: extends_def beginAt_def finds_def alone_def)
qed

lemma alone_prefix:
  assumes "thread p" and "k < length (steps (snd (alone p db)))"
  defines "h \<equiv> map fst (steps (snd (alone p db)))"
  shows "k < length (steps (snd (p (finds (take k h) (h ! k)) (beginAt db)))) \<and>
    steps (snd (p (finds (take k h) (h ! k)) (beginAt db))) ! k = steps (snd (alone p db)) ! k"
proof -
  let ?l = "steps (snd (p (finds (take k h) (h ! k)) (beginAt db)))"
  have k: "k < length h" using assms(2) by (simp add: h_def)
  have "finds (take k h) (h ! k) = finds (take (Suc k) h) (h ! k)"
    using k by (auto simp: finds_def fun_eq_iff nth_append take_Suc_conv_app_nth less_Suc_eq)
  then have "Suc k \<le> length ?l \<and> take (Suc k) ?l = take (Suc k) (steps (snd (alone p db)))"
    using steps_agree [OF assms(1), of "Suc k" h "take (Suc k) h" "h ! k" "beginAt db" "h ! k"] k
      alone_replayed [OF assms(1), of db "h ! k"] by (simp add: h_def)
  then show ?thesis by (metis Suc_le_lessD lessI nth_take)
qed

lemma alone_steps:
  assumes p: "thread (ps ! i)" "i < length ps" and new: "seen c i = []"
    and k: "k \<le> length (steps (snd (alone (ps ! i) (shared c))))"
  defines "l \<equiv> steps (snd (alone (ps ! i) (shared c)))"
  defines "c' \<equiv> runPool ps (replicate k i) c"
  shows "seen c' i = take k (map fst l) \<and> (\<forall>j. j \<noteq> i \<longrightarrow> seen c' j = seen c j) \<and>
    shared c' = dbBefore (shared c) l k"
  using k unfolding c'_def
proof (induction k)
  case 0
  with new show ?case by (simp add: dbBefore_def)
next
  case (Suc k)
  let ?c = "runPool ps (replicate k i) c"
  have k: "k < length l" using Suc.prems by (simp add: l_def)
  with Suc have ih: "seen ?c i = take k (map fst l)" "shared ?c = dbBefore (shared c) l k"
    "\<forall>j. j \<noteq> i \<longrightarrow> seen ?c j = seen c j" by simp_all
  have f: "map fst l ! k = dbBefore (shared c) l k" using alone_chain(2) [OF p(1)] k by (simp add: l_def)
  have "hd (take k (map fst l) @ [dbBefore (shared c) l k]) = shared c"
  proof (cases k)
    case (Suc j)
    then have "l \<noteq> []" using k by auto
    then have "hd (map fst l) = fst (l ! 0)" by (simp add: hd_conv_nth hd_map)
    also have "\<dots> = shared c" using alone_chain(2) [OF p(1), of 0 "shared c"] \<open>l \<noteq> []\<close> by (simp add: l_def dbBefore_def)
    finally show ?thesis using Suc \<open>l \<noteq> []\<close> by (simp add: hd_append hd_take)
  qed (simp add: dbBefore_def)
  then have r: "resume (ps ! i) ?c i = (ps ! i) (finds (take k (map fst l)) (map fst l ! k)) (beginAt (shared c))"
    using ih f by (simp add: resume_def)
  from alone_prefix [OF p(1), of k "shared c"] k have a: "k < length (steps (snd (resume (ps ! i) ?c i)))"
    "steps (snd (resume (ps ! i) ?c i)) ! k = l ! k"
    unfolding r l_def by simp_all
  then have "\<not> finished (ps ! i) ?c i" using ih(1) k by (simp add: finished_def)
  then have "runPool ps (replicate (Suc k) i) c = advance (ps ! i) i ?c"
    using p(2) runPool_append [of ps "replicate k i" "[i]" c] by (simp flip: replicate_append_same)
  then show ?case using a ih f k
    by (simp add: advance_def dbBefore_def take_Suc_conv_app_nth)
qed

lemma run_alone:
  assumes p: "thread (ps ! i)" "i < length ps" and new: "seen c i = []"
    and n: "length (steps (snd (alone (ps ! i) (shared c)))) \<le> n"
  defines "c' \<equiv> runPool ps (replicate n i) c"
  shows "shared c' = current (snd (alone (ps ! i) (shared c))) \<and> finished (ps ! i) c' i \<and>
    outcome (ps ! i) c' i = fst (alone (ps ! i) (shared c)) \<and> (\<forall>j. j \<noteq> i \<longrightarrow> seen c' j = seen c j)"
proof -
  define l where "l = steps (snd (alone (ps ! i) (shared c)))"
  let ?c = "runPool ps (replicate (length l) i) c"
  from alone_steps [OF p new, of "length l"] have c: "seen ?c i = map fst l"
    "shared ?c = dbBefore (shared c) l (length l)" "\<forall>j. j \<noteq> i \<longrightarrow> seen ?c j = seen c j"
    by (simp_all add: l_def)
  have "hd (map fst l @ [shared ?c]) = shared c"
    using alone_chain(2) [OF p(1), of 0 "shared c"] c(2) by (cases l) (simp_all add: dbBefore_def flip: l_def)
  then have r: "resume (ps ! i) ?c i = alone (ps ! i) (shared c)"
    using alone_replayed [OF p(1), of "shared c" "shared ?c"] c(1) by (simp add: resume_def flip: l_def)
  then have f: "finished (ps ! i) ?c i" using c(1) by (simp add: finished_def flip: l_def)
  have stay: "runPool ps (replicate m i) ?c = ?c" for m
    by (induction m) (simp_all add: f)
  obtain m where "n = length l + m" using n by (auto simp: l_def le_iff_add)
  then have "c' = ?c"
    using runPool_append [of ps "replicate (length l) i" "replicate m i" c] stay
    by (simp add: c'_def replicate_add)
  then show ?thesis using c r f alone_chain(1) [OF p(1), of "shared c"] by (simp add: outcome_def flip: l_def)
qed

text \<open>A thread that has executed all its statements stays so, with its outcome.\<close>

lemma finished_stays:
  assumes p: "thread (ps ! i)" and f: "finished (ps ! i) c i" and s: "seen c' i = seen c i"
  shows "finished (ps ! i) c' i \<and> outcome (ps ! i) c' i = outcome (ps ! i) c i"
proof -
  let ?h = "seen c i" and ?p = "ps ! i"
  let ?a = "?p (finds ?h (shared c)) (beginAt (hd (?h @ [shared c'])))"
  have "fst ?a = fst (resume ?p c i) \<and> steps (snd ?a) = steps (snd (resume ?p c i))"
    unfolding resume_def by (rule thread_anywhere [OF p]) (simp_all add: beginAt_def finds_def)
  moreover have "?a = resume ?p c' i \<or> diverged (length ?h) (snd ?a) (snd (resume ?p c' i))"
    unfolding resume_def s by (rule record_agree [OF p]) simp_all
  ultimately show ?thesis using f s by (auto simp: finished_def outcome_def diverged_def)
qed

end
