(* ===== verification/Races.thy ===== *)
theory Races
  imports Interleave
begin

text \<open>
  What holds of every interleaving of requests, statement by statement: the schema stays intact,
  and a statement changes the data of the user its request acts as and of nobody else, where acting
  as a user needs a refresh token that was stored for that user at that moment or before. That the
  sequential guarantee (the token stored now) is lost is shown by a schedule in \<open>Scenario\<close>.
\<close>

section \<open>What one statement changes\<close>

lemma onlyOwn_rows:
  assumes "schemaOk a" and "schemaOk b"
    and "\<And>p. Some (peUid p) \<noteq> owner \<Longrightarrow> p \<in> set (posts b) \<longleftrightarrow> p \<in> set (posts a)"
    and "\<And>l. Some (plUid l) \<noteq> owner \<Longrightarrow> l \<in> set (postLikes b) \<longleftrightarrow> l \<in> set (postLikes a)"
    and "\<And>r. Some (uiUid r) \<noteq> owner \<Longrightarrow> r \<in> set (userInfos b) \<longleftrightarrow> r \<in> set (userInfos a)"
  shows "onlyOwn owner a b"
proof -
  have d: "distinct (map peId (posts a))" "distinct (map peId (posts b))"
    "distinct (map uiUid (userInfos a))" "distinct (map uiUid (userInfos b))"
    using assms(1,2) by (simp_all add: schemaOk_def)
  have "profilesOf b u = profilesOf a u" if "Some u \<noteq> owner" for u
  proof -
    have "profilesOf b u = Some x \<longleftrightarrow> profilesOf a u = Some x" for x
      using assms(5) [of "rowOf x"] that by (auto simp: profilesOf_iff [OF d(3)] profilesOf_iff [OF d(4)] rowOf_def)
    then show ?thesis by (metis not_None_eq)
  qed
  moreover have "(i, u) \<in> blogLikes (blogOf b) \<longleftrightarrow> (i, u) \<in> blogLikes (blogOf a)" if "Some u \<noteq> owner" for i u
    using assms(4) [of "\<lparr>plPostId = i, plUid = u\<rparr>"] that by (simp add: liked_iff)
  moreover have "blogPosts (blogOf b) i = Some p \<longleftrightarrow> blogPosts (blogOf a) i = Some p"
    if "Some (peUid p) \<noteq> owner" for i p
    using assms(3) [OF that] by (simp add: find_unique [OF d(1)] find_unique [OF d(2)])
  ultimately show ?thesis unfolding onlyOwn_def by blast
qed

text \<open>A session that the query cache of sessions holds, and one that the table holds.\<close>

definition cachedSession :: "dbState \<Rightarrow> UserSessionEntity \<Rightarrow> bool" where
  "cachedSession db ses \<longleftrightarrow> cacheOn db \<and>
     (\<exists>u rows d. queryCache db (getUserSessionEntityCacheId u) = Some (CachedSessions rows, d) \<and> ses \<in> set rows)"

definition storedSession :: "dbState \<Rightarrow> UserSessionEntity \<Rightarrow> bool" where
  "storedSession db ses \<longleftrightarrow> ses \<in> sessionOf ` set (userAuths db)"

text \<open>A statement is mild if it touches the data of one user only and enters no session into the cache.\<close>

definition mild :: "string option \<Rightarrow> 'a sql \<Rightarrow> bool" where
  "mild owner m \<longleftrightarrow>
     (\<forall>db. (schemaOk db \<longrightarrow> schemaOk (snd (m db)) \<and> onlyOwn owner db (snd (m db))) \<and>
        (\<forall>ses. cachedSession (snd (m db)) ses \<longrightarrow> cachedSession db ses))"

named_theorems mild_intros "mild statements"

lemma mildI:
  assumes "keeps schemaOk m" and "\<And>db. cacheOn (snd (m db)) = cacheOn db \<and> queryCache (snd (m db)) = queryCache db"
    and "\<And>db. schemaOk db \<Longrightarrow> schemaOk (snd (m db)) \<Longrightarrow> onlyOwn owner db (snd (m db))"
  shows "mild owner m"
  using assms by (simp add: mild_def cachedSession_def keeps_def)

lemma mild_accounts [mild_intros]:
  "mild owner (sqlInsertUserAuth ua)" "mild owner (sqlExistUserAuth uid)" "mild owner (sqlFindUserAuth uid)"
  "mild owner (sqlUpdateUserAuth ses)"
proof -
  show "mild owner (sqlInsertUserAuth ua)" "mild owner (sqlUpdateUserAuth ses)"
    by (rule mildI [OF schema_userAuth(1)], auto simp: sqlInsertUserAuth_def contentOf_def intro!: onlyOwn_content)
      (rule mildI [OF schema_userAuth(2)],
        auto simp: sqlUpdateUserAuth_def Let_def contentOf_def intro!: onlyOwn_content)
  show "mild owner (sqlExistUserAuth uid)" "mild owner (sqlFindUserAuth uid)"
    by (auto simp: mild_def sqlExistUserAuth_def sqlFindUserAuth_def split: list.split)
qed

lemma mild_profiles [mild_intros]:
  "mild owner (sqlExistUserInfo uid)" "owner = Some (uiUid ui) \<Longrightarrow> mild owner (sqlInsertUserInfo ui)"
  "owner = Some (uiUid ui) \<Longrightarrow> mild owner (sqlUpdateUserInfo ui)" "mild (Some uid) (sqlDeleteUserInfo uid)"
proof -
  show "mild owner (sqlExistUserInfo uid)" by (simp add: mild_def sqlExistUserInfo_def)
  show "mild (Some uid) (sqlDeleteUserInfo uid)"
    by (rule mildI [OF schema_userInfo(3)]) (auto simp: sqlDeleteUserInfo_def intro: onlyOwn_rows)
  assume o: "owner = Some (uiUid ui)"
  show "mild owner (sqlInsertUserInfo ui)"
    by (rule mildI [OF schema_userInfo(1)]) (auto simp: o sqlInsertUserInfo_def intro: onlyOwn_rows)
  show "mild owner (sqlUpdateUserInfo ui)"
    by (rule mildI [OF schema_userInfo(2)])
      (auto simp: o sqlUpdateUserInfo_def Let_def intro!: onlyOwn_rows split: if_splits)
qed

lemma mild_posts [mild_intros]:
  "owner = Some (npUid np) \<Longrightarrow> mild owner (sqlInsertPost now np)" "mild owner (sqlFindPost i)"
  "mild (Some u) (sqlUpdatePost i u patch)" "mild (Some u) (sqlDeletePost i u)"
proof -
  show "mild owner (sqlFindPost i)" by (auto simp: mild_def sqlFindPost_def split: list.split)
  show "mild (Some u) (sqlUpdatePost i u patch)"
    by (rule mildI [OF schema_post(2)])
      (auto simp: sqlUpdatePost_def Let_def intro!: onlyOwn_rows split: if_splits)
  show "mild (Some u) (sqlDeletePost i u)"
    by (rule mildI [OF schema_post(3)]) (auto simp: sqlDeletePost_def Let_def intro: onlyOwn_rows)
  assume o: "owner = Some (npUid np)"
  show "mild owner (sqlInsertPost now np)"
    by (rule mildI [OF schema_post(1)]) (auto simp: o sqlInsertPost_def Let_def intro!: onlyOwn_rows)
qed

lemma mild_likes [mild_intros]:
  "mild owner (sqlExistPostLike i u)" "mild owner (sqlFindPostLikesIn ids)"
  "owner = Some (plUid pl) \<Longrightarrow> mild owner (sqlInsertPostLike pl)" "mild (Some u) (sqlDeletePostLike i u)"
proof -
  show "mild owner (sqlExistPostLike i u)" "mild owner (sqlFindPostLikesIn ids)"
    by (simp_all add: mild_def sqlExistPostLike_def sqlFindPostLikesIn_def)
  show "mild (Some u) (sqlDeletePostLike i u)"
    by (rule mildI [OF schema_postLike(2)]) (auto simp: sqlDeletePostLike_def intro: onlyOwn_rows)
  assume o: "owner = Some (plUid pl)"
  show "mild owner (sqlInsertPostLike pl)"
    by (rule mildI [OF schema_postLike(1)]) (auto simp: o sqlInsertPostLike_def intro: onlyOwn_rows)
qed

lemma mild_cache [mild_intros]:
  "mild owner (sqlRemoveCached ids)" "mild owner (cacheLookup now cid unwrap)" "mild owner (readR query)"
  "(\<And>xs. rows \<noteq> CachedSessions xs) \<Longrightarrow> mild owner (cacheStore now cid millis rows)"
  "(\<And>u. cid \<noteq> getUserSessionEntityCacheId u) \<Longrightarrow> mild owner (cacheStore now cid millis rows)"
  by (auto simp: mild_def sqlRemoveCached_def cacheLookup_def cacheStore_def cachedSession_def restrict_map_def
      contentOf_def intro: onlyOwn_content split: if_splits)

section \<open>What a request may do\<close>

text \<open>
  A request with the refresh token \<open>tok\<close> is entitled to act as a user when one of its statements
  has found a session of that user with this token, in the table or in the cache. Each of its
  statements then changes data of a user it is entitled to act as, or of nobody, and enters into
  the cache only sessions that it found in the table.
\<close>

definition entitled :: "string option \<Rightarrow> string option \<Rightarrow> (dbState \<times> dbState) list \<Rightarrow> bool" where
  "entitled tok owner l \<longleftrightarrow>
     (\<forall>u. owner = Some u \<longrightarrow>
        (\<exists>ses. seUid ses = u \<and> tok = Some (seRefreshToken ses) \<and>
           (\<exists>db \<in> fst ` set l. cachedSession db ses \<or> storedSession db ses)))"

definition entryOk :: "string option \<Rightarrow> (dbState \<times> dbState) list \<Rightarrow> dbState \<times> dbState \<Rightarrow> bool" where
  "entryOk tok earlier e \<longleftrightarrow>
     (\<forall>ses. cachedSession (snd e) ses \<longrightarrow>
        cachedSession (fst e) ses \<or> (\<exists>db \<in> fst ` set (earlier @ [e]). storedSession db ses)) \<and>
     (schemaOk (fst e) \<longrightarrow>
        schemaOk (snd e) \<and> (\<exists>owner. onlyOwn owner (fst e) (snd e) \<and> entitled tok owner earlier))"

definition recordOk :: "string option \<Rightarrow> (dbState \<times> dbState) list \<Rightarrow> bool" where
  "recordOk tok l \<longleftrightarrow> (\<forall>k < length l. entryOk tok (take k l) (l ! k))"

lemma recordOk_snoc [simp]: "recordOk tok (l @ [e]) \<longleftrightarrow> recordOk tok l \<and> entryOk tok l e"
  by (auto simp: recordOk_def nth_append less_Suc_eq)

lemma recordOk_Nil [simp]: "recordOk tok []"
  by (simp add: recordOk_def)

lemma recordOk_take: "recordOk tok l \<Longrightarrow> recordOk tok (take n l)"
  by (auto simp: recordOk_def min_def)

lemma entitled_None [simp]: "entitled tok None l"
  by (simp add: entitled_def)

lemma entitled_snoc: "entitled tok owner l \<Longrightarrow> entitled tok owner (l @ [e])"
  unfolding entitled_def by (simp add: image_Un) blast

text \<open>The state of a request that is entitled to act as \<open>owner\<close>.\<close>

definition entitledTo :: "string option \<Rightarrow> string option \<Rightarrow> trace \<Rightarrow> bool" where
  "entitledTo tok owner t \<longleftrightarrow> recordOk tok (steps t) \<and> entitled tok owner (steps t)"

lemma kept_mild [keeps_intros]: "mild owner m \<Longrightarrow> keeps (entitledTo tok owner) (traced E m)"
  unfolding keeps_def entitledTo_def traced_apply
  by (auto simp: entryOk_def mild_def intro: entitled_snoc)

lemma kept_query [keeps_intros]:
  assumes "\<And>x xs. wrap x \<noteq> CachedSessions xs"
  shows "keeps (entitledTo tok owner) (tracedQuery E now cid millis wrap unwrap query)"
  unfolding tracedQuery_def by (intro keeps_intros mild_intros assms)

lemma kept_firstRow [keeps_intros]: "keeps P q \<Longrightarrow> keeps P (firstRow q)"
  unfolding firstRow_def by (intro keeps_intros)

subsection \<open>Sessions\<close>

text \<open>A query of sessions answers with sessions that were found.\<close>

definition foundSession :: "UserSessionEntity \<Rightarrow> trace \<Rightarrow> bool" where
  "foundSession ses t \<longleftrightarrow> (\<exists>db \<in> fst ` set (steps t). cachedSession db ses \<or> storedSession db ses)"

lemma session_query:
  assumes "entitledTo tok owner t"
    and "tracedQuery E now (getUserSessionEntityCacheId v) millis CachedSessions unSessions (sessionRows uid) t = (res, t')"
  shows "entitledTo tok owner t' \<and> (\<forall>rows ses. res = Inr rows \<longrightarrow> ses \<in> set rows \<longrightarrow> foundSession ses t')"
proof -
  let ?id = "getUserSessionEntityCacheId v"
  obtain hit t1 where l: "traced E (cacheLookup now ?id unSessions) t = (hit, t1)" by fastforce
  have k1: "entitledTo tok owner t1"
    using keepsD [OF kept_mild [OF mild_cache(2)] assms(1) l] .
  define a where "a = E (length (steps t)) (current t)"
  have t1: "steps t1 = steps t @ [(a, a)]"
    "hit = Inr (if cacheOn a then Option.bind (live (queryCache a) now ?id) unSessions else None)"
    using l by (auto simp: traced_apply cacheLookup_def a_def)
  have un: "c = CachedSessions rows" if "unSessions c = Some rows" for c rows
    using that by (cases c) simp_all
  have found: "foundSession ses t1" if "hit = Inr (Some rows)" "ses \<in> set rows" for rows ses
  proof -
    from that(1) t1(2) obtain c where c: "cacheOn a" "live (queryCache a) now ?id = Some c" "unSessions c = Some rows"
      by (auto split: if_splits simp: bind_eq_Some_conv)
    then obtain d where "queryCache a ?id = Some (CachedSessions rows, d)"
      using un by (auto simp: live_def liveEntry_def split: option.splits if_splits)
    with c(1) that(2) have "cachedSession a ses" unfolding cachedSession_def by blast
    then show ?thesis by (simp add: foundSession_def t1(1))
  qed
  show ?thesis
  proof (cases "hit = Inr None")
    case False
    then obtain rows where "hit = Inr (Some rows)" using t1(2) by (metis not_None_eq)
    with assms(2) l k1 found show ?thesis by (auto simp: tracedQuery_def bindR_def)
  next
    case True
    define b c where "b = E (length (steps t1)) (current t1)" and "c = E (Suc (length (steps t1))) b"
    let ?rows = "sessionRows uid b"
    have r: "res = Inr ?rows" "steps t' = steps t1 @ [(b, b), (c, snd (cacheStore now ?id millis (CachedSessions ?rows) c))]"
      using assms(2) l True by (auto simp: tracedQuery_def bindR_def traced_apply b_def c_def cacheStore_def)
    have st: "storedSession b ses" if "ses \<in> set ?rows" for ses
      using that by (auto simp: sessionRows_def storedSession_def)
    have "cachedSession c ses \<or> ses \<in> set ?rows"
      if "cachedSession (snd (cacheStore now ?id millis (CachedSessions ?rows) c)) ses" for ses
      using that by (auto simp: cachedSession_def cacheStore_def split: if_splits)
    moreover have "onlyOwn None c (snd (cacheStore now ?id millis (CachedSessions ?rows) c))"
      "schemaOk c \<Longrightarrow> schemaOk (snd (cacheStore now ?id millis (CachedSessions ?rows) c))"
      by (auto simp: cacheStore_def contentOf_def intro: onlyOwn_content)
    ultimately have e: "entryOk tok (steps t1 @ [(b, b)]) (c, snd (cacheStore now ?id millis (CachedSessions ?rows) c))"
      using st by (auto simp: entryOk_def intro!: exI [of _ None])
    have "entryOk tok (steps t1) (b, b)" by (auto simp: entryOk_def intro!: exI [of _ None])
    with k1 e have "recordOk tok (steps t')"
      using recordOk_snoc [of tok "steps t1 @ [(b, b)]"] by (simp add: r(2) entitledTo_def)
    moreover have "entitled tok owner (steps t')"
      using k1 entitled_snoc [OF entitled_snoc, of tok owner "steps t1"] by (simp add: r(2) entitledTo_def)
    ultimately show ?thesis using st by (auto simp: r entitledTo_def foundSession_def)
  qed
qed

lemma session_found:
  assumes "entitledTo tok owner t" and "getUserSessionEntityByUid (traceDb E) now uid t = (res, t')"
  shows "entitledTo tok owner t' \<and> (\<forall>ses. res = Inr ses \<longrightarrow> foundSession ses t')"
proof -
  obtain x t1 where q: "tracedQuery E now (getUserSessionEntityCacheId uid) (getTicTimeHMS 6 0 0)
      CachedSessions unSessions (sessionRows uid) t = (x, t1)" by fastforce
  note s = session_query [OF assms(1) q]
  let ?q = "firstRow (tracedQuery E now (getUserSessionEntityCacheId uid) (getTicTimeHMS 6 0 0)
      CachedSessions unSessions (sessionRows uid))"
  let ?fail = "\<lambda>error. bindR (traced E (sqlRemoveCached [getUserSessionEntityCacheId uid])) (\<lambda>_.
      if error = EntityNotFoundError then throwR (UserNotFoundException uid) else throwR error) :: (trace, exn, UserSessionEntity) run"
  have r: "catchR ?q ?fail t = (res, t')"
    using assms(2) by (simp add: getUserSessionEntityByUid_def)
  obtain y where f: "?q t = (y, t1)" "\<And>ses. y = Inr ses \<Longrightarrow> \<exists>rows. x = Inr rows \<and> ses \<in> set rows"
  proof (cases x)
    case (Inl e)
    then show ?thesis using that [of "Inl e"] by (simp add: firstRow_def bindR_def q)
  next
    case (Inr rows)
    then show ?thesis
      using that [of "Inl EntityNotFoundError"] that [of "Inr (hd rows)"]
      by (cases rows) (simp_all add: firstRow_def bindR_def q)
  qed
  show ?thesis
  proof (cases y)
    case (Inr ses)
    with r f s show ?thesis by (auto simp: catchR_Inr)
  next
    case (Inl e)
    then have "?fail e t1 = (res, t')" using r f(1) by (simp add: catchR_Inl)
    moreover have "keeps (entitledTo tok owner) (?fail e)" by (intro keeps_intros mild_intros)
    moreover have "fst (?fail e t1) \<noteq> Inr ses" for ses
      by (auto simp: bindR_def traced_apply sqlRemoveCached_def)
    ultimately show ?thesis using s keepsD by (metis fst_conv)
  qed
qed

lemma kept_session [keeps_intros]: "keeps (entitledTo tok owner) (getUserSessionEntityByUid (traceDb E) now uid)"
  unfolding keeps_def by (metis session_found prod.collapse)

lemma kept_verify [keeps_intros]:
  "keeps (entitledTo tok owner) (verifyAccessToken (traceDb E) L cfg now token)"
  "keeps (entitledTo tok owner) (verifyRefreshToken (traceDb E) L cfg now token)"
  unfolding verifyAccessToken_def verifyRefreshToken_def by (intro keeps_intros)+

lemma verified_found:
  assumes "entitledTo tok owner t" and "verifyRefreshToken (traceDb E) L cfg now token t = (Inr (Inr ses), t')"
  shows "token = Some (seRefreshToken ses) \<and> foundSession ses t'"
proof -
  let ?m = "bindR (liftR (tokenUid L cfg now token)) (\<lambda>uid.
     bindR (getUserSessionEntityByUid (traceDb E) now uid) (\<lambda>ses.
       if token \<noteq> Some (seRefreshToken ses)
       then returnR (Inl (AuthInvalidRefreshTokenException (Some ''Refresh Token does not match!'')))
       else returnR (Inr ses)))"
  have "catchR ?m (\<lambda>e. returnR (Inl e)) t = (Inr (Inr ses), t')"
    using assms(2) by (simp add: verifyRefreshToken_def)
  then have m: "?m t = (Inr (Inr ses), t')" by (auto simp: catchR_def split: prod.splits sum.splits)
  then obtain uid s1 where l: "liftR (tokenUid L cfg now token) t = (Inr uid :: exn + string, s1)" and k:
    "bindR (getUserSessionEntityByUid (traceDb E) now uid) (\<lambda>ses.
       if token \<noteq> Some (seRefreshToken ses)
       then returnR (Inl (AuthInvalidRefreshTokenException (Some ''Refresh Token does not match!'')))
       else returnR (Inr ses)) s1 = (Inr (Inr ses), t')"
    by (rule bindR_InrE)
  from l have "s1 = t" by simp
  from k obtain x t1 where "getUserSessionEntityByUid (traceDb E) now uid s1 = (Inr x, t1)"
    "(if token \<noteq> Some (seRefreshToken x)
      then returnR (Inl (AuthInvalidRefreshTokenException (Some ''Refresh Token does not match!'')))
      else returnR (Inr x)) t1 = (Inr (Inr ses) :: exn + exn + UserSessionEntity, t')"
    by (rule bindR_InrE)
  with session_found [OF assms(1)] \<open>s1 = t\<close> show ?thesis by (auto split: if_splits)
qed

text \<open>A request that the guard lets pass is entitled to act as the user that the guard wrote into it.\<close>

lemma guard_entitles:
  assumes "entitledTo (httpCookies req ''refreshToken'') None t"
    and "canActivate (traceDb E) L cfg now pub roles req t = (res, t')"
  shows "entitledTo (httpCookies req ''refreshToken'') None t' \<and>
    (\<forall>http. res = Inr (True, http) \<longrightarrow> entitledTo (httpCookies req ''refreshToken'') (ownerOf http) t')"
proof -
  let ?tok = "httpCookies req ''refreshToken''"
  have k: "keeps (entitledTo ?tok None) (canActivate (traceDb E) L cfg now pub roles req)"
    unfolding canActivate_def Let_def by (intro keeps_intros)
  have anon: "ownerOf (setReqHeader ''authenticatedUser'' Undefined req) = None"
    by (simp add: ownerOf_def AuthenticatedUserValidation_def)
  have "entitledTo ?tok (ownerOf http) t'" if pass: "res = Inr (True, http)" for http
  proof (cases "pub = Some True")
    case True
    with pass assms anon show ?thesis by (auto simp: canActivate_def)
  next
    case False
    let ?anon = "setReqHeader ''authenticatedUser'' Undefined req"
    from pass assms(2) False obtain v t1 where v: "verifyAccessToken (traceDb E) L cfg now
        (bearerPiece (authorizationOf req)) t = (v, t1)" by fastforce
    have t1: "entitledTo ?tok None t1" using keepsD [OF kept_verify(1) assms(1) v] .
    obtain w t2 where w: "verifyRefreshToken (traceDb E) L cfg now ?tok t1 = (w, t2)" by fastforce
    have t2: "entitledTo ?tok None t2" using keepsD [OF kept_verify(2) t1 w] .
    from pass assms(2) False v w obtain ses where ses: "w = Inr (Inr ses)"
      "http = setReqHeader ''authenticatedUser'' (Single (seUid ses)) ?anon" "t' = t2"
      by (auto simp: canActivate_def Let_def bindR_def split: if_splits sum.splits option.splits)
    from verified_found [OF t1 w [unfolded ses(1)]] have "?tok = Some (seRefreshToken ses)" "foundSession ses t2"
      by simp_all
    moreover have "ownerOf http = None \<or> ownerOf http = Some (seUid ses)"
      by (auto simp: ses(2) ownerOf_def AuthenticatedUserValidation_def)
    ultimately show ?thesis using t2 by (auto simp: ses(3) entitledTo_def entitled_def foundSession_def)
  qed
  with keepsD [OF k assms] show ?thesis by blast
qed

subsection \<open>Handlers\<close>

lemma kept_lift: "(\<And>a. r = Inr a \<Longrightarrow> keeps P (k a)) \<Longrightarrow> keeps P (bindR (liftR r) k)"
  by (cases r) (simp_all add: keeps_def bindR_def)

lemma kept_profile [keeps_intros]: "keeps (entitledTo tok owner) (svcGetUserInfoByUid (traceDb E) now uid)"
  unfolding userInfo_defs traceDb_sel by (intro keeps_intros mild_intros) simp

lemma kept_likes [keeps_intros]:
  "keeps (entitledTo tok owner) (getPostLikeMapByPostIds (traceDb E) (svcGetUserInfoByUid (traceDb E)) now ids)"
  unfolding like_defs traceDb_sel by (intro keeps_intros mild_intros)

lemma kept_reads [keeps_intros]:
  "keeps (entitledTo tok owner) (getPostPageListByPage (traceDb E) (svcGetUserInfoByUid (traceDb E)) now page)"
  "keeps (entitledTo tok owner) (getPostPageListByPostUid (traceDb E) (svcGetUserInfoByUid (traceDb E)) now v page)"
  "keeps (entitledTo tok owner) (getPostByPostId (traceDb E) (svcGetUserInfoByUid (traceDb E)) now i)"
proof -
  have "keeps (entitledTo tok owner) (listRows (traceDb E) now w page)" for w page
    by (cases w) (simp_all only: listRows.simps findPostEntityListAndCountByPage_def
        findPostEntityListAndCountByPostPageDto_def traceDb_sel, (rule keeps_intros | simp)+)
  then have "keeps (entitledTo tok owner) (listPosts (traceDb E) now w page)" for w
    unfolding listPosts_unfold toPostDaoList_def Let_def by (intro keeps_intros)
  from this [of None] this [of "Some v"]
  show "keeps (entitledTo tok owner) (getPostPageListByPage (traceDb E) (svcGetUserInfoByUid (traceDb E)) now page)"
    "keeps (entitledTo tok owner) (getPostPageListByPostUid (traceDb E) (svcGetUserInfoByUid (traceDb E)) now v page)"
    by simp_all
  show "keeps (entitledTo tok owner) (getPostByPostId (traceDb E) (svcGetUserInfoByUid (traceDb E)) now i)"
    unfolding getPostByPostId_def findPostEntityByPostId_def Let_def traceDb_sel by (intro keeps_intros mild_intros)
qed

lemmas account_defs = saveUserAuthEntity_def getUserAuthEntity_def userAuthIsExist_def
  updateUserAuthByUserSessionEntity_def jwtCreate_def reissueJwtByUserSessionEntity_def createNewUser_def login_def
  googleOauthLogin_def refresh_def

lemma kept_accounts [keeps_intros]:
  "keeps (entitledTo tok owner) (createNewUser (traceDb E) L cfg now draw dto)"
  "keeps (entitledTo tok owner) (login (traceDb E) L cfg now draw dto)"
  "keeps (entitledTo tok owner) (googleOauthLogin (traceDb E) L cfg now draw odto)"
  "keeps (entitledTo tok owner) (refresh (traceDb E) L cfg now draw token)"
  unfolding account_defs Let_def traceDb_sel by (intro keeps_intros mild_intros)+

lemma kept_handler:
  "keeps (entitledTo tok (ownerOf (httpPart req))) (handlerOf (withDb (traceDb E) X) r now req)"
proof -
  have o: "ownerOf (httpPart req) = Some u" if "AuthenticatedUserValidation (httpPart req) = Inr u" for u
    using that by (simp add: ownerOf_def)
  have u: "uiUid (toUserInfoEntity (userInfoDaoFrom (spreadUserInfoDto dto))) = dtoUid dto" for dto by simp
  have l: "plUid (toPostLikeEntity dto) = ldUid dto" "plPostId (toPostLikeEntity dto) = ldPostId dto" for dto
    by (simp_all add: toPostLikeEntity_def daoToPostLikeEntity_def postLikeDaoFrom_def)
  show ?thesis
    by (cases r) (simp_all only: handlerOf.simps ctl_defs withDb_sel Let_def andSuccess_def write_defs traceDb_sel u l,
      (rule kept_lift keeps_intros mild_intros | (subst o, assumption) | simp add: o l)+)
qed

section \<open>Every interleaving\<close>

definition jobToken :: "job \<Rightarrow> string option" where
  "jobToken j = httpCookies (httpPart (jobRequest j)) ''refreshToken''"

lemma record_request: "keeps (\<lambda>t. recordOk (jobToken j) (steps t)) (requestJob X j E)"
  unfolding keeps_def
proof (intro allI impI)
  let ?c = "metaOf (jobRoute j)" and ?tok = "jobToken j"
  let ?g = "canActivate (traceDb E) (appLibs X) (appConfig X) (jobNow j) (ctlPublic ?c) (ctlRoles ?c) (httpPart (jobRequest j))"
  fix t :: trace assume "recordOk ?tok (steps t)"
  then have t: "entitledTo ?tok None t" by (simp add: entitledTo_def)
  obtain res t1 where g: "?g t = (res, t1)" by fastforce
  note e = guard_entitles [OF t [unfolded jobToken_def] g, folded jobToken_def]
  show "recordOk ?tok (steps (snd (requestJob X j E t)))"
  proof (cases "\<exists>http. res = Inr (True, http) \<and> admitted j")
    case True
    then obtain http where r: "res = Inr (True, http)" "admitted j" by blast
    then have "requestJob X j E t =
        handlerOf (withDb (traceDb E) X) (jobRoute j) (jobNow j) ((jobRequest j)\<lparr>httpPart := http\<rparr>) t1"
      using g by (simp add: requestJob_def requestOn_def Let_def bindR_def)
    moreover have "entitledTo ?tok (ownerOf (httpPart ((jobRequest j)\<lparr>httpPart := http\<rparr>))) t1"
      using e r(1) by simp
    ultimately show ?thesis using kept_handler unfolding keeps_def entitledTo_def by metis
  next
    case False
    then have "snd (requestJob X j E t) = t1"
      using g by (cases res) (auto simp: requestJob_def requestOn_def Let_def bindR_def)
    then show ?thesis using e by (simp add: entitledTo_def)
  qed
qed

text \<open>The databases of a pool so far; what its record says of them.\<close>

definition states :: "pool \<Rightarrow> dbState set" where
  "states c = insert (shared c) (set (past c))"

lemma step_states: "poolStep ps i c c' \<Longrightarrow> i < length ps \<and> states c' = insert (shared c') (states c)"
  by (auto simp: states_def elim!: poolStepE)

definition sound :: "jsval thread list \<Rightarrow> pool \<Rightarrow> bool" where
  "sound ps c \<longleftrightarrow>
     (\<forall>d \<in> states c. schemaOk d) \<and>
     (\<forall>d \<in> states c. \<forall>ses. cachedSession d ses \<longrightarrow> (\<exists>d' \<in> states c. storedSession d' ses)) \<and>
     (\<forall>i < length ps. fst ` set (did (ps ! i) c i) \<subseteq> states c)"

lemma soundD:
  assumes "sound ps c"
  shows "d \<in> states c \<Longrightarrow> schemaOk d"
    and "d \<in> states c \<Longrightarrow> cachedSession d ses \<Longrightarrow> \<exists>d' \<in> states c. storedSession d' ses"
    and "i < length ps \<Longrightarrow> fst ` set (did (ps ! i) c i) \<subseteq> states c"
  using assms by (simp_all add: sound_def)

lemma cached_stored: "sessionFresh db \<Longrightarrow> cachedSession db ses \<Longrightarrow> storedSession db ses"
proof -
  assume f: "sessionFresh db" and "cachedSession db ses"
  then obtain u rows d where c: "cacheOn db"
    "queryCache db (getUserSessionEntityCacheId u) = Some (CachedSessions rows, d)" "ses \<in> set rows"
    unfolding cachedSession_def by blast
  with f obtain r where r: "rows = [sessionOf r]" "filter (\<lambda>r. uaUid r = u) (userAuths db) = [r]"
    unfolding sessionFresh_def by fastforce
  have "r \<in> set (userAuths db)" using r(2) by (metis filter_eq_ConsD in_set_conv_decomp)
  with r(1) c(3) show "storedSession db ses" by (simp add: storedSession_def)
qed

lemma did_recordOk: "recordOk (jobToken j) (did (requestJob X j) c i)"
  by (rule did_has [of "recordOk (jobToken j)"], rule record_request, simp, rule recordOk_take)

lemma step_entry:
  assumes "poolReach (map (requestJob X) js) db c" and "poolStep (map (requestJob X) js) i c c'"
  shows "entryOk (jobToken (js ! i)) (did (requestJob X (js ! i)) c i) (shared c, shared c')"
proof -
  have i: "i < length js" using step_states [OF assms(2)] by simp
  then have "did (requestJob X (js ! i)) c' i = did (requestJob X (js ! i)) c i @ [(shared c, shared c')]"
    using step_did [OF assms(1) threads_requests assms(2), of i] by simp
  with did_recordOk [of "js ! i" X c' i] show ?thesis by simp
qed

lemma reach_sound:
  assumes "poolReach (map (requestJob X) js) db c" and "databaseOk db"
  shows "sound (map (requestJob X) js) c"
  using assms(1)
proof (induction rule: poolReach.induct)
  case start
  have "authGood db" using assms(2) by (simp add: databaseOk_def)
  then show ?case
    by (auto simp: sound_def states_def poolOf_def did_def authGood_def cached_stored)
next
  case (more c i c')
  let ?ps = "map (requestJob X) js"
  note st = step_states [OF more(2)] and e = step_entry [OF more(1,2)]
  note ih = soundD [OF more.IH]
  have c: "shared c \<in> states c" by (simp add: states_def)
  from e ih(1) [OF c] have sc: "schemaOk (shared c')" by (simp add: entryOk_def)
  have cs: "\<exists>d' \<in> states c. storedSession d' ses" if "cachedSession (shared c') ses" for ses
  proof -
    have "fst ` set (did (requestJob X (js ! i)) c i) \<subseteq> states c" using ih(3) [of i] st by simp
    then have "fst ` set (did (requestJob X (js ! i)) c i @ [(shared c, shared c')]) \<subseteq> states c"
      using c by simp
    with e that ih(2) [OF c] show ?thesis unfolding entryOk_def fst_conv snd_conv by blast
  qed
  have fs: "fst ` set (did (?ps ! j) c' j) \<subseteq> states c" if "j < length ?ps" for j
    using ih(3) [OF that] c step_did [OF more(1) threads_requests more(2) that]
    by (cases "j = i") (simp_all del: nth_map)
  have s': "states c' = insert (shared c') (states c)" using st by simp
  show ?case
    unfolding sound_def
  proof (intro conjI ballI allI impI)
    fix d assume "d \<in> states c'"
    then show "schemaOk d" using s' sc ih(1) by auto
  next
    fix d ses assume "d \<in> states c'" "cachedSession d ses"
    then have "\<exists>d' \<in> states c. storedSession d' ses" using s' cs ih(2) by auto
    then show "\<exists>d' \<in> states c'. storedSession d' ses" using s' by auto
  next
    fix j assume "j < length ?ps"
    then have "fst ` set (did (?ps ! j) c' j) \<subseteq> states c" by (rule fs)
    then show "fst ` set (did (?ps ! j) c' j) \<subseteq> states c'" unfolding s' by (rule subset_insertI2)
  qed
qed

lemma stored_of_uid:
  assumes "schemaOk db" and "storedSession db ses"
  shows "sessionOfUid db (seUid ses) = Some ses"
proof -
  obtain r where r: "r \<in> set (userAuths db)" "ses = sessionOf r" using assms(2) by (auto simp: storedSession_def)
  then have "List.find (\<lambda>x. uaUid x = uaUid r) (userAuths db) = Some r"
    using assms(1) by (simp add: find_unique schemaOk_def)
  with r show ?thesis by (simp add: sessionOfUid_def sessionOf_def)
qed

lemma interleaved_step:
  assumes "databaseOk db" and "poolReach (map (requestJob X) js) db c" and "poolStep (map (requestJob X) js) i c c'"
  shows "i < length js \<and> schemaOk (shared c') \<and>
    (\<exists>owner. onlyOwn owner (shared c) (shared c') \<and>
       (\<forall>u. owner = Some u \<longrightarrow>
          (\<exists>d \<in> states c. \<exists>ses. sessionOfUid d u = Some ses \<and> jobToken (js ! i) = Some (seRefreshToken ses))))"
proof -
  let ?ps = "map (requestJob X) js"
  have s: "sound ?ps c" by (rule reach_sound [OF assms(2,1)])
  have i: "i < length js" using step_states [OF assms(3)] by simp
  have c: "schemaOk (shared c)" by (rule soundD(1) [OF s]) (simp add: states_def)
  from step_entry [OF assms(2,3)] c obtain owner where o: "schemaOk (shared c')" "onlyOwn owner (shared c) (shared c')"
    "entitled (jobToken (js ! i)) owner (did (requestJob X (js ! i)) c i)"
    by (auto simp: entryOk_def)
  have "\<exists>d \<in> states c. \<exists>ses. sessionOfUid d u = Some ses \<and> jobToken (js ! i) = Some (seRefreshToken ses)"
    if "owner = Some u" for u
  proof -
    from o(3) that obtain ses d where ses: "seUid ses = u" "jobToken (js ! i) = Some (seRefreshToken ses)"
      "d \<in> fst ` set (did (requestJob X (js ! i)) c i)" "cachedSession d ses \<or> storedSession d ses"
      unfolding entitled_def by blast
    have "d \<in> states c" using soundD(3) [OF s, of i] i ses(3) by auto
    with ses(4) obtain d' where d': "d' \<in> states c" "storedSession d' ses" using soundD(2) [OF s] by blast
    have "sessionOfUid d' u = Some ses" using stored_of_uid [OF soundD(1) [OF s d'(1)] d'(2)] ses(1) by simp
    with d'(1) ses(2) show ?thesis by blast
  qed
  with o i show ?thesis by blast
qed

end
