(* ===== verification/Serial.thy ===== *)
theory Serial
  imports Interleave
begin

text \<open>
  Serial schedules. A request of the server whose statements are not interrupted leaves the
  database that \<open>serve\<close> leaves, so running requests one after the other is one of the
  interleavings; the sequential results are results about these schedules.
\<close>

section \<open>A request on its own\<close>

lemma sim_handler:
  assumes "orm D abst"
  shows "sim abst (handlerOf (withDb D X) r now req) (handlerOf (withDb sqlDb X) r now req)"
proof -
  note o = orm.ops [OF assms] orm.sim_userAuth [OF assms] orm.sim_posts [OF assms]
    orm.sim_svcGetUserInfoByUid [OF assms]
  show ?thesis
    by (cases r) (simp_all only: handlerOf.simps ctl_defs withDb_sel Let_def andSuccess_def write_defs sqlDb_sel,
      (intro sim_intros o)+)
qed

lemma sim_request:
  assumes "orm D abst"
  shows "sim abst (requestOn D X j) (requestOn sqlDb X j)"
  unfolding requestOn_def Let_def
  by (intro sim_intros orm.sim_canActivate [OF assms] sim_handler [OF assms])

text \<open>So a request that is not interrupted does what it does on the reference database.\<close>

lemma alone_request:
  "fst (alone (requestJob X j) db) = fst (requestOn sqlDb X j db)"
  "current (snd (alone (requestJob X j) db)) = snd (requestOn sqlDb X j db)"
proof -
  have "requestOn sqlDb X j (current (beginAt db)) = map_prod id current (requestJob X j (\<lambda>_ db. db) (beginAt db))"
    using sim_request [OF alone.orm_axioms, of X j] by (simp add: sim_def requestJob_def)
  then show "fst (alone (requestJob X j) db) = fst (requestOn sqlDb X j db)"
    "current (snd (alone (requestJob X j) db)) = snd (requestOn sqlDb X j db)"
    by (simp_all add: alone_def beginAt_def)
qed

text \<open>The statements of a served request, where \<open>admitted\<close> says whether the handler ran.\<close>

definition servedJob :: "route \<times> instant \<times> webRequest \<Rightarrow> bool \<Rightarrow> job" where
  "servedJob q ok = (case q of (r, now, req) \<Rightarrow> \<lparr>jobRoute = r, jobNow = ms now, jobRequest = req, admitted = ok\<rparr>)"

lemma serve_request:
  assumes "serve X r now req s = (rep, s')"
  shows "\<exists>ok. srvDb s' = snd (requestOn (appDb X) X (servedJob (r, now, req) ok) (srvDb s))"
proof -
  let ?g = "canActivate (appDb X) (appLibs X) (appConfig X) (ms now) (ctlPublic (metaOf r)) (ctlRoles (metaOf r))
      (httpPart req) (srvDb s)"
  obtain x d where c: "?g = (x, d)" by fastforce
  have stop: "snd (requestOn (appDb X) X (servedJob (r, now, req) False) (srvDb s)) = d"
    using c by (cases x) (auto simp: requestOn_def servedJob_def Let_def bindR_def)
  obtain res s1 where g: "guards X r (ms now) (httpPart req) s = (res, s1)" by fastforce
  then have s1: "srvDb s1 = d" "\<And>http. res = Inr http \<Longrightarrow> x = Inr (True, http)"
    unfolding guards_def c by (auto split: sum.splits prod.splits if_splits)
  show ?thesis
  proof (cases res)
    case (Inl e)
    with assms g s1(1) have "srvDb s' = d" by (simp add: serve_def)
    with stop show ?thesis by metis
  next
    case (Inr http)
    let ?h = "controllerCall X r (ms now) (req\<lparr>httpPart := http\<rparr>)"
    let ?e = "\<lparr>store = srvRecords s1, world = (srvDb s1, []), respHeaders = []\<rparr>"
    let ?out = "intercept (appIdem X) (skipIdempotency r) (idemRequest http) now now now (int (successStatus r)) ?h ?e"
    have db: "srvDb s' = fst (world (snd ?out))"
      using assms g Inr by (auto simp: serve_def split: prod.splits)
    have "world (snd ?out) = snd (?h (world ?e)) \<or> world (snd ?out) = world ?e"
      using intercept_once [of "appIdem X" "skipIdempotency r" "idemRequest http" now now now
        "int (successStatus r)" ?h ?e] by (metis snd_conv)
    then show ?thesis
    proof
      assume "world (snd ?out) = snd (?h (world ?e))"
      then have "srvDb s' = snd (handlerOf X r (ms now) (req\<lparr>httpPart := http\<rparr>) d)"
        using controllerCall_db [of X r "ms now" "req\<lparr>httpPart := http\<rparr>" "srvDb s1" "[]"] by (simp add: db s1(1))
      moreover have "requestOn (appDb X) X (servedJob (r, now, req) True) (srvDb s) =
          handlerOf X r (ms now) (req\<lparr>httpPart := http\<rparr>) d"
        using c s1(2) [OF Inr] by (simp add: requestOn_def servedJob_def Let_def bindR_def)
      ultimately show ?thesis by metis
    next
      assume "world (snd ?out) = world ?e"
      then have "srvDb s' = d" using s1(1) by (simp add: db)
      with stop show ?thesis by metis
    qed
  qed
qed

section \<open>Requests one after the other\<close>

text \<open>The threads from \<open>k\<close> on run in turn, each to its end; the ones before \<open>k\<close> have ended.\<close>

fun inTurn :: "('r, 'c, 'd) application \<Rightarrow> job list \<Rightarrow> dbState \<Rightarrow> dbState" where
  "inTurn X [] db = db"
| "inTurn X (j # js) db = inTurn X js (snd (requestOn sqlDb X j db))"

lemma serveAll_inTurn:
  assumes "appDb X = sqlDb" and "serveAll X qs s = (reps, s')"
  shows "\<exists>oks. length oks = length qs \<and> srvDb s' = inTurn X (map2 servedJob qs oks) (srvDb s)"
  using assms(2)
proof (induction qs arbitrary: s reps)
  case (Cons q qs)
  obtain r now req where q: "q = (r, now, req)" by (metis prod.collapse)
  obtain rep s1 where v: "serve X r now req s = (rep, s1)" by fastforce
  with Cons.prems obtain reps' where "serveAll X qs s1 = (reps', s')" by (auto simp: q split: prod.splits)
  from Cons.IH [OF this] obtain oks where
    oks: "length oks = length qs" "srvDb s' = inTurn X (map2 servedJob qs oks) (srvDb s1)" by blast
  from serve_request [OF v] obtain ok where "srvDb s1 = snd (requestOn sqlDb X (servedJob q ok) (srvDb s))"
    using assms(1) by (auto simp: q)
  with oks show ?case by (intro exI [of _ "ok # oks"]) simp
qed simp

lemma finished_runPool:
  assumes "list_all thread ps" and "finished (ps ! i) c i" and "i < length ps"
  shows "finished (ps ! i) (runPool ps sched c) i \<and> seen (runPool ps sched c) i = seen c i"
  using assms(2)
proof (induction sched arbitrary: c)
  case (Cons k sched)
  let ?c = "if k < length ps \<and> \<not> finished (ps ! k) c k then advance (ps ! k) k c else c"
  have "seen ?c i = seen c i" using Cons.prems by auto
  moreover from this have "finished (ps ! i) ?c i"
    using finished_stays [of ps i c ?c] assms(1,3) Cons.prems by (simp add: list_all_length)
  ultimately show ?case using Cons.IH [of ?c] by simp
qed simp

lemma run_inTurn:
  assumes "ps = map (requestJob X) (pre @ js)" and "\<And>i. length pre \<le> i \<Longrightarrow> seen c i = []"
  shows "\<exists>sched. shared (runPool ps sched c) = inTurn X js (shared c) \<and>
    (\<forall>i. length pre \<le> i \<longrightarrow> i < length ps \<longrightarrow> finished (ps ! i) (runPool ps sched c) i)"
  using assms
proof (induction js arbitrary: pre c)
  case Nil
  then show ?case by (intro exI [of _ "[]"]) simp
next
  case (Cons j js)
  let ?k = "length pre"
  have t: "list_all thread ps" using Cons.prems(1) by (simp only: threads_requests)
  have k: "?k < length ps" "ps ! ?k = requestJob X j" using Cons.prems(1) by (simp_all add: nth_append)
  define n where "n = length (steps (snd (alone (ps ! ?k) (shared c))))"
  define c1 where "c1 = runPool ps (replicate n ?k) c"
  have "thread (ps ! ?k)" unfolding k(2) by (rule thread_request)
  from run_alone [OF this k(1) Cons.prems(2), of n]
  have c1: "shared c1 = snd (requestOn sqlDb X j (shared c))" "finished (ps ! ?k) c1 ?k"
    "\<And>i. i \<noteq> ?k \<Longrightarrow> seen c1 i = seen c i"
    by (simp_all add: c1_def n_def k(2) alone_request)
  obtain sched where s: "shared (runPool ps sched c1) = inTurn X js (shared c1)"
    "\<forall>i. Suc ?k \<le> i \<longrightarrow> i < length ps \<longrightarrow> finished (ps ! i) (runPool ps sched c1) i"
    using Cons.IH [of "pre @ [j]" c1] Cons.prems c1(3) by auto
  have "finished (ps ! i) (runPool ps sched c1) i" if "?k \<le> i" "i < length ps" for i
    using that s(2) finished_runPool [OF t c1(2) k(1)] by (cases "i = ?k") auto
  with s(1) c1(1) show ?case
    by (intro exI [of _ "replicate n ?k @ sched"]) (simp add: runPool_append flip: c1_def)
qed

lemma serial_schedule:
  assumes "appDb X = sqlDb" and "serveAll X qs s = (reps, s')"
  shows "\<exists>oks sched. length oks = length qs \<and>
    (let ps = map (requestJob X) (map2 servedJob qs oks); c = runPool ps sched (poolOf (srvDb s)) in
     shared c = srvDb s' \<and> (\<forall>i < length ps. finished (ps ! i) c i))"
proof -
  from serveAll_inTurn [OF assms] obtain oks where
    o: "length oks = length qs" "srvDb s' = inTurn X (map2 servedJob qs oks) (srvDb s)" by blast
  let ?ps = "map (requestJob X) (map2 servedJob qs oks)"
  obtain sched where "shared (runPool ?ps sched (poolOf (srvDb s))) =
      inTurn X (map2 servedJob qs oks) (shared (poolOf (srvDb s)))"
    "\<forall>i. length [] \<le> i \<longrightarrow> i < length ?ps \<longrightarrow> finished (?ps ! i) (runPool ?ps sched (poolOf (srvDb s))) i"
    using run_inTurn [of ?ps X "[]" "map2 servedJob qs oks" "poolOf (srvDb s)"] by (auto simp: poolOf_def)
  with o show ?thesis by (intro exI [of _ oks] exI [of _ sched]) (simp add: Let_def poolOf_def)
qed

end
