(* ===== verification/SessionRace.thy ===== *)
theory SessionRace
  imports Interleave
begin

text \<open>
  The write of a session removes the cached session first and changes the row afterwards
  (\<open>user-auth.repository.ts\<close>). A read of the session between the two statements enters the session
  that is about to be replaced into the cache again, where it stays for its six hours.
\<close>

definition storeSession :: "UserSessionEntity \<Rightarrow> unit thread" where
  "storeSession ses E = updateUserAuthByUserSessionEntity (traceDb E) ses"

definition readSession :: "nat \<Rightarrow> string \<Rightarrow> unit thread" where
  "readSession now uid E = bindR (getUserSessionEntityByUid (traceDb E) now uid) (\<lambda>_. returnR ())"

lemma storeSession_run:
  defines "rm \<equiv> \<lambda>ses db. snd (sqlRemoveCached [getUserSessionEntityCacheId (seUid ses)] db)"
  shows "steps (snd (storeSession ses E (beginAt d))) =
    (let a = E 0 d; b = E 1 (rm ses a) in [(a, rm ses a), (b, snd (sqlUpdateUserAuth ses b))])"
  by (simp add: storeSession_def updateUserAuthByUserSessionEntity_def bindR_def traced_apply beginAt_def rm_def
      sqlRemoveCached_def Let_def)

lemma readSession_run:
  fixes uid :: string
  defines "cid \<equiv> getUserSessionEntityCacheId uid"
  assumes "queryCache (E 0 d) cid = None" and "sessionRows uid (E 1 (E 0 d)) \<noteq> []"
  shows "steps (snd (readSession now uid E (beginAt d))) =
    (let a = E 0 d; b = E 1 a; c = E 2 b in
     [(a, a), (b, b), (c, snd (cacheStore now cid (getTicTimeHMS 6 0 0) (CachedSessions (sessionRows uid b)) c))])"
proof -
  let ?a = "E 0 d" let ?b = "E 1 ?a"
  obtain r rs where rows: "sessionRows uid ?b = r # rs" using assms(3) by (cases "sessionRows uid ?b") auto
  have "Option.bind (live (queryCache ?a) now cid) unSessions = None"
    using assms(2) by (simp add: live_def liveEntry_def)
  then show ?thesis
    using rows unfolding cid_def
    by (simp add: readSession_def getUserSessionEntityByUid_def firstRow_def tracedQuery_def bindR_def catchR_def
        traced_apply beginAt_def cacheLookup_def cacheStore_def numeral_2_eq_2 Let_def)
qed

text \<open>The schedule: the removal, the read, the change.\<close>

lemma race_run:
  fixes db now ses
  defines "cid \<equiv> getUserSessionEntityCacheId (seUid ses)"
    and "db1 \<equiv> snd (sqlRemoveCached [getUserSessionEntityCacheId (seUid ses)] db)"
  defines "db2 \<equiv> snd (cacheStore now cid (getTicTimeHMS 6 0 0) (CachedSessions (sessionRows (seUid ses) db1)) db1)"
  defines "ps \<equiv> [storeSession ses, readSession now (seUid ses)]"
  defines "c \<equiv> runPool ps [0, 1, 1, 1, 0] (poolOf db)"
  assumes on: "cacheOn db" and rows: "sessionRows (seUid ses) db \<noteq> []"
  shows "shared c = snd (sqlUpdateUserAuth ses db2) \<and> (\<forall>i < length ps. finished (ps ! i) c i)"
proof -
  have db1: "queryCache db1 cid = None" "sessionRows (seUid ses) db1 \<noteq> []"
    using on rows by (simp_all add: db1_def cid_def sqlRemoveCached_def sessionRows_def)
  let ?c1 = "\<lparr>shared = db1, past = [db], seen = (\<lambda>_. [])(0 := [db])\<rparr>"
  let ?c2 = "\<lparr>shared = db1, past = [db, db1], seen = (\<lambda>_. [])(0 := [db], 1 := [db1])\<rparr>"
  let ?c3 = "\<lparr>shared = db1, past = [db, db1, db1], seen = (\<lambda>_. [])(0 := [db], 1 := [db1, db1])\<rparr>"
  let ?c4 = "\<lparr>shared = db2, past = [db, db1, db1, db1], seen = (\<lambda>_. [])(0 := [db], 1 := [db1, db1, db1])\<rparr>"
  let ?db3 = "snd (sqlUpdateUserAuth ses db2)"
  let ?c5 = "\<lparr>shared = ?db3, past = [db, db1, db1, db1, db2], seen = (\<lambda>_. [])(0 := [db, db2], 1 := [db1, db1, db1])\<rparr>"
  have "runPool ps [0, 1, 1, 1, 0] (poolOf db) = runPool ps [1, 1, 1, 0] ?c1"
    by (subst pool_advance)
      (simp_all add: ps_def resume_def storeSession_run Let_def poolOf_def finds_def db1_def)
  also have "\<dots> = runPool ps [1, 1, 0] ?c2"
    by (subst pool_advance)
      (use db1 in \<open>simp_all add: ps_def resume_def readSession_run Let_def finds_def cid_def\<close>)
  also have "\<dots> = runPool ps [1, 0] ?c3"
    by (subst pool_advance)
      (use db1 in \<open>simp_all add: ps_def resume_def readSession_run Let_def finds_def cid_def\<close>)
  also have "\<dots> = runPool ps [0] ?c4"
    by (subst pool_advance)
      (use db1 in \<open>simp_all add: ps_def resume_def readSession_run Let_def finds_def cid_def db2_def\<close>)
  also have "\<dots> = runPool ps [] ?c5"
    by (subst pool_advance)
      (simp_all add: ps_def resume_def storeSession_run Let_def finds_def fun_upd_twist)
  finally have c: "c = ?c5" by (simp add: c_def)
  have "finished (storeSession ses) ?c5 0"
    by (simp add: finished_def resume_def storeSession_run Let_def)
  moreover have "finished (readSession now (seUid ses)) ?c5 1"
    using db1 by (simp add: finished_def resume_def readSession_run Let_def finds_def cid_def)
  ultimately show ?thesis unfolding c by (simp add: ps_def less_Suc_eq)
qed

section \<open>The session that is replaced\<close>

lemma race_database:
  fixes db now ses
  defines "cid \<equiv> getUserSessionEntityCacheId (seUid ses)"
  defines "c \<equiv> runPool [storeSession ses, readSession now (seUid ses)] [0, 1, 1, 1, 0] (poolOf db)"
  assumes ok: "authGood db" and on: "cacheOn db" and old: "sessionOfUid db (seUid ses) = Some old"
    and fits: "length (seRefreshToken ses) \<le> 500"
  shows "sessionOfUid (shared c) (seUid ses) = Some ses" and "cacheOn (shared c)"
    and "queryCache (shared c) cid = Some (CachedSessions [old], Some (now + getTicTimeHMS 6 0 0))"
    and "i < 2 \<Longrightarrow> finished ([storeSession ses, readSession now (seUid ses)] ! i) c i"
proof -
  let ?u = "seUid ses"
  let ?g = "\<lambda>r. if uaUid r = ?u then setSession ses r else r"
  define db1 where "db1 = snd (sqlRemoveCached [cid] db)"
  define db2 where "db2 = snd (cacheStore now cid (getTicTimeHMS 6 0 0) (CachedSessions (sessionRows ?u db1)) db1)"
  have d: "distinct (map uaUid (userAuths db))" using ok by (simp add: authGood_def schemaOk_def)
  obtain r where r: "r \<in> set (userAuths db)" "uaUid r = ?u" "old = sessionOf r" "List.find (\<lambda>r. uaUid r = ?u) (userAuths db) = Some r"
    using old find_unique [OF d] by (auto simp: sessionOfUid_def)
  then have "filter (\<lambda>r. uaUid r = ?u) (userAuths db) = [r]" using filter_unique [OF d r(1)] by simp
  then have rows: "sessionRows ?u db = [old]" using r(3) by (simp add: sessionRows_def)
  have db1: "userAuths db1 = userAuths db" "cacheOn db1" "sessionRows ?u db1 = [old]"
    using on rows by (simp_all add: db1_def sqlRemoveCached_def sessionRows_def)
  then have db2: "userAuths db2 = userAuths db" "cacheOn db2"
    "queryCache db2 cid = Some (CachedSessions [old], Some (now + getTicTimeHMS 6 0 0))"
    by (simp_all add: db2_def cacheStore_def)
  have "list_all fitsUserAuth (userAuths db)" using ok by (simp add: authGood_def)
  then have "list_all (\<lambda>r. uaUid r = ?u \<longrightarrow> fitsUserAuth (setSession ses r)) (userAuths db2)"
    using fits by (auto simp: db2(1) list_all_iff fitsUserAuth_def setSession_def)
  then have upd: "snd (sqlUpdateUserAuth ses db2) = db2\<lparr>userAuths := map ?g (userAuths db)\<rparr>"
    by (simp add: sqlUpdateUserAuth_def Let_def db2(1))
  have run: "shared c = snd (sqlUpdateUserAuth ses db2)"
    "\<forall>i < length [storeSession ses, readSession now ?u]. finished ([storeSession ses, readSession now ?u] ! i) c i"
    using race_run [OF on, of ses now] rows by (simp_all add: c_def db2_def db1_def cid_def)
  show "i < 2 \<Longrightarrow> finished ([storeSession ses, readSession now ?u] ! i) c i" using run(2) by simp
  show "cacheOn (shared c)" "queryCache (shared c) cid = Some (CachedSessions [old], Some (now + getTicTimeHMS 6 0 0))"
    unfolding run(1) upd using db2 by simp_all
  have "List.find (\<lambda>r. uaUid r = ?u) (map ?g xs) = map_option ?g (List.find (\<lambda>r. uaUid r = ?u) xs)" for xs
    by (induction xs) auto
  then show "sessionOfUid (shared c) ?u = Some ses"
    using r by (simp add: run(1) upd sessionOfUid_def setSession_def sessionOf_def)
qed

text \<open>A cached session answers.\<close>

lemma cached_answer:
  assumes "cacheOn db" and "queryCache db (getUserSessionEntityCacheId uid) = Some (CachedSessions [ses], Some e)"
    and "t < e"
  shows "getUserSessionEntityByUid sqlDb t uid db = (Inr ses, db)"
  using assms
  by (simp add: getUserSessionEntityByUid_def sqlFindSession_def orFail_def cachedQuery_def live_def liveEntry_def
      bindR_def catchR_def)

lemma race_answers:
  fixes db now ses
  defines "c \<equiv> runPool [storeSession ses, readSession now (seUid ses)] [0, 1, 1, 1, 0] (poolOf db)"
  assumes ok: "authGood db" and on: "cacheOn db" and old: "sessionOfUid db (seUid ses) = Some old"
    and fits: "length (seRefreshToken ses) \<le> 500" and t: "t < now + getTicTimeHMS 6 0 0"
    and T: "tokenUid L cfg t T = Inr (seUid ses)"
  shows "verifyRefreshToken sqlDb L cfg t T (shared c) =
    (Inr (if T = Some (seRefreshToken old) then Inr old
          else Inl (AuthInvalidRefreshTokenException (Some ''Refresh Token does not match!''))), shared c)"
proof -
  have "getUserSessionEntityByUid sqlDb t (seUid ses) (shared c) = (Inr old, shared c)"
    using race_database(2,3) [OF ok on old fits] t by (intro cached_answer) (simp_all add: c_def)
  with T show ?thesis by (simp add: verifyRefreshToken_def bindR_def catchR_def)
qed

text \<open>C11: A sign-in does not revoke the previous refresh token when a request reads the session in
  between. The write of a new session (login, registration and refresh all end with it) removes the
  cached session and then changes the row; under the schedule in which another request reads the
  session between these two statements, both run to their end and the row holds the new session,
  but for six hours after that read the guard and the refresh route accept the replaced refresh token, and
  reject the one just issued.\<close>

theorem replaced_token_survives_race:
  assumes "authGood db" and "cacheOn db" and "sessionOfUid db (seUid ses) = Some old"
    and "length (seRefreshToken ses) \<le> 500" and "seRefreshToken ses \<noteq> seRefreshToken old"
    and "t < now + getTicTimeHMS 6 0 0"
    and "tokenUid L cfg t (Some (seRefreshToken old)) = Inr (seUid ses)"
    and "tokenUid L cfg t (Some (seRefreshToken ses)) = Inr (seUid ses)"
  shows "let ps = [storeSession ses, readSession now (seUid ses)]; c = runPool ps [0, 1, 1, 1, 0] (poolOf db) in
    finished (ps ! 0) c 0 \<and> finished (ps ! 1) c 1 \<and> sessionOfUid (shared c) (seUid ses) = Some ses \<and>
    fst (verifyRefreshToken sqlDb L cfg t (Some (seRefreshToken old)) (shared c)) = Inr (Inr old) \<and>
    fst (verifyRefreshToken sqlDb L cfg t (Some (seRefreshToken ses)) (shared c)) =
      Inr (Inl (AuthInvalidRefreshTokenException (Some ''Refresh Token does not match!'')))"
  unfolding Let_def
  using race_database(1) [OF assms(1-4), of now] race_database(4) [OF assms(1-4), of 0 now]
    race_database(4) [OF assms(1-4), of 1 now]
    race_answers [OF assms(1-4,6,7)] race_answers [OF assms(1-4,6,8)] assms(5)
  by simp

text \<open>User \<open>a\<close> with a session.\<close>

definition raceToken :: "nat \<Rightarrow> string" where
  "raceToken n = showNat n @ ''.pka''"

definition raceDb :: dbState where
  "raceDb = demoDb\<lparr>userAuths := [(demoAuth ''a'')\<lparr>uaRefreshToken := raceToken 13\<rparr>]\<rparr>"

lemma raceToken_uid:
  fixes ex :: string
  assumes "t div 1000 < n" and "length ex \<le> n"
  shows "tokenUid (toyLibs 0) demoCfg t (Some (raceToken n)) = Inr ''a''"
proof -
  have "decryptPrimaryKey (aesLib (toyLibs 0)) ''pka'' ''pk'' = Inr ''a''"
    by (simp add: decryptPrimaryKey_def toyLibs_def toyAes_def consOk_def)
  then have "issued (toyLibs 0) demoCfg ((n - length ex) * 1000) ''a'' ex (raceToken n)"
    using assms(2) unfolding issued_def
    by (intro exI [of _ "''pka''"]) (simp add: toyLibs_def demoCfg_def raceToken_def)
  then show ?thesis
    by (rule issued_valid [OF toyl.token_lib_axioms]) (use assms in simp)
qed

theorem replaced_token_survives_race_witness:
  "let ses = \<lparr>seUid = ''a'', seRefreshToken = raceToken 14, seUserRole = USER\<rparr>;
       c = runPool [storeSession ses, readSession 5000 ''a''] [0, 1, 1, 1, 0] (poolOf raceDb) in
   sessionOfUid (shared c) ''a'' = Some ses \<and>
   fst (verifyRefreshToken sqlDb (toyLibs 0) demoCfg 6000 (Some (raceToken 13)) (shared c)) =
     Inr (Inr \<lparr>seUid = ''a'', seRefreshToken = raceToken 13, seUserRole = USER\<rparr>)"
proof -
  let ?ses = "\<lparr>seUid = ''a'', seRefreshToken = raceToken 14, seUserRole = USER\<rparr>"
  let ?old = "\<lparr>seUid = ''a'', seRefreshToken = raceToken 13, seUserRole = USER\<rparr>"
  have l: "length (showNat 13) = 2" "length (showNat 14) = 2" by (simp_all add: showNat.simps)
  have "showNat 13 \<noteq> showNat 14" using arg_cong [of "showNat 13" "showNat 14" readNat] by auto
  then have "authGood raceDb" "cacheOn raceDb" "sessionOfUid raceDb (seUid ?ses) = Some ?old"
    "length (seRefreshToken ?ses) \<le> 500" "seRefreshToken ?ses \<noteq> seRefreshToken ?old"
    using l by (simp_all add: authGood_def schemaOk_def sessionFresh_def raceDb_def demoDb_def demoAuth_def
        fitsUserAuth_def raceToken_def sessionOfUid_def sessionOf_def)
  moreover have "tokenUid (toyLibs 0) demoCfg 6000 (Some (raceToken 13)) = Inr ''a''"
    "tokenUid (toyLibs 0) demoCfg 6000 (Some (raceToken 14)) = Inr ''a''"
    by (rule raceToken_uid [where ex = "[]"]; simp)+
  moreover have "6000 < 5000 + getTicTimeHMS 6 0 0" by (simp add: time_defs)
  ultimately show ?thesis
    using replaced_token_survives_race [of raceDb ?ses ?old 6000 5000 "toyLibs 0" demoCfg]
    by (simp add: Let_def del: runPool.simps)
qed

end
