(* ===== verification/Requests.thy ===== *)
theory Requests
  imports Server
begin

text \<open>
  Whole requests from the client's side: one user's data as a client sees it, sign-in over HTTP,
  refusals, and the application of the concrete instances.
\<close>

section \<open>The data of one user\<close>

definition ownData :: "string \<Rightarrow> dbState \<Rightarrow> (int \<times> PostEntity) set \<times> int set \<times> UserInfoDto option" where
  "ownData u db =
     ({(i, p). blogPosts (blogOf db) i = Some p \<and> peUid p = u}, {i. (i, u) \<in> blogLikes (blogOf db)},
      profilesOf db u)"

lemma onlyOwn_ownData:
  assumes "onlyOwn owner db db'" and "Some u \<noteq> owner"
  shows "ownData u db' = ownData u db"
proof -
  have "blogPosts (blogOf db') i = Some p \<and> peUid p = u \<longleftrightarrow> blogPosts (blogOf db) i = Some p \<and> peUid p = u" for i p
    using assms unfolding onlyOwn_def by metis
  moreover have "(i, u) \<in> blogLikes (blogOf db') \<longleftrightarrow> (i, u) \<in> blogLikes (blogOf db)" for i
    using assms unfolding onlyOwn_def by blast
  moreover have "profilesOf db' u = profilesOf db u" using assms unfolding onlyOwn_def by blast
  ultimately show ?thesis unfolding ownData_def by presburger
qed

section \<open>Refusals\<close>

lemma serve_refused:
  "guards X r (ms now) (httpPart req) s = (Inl e, s1) \<Longrightarrow> serve X r now req s = (errorReply e [], s1)"
  by (simp add: serve_def)

text \<open>The guard alone: what it throws or denies goes to the filters before anything else runs.\<close>

lemma guards_denied:
  assumes "orm (appDb X) abst" and "databaseOk (abst (srvDb s))"
    and "guardSpec (appLibs X) (appConfig X) now (ctlPublic (metaOf r)) (ctlRoles (metaOf r)) req (abst (srvDb s)) = g"
    and "\<And>http. g \<noteq> Inr (True, http)"
  obtains d where "contentOf (abst d) = contentOf (abst (srvDb s))" "userAuths (abst d) = userAuths (abst (srvDb s))"
    "guards X r now req s =
       (Inl (case g of Inl e \<Rightarrow> e | Inr _ \<Rightarrow> ForbiddenException), s\<lparr>srvDb := d\<rparr>)"
proof -
  obtain x d where c: "canActivate (appDb X) (appLibs X) (appConfig X) now (ctlPublic (metaOf r)) (ctlRoles (metaOf r))
      req (srvDb s) = (x, d)" by fastforce
  have ok: "authGood (abst (srvDb s))" using assms(2) by (simp add: databaseOk_def)
  from guard_on [OF assms(1) ok c] assms(3) have x: "x = g" "userAuths (abst d) = userAuths (abst (srvDb s))" by simp_all
  have "contentOf (abst d) = contentOf (abst (srvDb s))"
    by (rule keepsD [OF fresh_canActivate(3) refl sim_apply [OF orm.sim_canActivate [OF assms(1)] c]])
  moreover have "guards X r now req s = (Inl (case g of Inl e \<Rightarrow> e | Inr _ \<Rightarrow> ForbiddenException), s\<lparr>srvDb := d\<rparr>)"
  proof (cases g)
    case (Inr p)
    then obtain b http where "g = Inr (b, http)" by (cases p) simp
    with assms(4) [of http] have "g = Inr (False, http)" by (cases b) simp_all
    with c x show ?thesis by (simp add: guards_def)
  qed (use c x in \<open>simp add: guards_def\<close>)
  ultimately show thesis using that x by blast
qed

text \<open>The guard passes, and the request is counted.\<close>

lemma guards_passed:
  assumes "guards X r now req s = (Inr http, s1)"
  shows "fst (canActivate (appDb X) (appLibs X) (appConfig X) now (ctlPublic (metaOf r)) (ctlRoles (metaOf r)) req (srvDb s)) =
    Inr (True, http)"
  using assms by (auto simp: guards_def split: prod.splits sum.splits if_splits)

section \<open>Signing in over HTTP\<close>

definition signInRoutes :: "route set" where
  "signInRoutes = {JoinRoute, LoginRoute, RefreshRoute, OauthRoute}"

lemma signIn_handler:
  assumes "r \<in> signInRoutes" and "handlerOf X r now req d = (Inr v, d')"
  obtains op tok where "v = jwtJs tok"
    "authCall (appDb X) (appLibs X) (appConfig X) now (saltDraw req) op d = (Inr tok, d')"
proof -
  have "\<exists>op tok. v = jwtJs tok \<and>
    authCall (appDb X) (appLibs X) (appConfig X) now (saltDraw req) op d = (Inr tok, d')"
  proof -
    consider "r = JoinRoute" | "r = LoginRoute" | "r = RefreshRoute" | "r = OauthRoute"
      using assms(1) by (auto simp: signInRoutes_def)
    then show ?thesis
    proof cases
      case 1
      with assms(2) show ?thesis
        by (auto simp: ctlJoin_def bindR_def split: sum.splits prod.splits) (metis authCall.simps(1))
    next
      case 2
      with assms(2) show ?thesis
        by (auto simp: ctlLogin_def bindR_def split: sum.splits prod.splits) (metis authCall.simps(2))
    next
      case 3
      with assms(2) show ?thesis
        by (auto simp: ctlRefresh_def bindR_def split: sum.splits prod.splits) (metis authCall.simps(4))
    next
      case 4
      with assms(2) show ?thesis
        by (auto simp: ctlGoogleOauthLogin_def bindR_def split: sum.splits prod.splits) (metis authCall.simps(3))
    qed
  qed
  then show thesis using that by blast
qed

text \<open>Requests without an authenticated user are outside the idempotency protocol.\<close>

lemma intercept_anonymous:
  assumes "extractAuthUserId req = None" and "intercept S skip req t0 t1 t2 status handler e = (Inr body, e')"
  shows "handler (world e) = (Inr body, world e')"
  using assms by (auto simp: intercept_def onWorld_def split: if_splits option.splits prod.splits)

lemma signIn_serve:
  assumes "r \<in> signInRoutes" and "serve X r now req s = (rep, s')" and "repStatus rep = 201"
  obtains s1 http op tok where "guards X r (ms now) (httpPart req) s = (Inr http, s1)"
    "authCall (appDb X) (appLibs X) (appConfig X) (ms now) (saltDraw req) op (srvDb s1) = (Inr tok, srvDb s')"
    "repBody rep = jsonBody (jwtJs tok)" "repCookies rep = refreshCookie (appCookies X) (jwtJs tok)"
proof -
  obtain res s1 where g: "guards X r (ms now) (httpPart req) s = (res, s1)" by fastforce
  from assms(2,3) g obtain http where http: "res = Inr http" by (cases res) (auto simp: serve_def errorReply_def)
  let ?h = "controllerCall X r (ms now) (req\<lparr>httpPart := http\<rparr>)"
  obtain out e where i: "intercept (appIdem X) (skipIdempotency r) (idemRequest http) now now now (int (successStatus r)) ?h
      \<lparr>store = srvRecords s1, world = (srvDb s1, []), respHeaders = []\<rparr> = (out, e)" by fastforce
  from assms(2,3) g http i obtain body where b: "out = Inr body" "repBody rep = body" "repCookies rep = snd (world e)"
    "srvDb s' = fst (world e)" by (cases out) (auto simp: serve_def errorReply_def)
  have pub: "ctlPublic (metaOf r) = Some True" using assms(1) by (auto simp: signInRoutes_def meta_defs)
  have "http = setReqHeader ''authenticatedUser'' Undefined (httpPart req)"
    using guards_passed [of X r "ms now" "httpPart req" s http s1] g http pub by (simp add: canActivate_def)
  then have "extractAuthUserId (idemRequest http) = None"
    by (simp add: extractAuthUserId_def idemRequest_def firstValue_def)
  from intercept_anonymous [OF this i [unfolded b(1)]]
  have h: "?h (srvDb s1, []) = (Inr body, world e)" by simp
  obtain v d' where v: "handlerOf X r (ms now) (req\<lparr>httpPart := http\<rparr>) (srvDb s1) = (v, d')" by fastforce
  have c: "?h (srvDb s1, []) = (case v of Inl err \<Rightarrow> (Inl err, (d', []))
      | Inr data \<Rightarrow> (Inr (jsonBody data), (d', refreshCookie (appCookies X) data)))"
    using assms(1) v by (auto simp: signInRoutes_def controllerCall_def setRefreshTokenCookieInterceptor_def
        bindR_def onDb_apply split: sum.split)
  from h c obtain data where d: "v = Inr data" "body = jsonBody data" "world e = (d', refreshCookie (appCookies X) data)"
    by (cases v) auto
  show thesis
  proof (rule signIn_handler [OF assms(1) v [unfolded d(1)]])
    fix op tok assume "data = jwtJs tok"
      "authCall (appDb X) (appLibs X) (appConfig X) (ms now) (saltDraw (req\<lparr>httpPart := http\<rparr>)) op (srvDb s1) = (Inr tok, d')"
    then show thesis using that [of http s1 op tok] g http b d by simp
  qed
qed

end
