(* ===== verification/Replies.thy ===== *)
theory Replies
  imports App
begin

text \<open>
  The bodies of the post routes on the wire: the documented shape of a post
  (\<open>blog/dto/post-response.dto.ts\<close>), and what the encrypting interceptor makes of the objects the
  handlers return.
\<close>

section \<open>Shapes\<close>

datatype jsonType = TextType | NumberType | TextsType

fun hasType :: "jsonType \<Rightarrow> json \<Rightarrow> bool" where
  "hasType TextType (JStr s) = True"
| "hasType NumberType (JNum n) = True"
| "hasType TextsType (JArr xs) = list_all (\<lambda>x. hasType TextType x) xs"
| "hasType _ _ = False"

text \<open>A date is an ISO text in JSON.\<close>

definition PostResponseDto :: "(string \<times> jsonType) list" where
  "PostResponseDto =
     [(''postId'', TextType), (''postUid'', TextType), (''title'', TextType), (''writeDatetime'', TextType),
      (''contents'', TextType), (''hits'', NumberType), (''postLikeNicknameList'', TextsType)]"

definition conforms :: "(string \<times> jsonType) list \<Rightarrow> json \<Rightarrow> bool" where
  "conforms shape j \<longleftrightarrow>
     (case j of
        JObj fs \<Rightarrow> list_all2 (\<lambda>p q. fst q = fst p \<and> hasType (snd p) (snd q)) shape fs
      | _ \<Rightarrow> False)"

section \<open>A post with encrypted identifiers\<close>

definition postReply :: "string \<Rightarrow> string \<Rightarrow> PostDto \<Rightarrow> json" where
  "postReply c u d =
     JObj ([(''postId'', JStr c), (''postUid'', JStr u), (''title'', JStr (ptTitle d)),
        (''writeDatetime'', JStr (toISOString (ptWriteDatetime d))), (''contents'', JStr (ptContents d)),
        (''hits'', JNum (ptHits d))] @
       (case ptPostLikeNicknameList d of None \<Rightarrow> [] | Some ns \<Rightarrow> [(''postLikeNicknameList'', JArr (map JStr ns))]))"

text \<open>The texts \<open>c\<close> and \<open>u\<close> are encryptions of the post's identifiers.\<close>

definition hides :: "aes \<Rightarrow> string \<Rightarrow> PostDto \<Rightarrow> json \<Rightarrow> bool" where
  "hides A key d j \<longleftrightarrow>
     (\<exists>c u i k. j = postReply c u d \<and> fst (encryptPrimaryKey A (showInt (ptPostId d)) key i) = Inr c \<and>
        fst (encryptPrimaryKey A (ptPostUid d) key k) = Inr u)"

lemma postFields_distinct: "distinct (map fst (postFields d))"
  by (simp add: postFields_def)

lemma postFields_noObjects: "\<forall>p \<in> set (postFields d). noObjects (snd p)"
  by (auto simp: postFields_def dateJs_def list_all_iff split: option.split)

lemma jsonOf_texts: "map jsonOf (map VStr ns) = map JStr ns"
  by simp

lemma covered_hides:
  assumes "list_all2 (fieldCovered A key [''postId'', ''postUid'']) (postFields d) gs"
  shows "hides A key d (jsonOf (VObj ''Object'' gs))"
proof -
  from assms obtain c u i k where
    "gs = (''postId'', VStr c) # (''postUid'', VStr u) # drop 2 (postFields d)"
    "fst (encryptPrimaryKey A (showInt (ptPostId d)) key i) = Inr c"
    "fst (encryptPrimaryKey A (ptPostUid d) key k) = Inr u"
    by (auto simp: postFields_def list_all2_Cons1 fieldCovered_def)
  moreover have "jsonOf (VObj ''Object'' ((''postId'', VStr c) # (''postUid'', VStr u) # drop 2 (postFields d))) =
      postReply c u d"
    by (simp add: postFields_def postReply_def dateJs_def dateOf_def comp_def split: option.split)
  ultimately show ?thesis unfolding hides_def by metis
qed

lemma hides_conforms: "hides A key d j \<Longrightarrow> ptPostLikeNicknameList d \<noteq> None \<Longrightarrow> conforms PostResponseDto j"
  by (auto simp: hides_def conforms_def PostResponseDto_def postReply_def list_all_iff)

section \<open>The replies of the post routes\<close>

lemma encrypted_post:
  assumes "aes_cipher A" and "encryptPrimaryKeyInterceptor A key (returnR (postJs d)) draw = (Inr w, draw')"
  shows "\<exists>gs. w = VObj ''Object'' gs \<and> hides A key d (jsonOf w)"
  using post_response_encrypted [OF assms(1) postFields_distinct postFields_noObjects assms(2) [unfolded postJs_def]]
    covered_hides by metis

definition pageReply :: "json list \<Rightarrow> PaginationMetaDto \<Rightarrow> json" where
  "pageReply items m = JObj [(''data'', JArr items), (''paginationMeta'', jsonOf (metaJs m))]"

lemma encrypted_page:
  assumes "aes_cipher A" and "encryptPrimaryKeyInterceptor A key (returnR (pageJs p)) draw = (Inr w, draw')"
  shows "\<exists>items. jsonOf w = pageReply items (paginationMeta p) \<and> w \<noteq> VUndefined \<and>
    list_all2 (hides A key) (pageData p) items"
proof -
  have i: "encryptPrimaryKeyInterceptor A key (returnR (VObj ''PaginationDto''
      [(''data'', VArr (map (VObj ''PostDto'') (map postFields (pageData p)))),
       (''paginationMeta'', metaJs (paginationMeta p))])) draw = (Inr w, draw')"
    using assms(2) by (simp add: pageJs_def postJs_def [abs_def] comp_def)
  have "\<forall>fs \<in> set (map postFields (pageData p)). distinct (map fst fs)" by (auto simp: postFields_distinct)
  moreover have "\<not> isArray (metaJs (paginationMeta p))" by (simp add: metaJs_def)
  ultimately obtain out where
    w: "w = VObj ''Object'' [(''data'', VArr (map (VObj ''Object'') out)), (''paginationMeta'', metaJs (paginationMeta p))]"
    and c: "list_all2 (list_all2 (fieldCovered A key [''postId'', ''postUid''])) (map postFields (pageData p)) out"
    using page_response_encrypted [OF assms(1) _ _ i] by blast
  have "list_all2 (hides A key) (pageData p) (map (\<lambda>gs. jsonOf (VObj ''Object'' gs)) out)"
    using c unfolding list.rel_map by (rule list_all2_mono) (rule covered_hides)
  moreover have "jsonOf w = pageReply (map (\<lambda>gs. jsonOf (VObj ''Object'' gs)) out) (paginationMeta p)"
    by (simp add: w pageReply_def metaJs_def comp_def)
  ultimately show ?thesis using w by blast
qed

lemma post_route_reply:
  assumes "r \<in> {GetAllPosts, GetUserPosts, GetPost}"
    and "controllerCall X r now req (d, cs) = (Inr body, (d', cs'))"
  obtains v w draw' where "handlerOf X r now req d = (Inr v, d')" "body = jsonBody w"
    "encryptPrimaryKeyInterceptor (aesLib (appLibs X)) (pkSecretKey (appConfig X)) (returnR v) (saltDraw req) = (Inr w, draw')"
proof -
  obtain x d1 where h: "handlerOf X r now req d = (x, d1)" by fastforce
  obtain y draw' where e: "\<And>v. x = Inr v \<Longrightarrow> encryptPrimaryKeyInterceptor (aesLib (appLibs X)) (pkSecretKey (appConfig X))
      (returnR v) (saltDraw req) = (y, draw')" by (cases x) (simp, metis surj_pair sum.inject(2))
  show thesis using that [of _ _ draw'] assms h e
    by (cases x; cases y) (auto simp: controllerCall_def bindR_def onDb_apply)
qed

end
