(* ===== verification/Scenario.thy ===== *)
theory Scenario
  imports Requests Replies
begin

text \<open>
  A concrete application over the reference database, the expiring map as Redis and the stand-in
  libraries, with a user who joins over HTTP and then creates a profile with an idempotency key.
  The instances of the properties of whole requests run on it.
\<close>

definition demoApp :: "(IdempotencyRecord memory, unit, dbState) application" where
  "demoApp =
     \<lparr>appDb = sqlDb, appWeb = toyWeb, appLibs = toyLibs 0, appConfig = demoCfg,
      appCookies = \<lparr>cookieMaxAge = 2592000000, cookieSecure = True, cookieSameSite = ''strict''\<rparr>,
      appIdem = IdempotencyService memRedis, appThrottle = (\<lambda>tracker r now. returnR ())\<rparr>"

definition demoServer :: "dbState \<Rightarrow> (IdempotencyRecord memory, unit, dbState) server" where
  "demoServer db = \<lparr>srvRecords = (\<lambda>_. None), srvLimits = (), srvDb = db\<rparr>"

definition atMs :: "nat \<Rightarrow> instant" where
  "atMs t = \<lparr>ms = t, isoText = toISOString t\<rparr>"

lemma demoApp_sel [simp]:
  "appDb demoApp = sqlDb" "appWeb demoApp = toyWeb" "appLibs demoApp = toyLibs 0" "appConfig demoApp = demoCfg"
  "appIdem demoApp = IdempotencyService memRedis" "appThrottle demoApp tr r now = returnR ()"
  "ms (atMs t) = t" "srvDb (demoServer db) = db" "srvRecords (demoServer db) = (\<lambda>_. None)"
  "appCookies demoApp = \<lparr>cookieMaxAge = 2592000000, cookieSecure = True, cookieSameSite = ''strict''\<rparr>"
  by (simp_all add: demoApp_def atMs_def demoServer_def)

lemma demoApp_parts:
  "orm (appDb demoApp) (\<lambda>db. db)" "token_lib (appLibs demoApp) length"
  using sql.orm_axioms toyl.token_lib_axioms by simp_all

lemma demoDb_ok [simp]: "databaseOk demoDb"
  using demoDb_good by (simp add: databaseOk_def likesFresh_def demoDb_def infoFresh_def)

lemma demoNamed_databaseOk [simp]: "databaseOk demoNamed"
  unfolding databaseOk_def authGood_def by (intro conjI demoNamed_ok)
    (simp_all add: demoNamed_def sessionFresh_def demoDb_def demoAuth_def fitsUserAuth_def)

section \<open>Joining\<close>

definition joinRequest :: webRequest where
  "joinRequest = \<lparr>httpPart = guardReq Undefined None, pathText = '''', queryValue = VObj '''' [],
     bodyValue = VObj '''' [(''uid'', VStr ''c''), (''password'', VStr ''pw'')], saltDraw = 0\<rparr>"

lemma join_body: "bodyParam toyWeb ''UserAuthRequestDto'' readUserAuthRequestDto (bodyValue joinRequest) = Inr demoJoin"
  by (simp add: bodyParam_def pathAwareTransform_def toyWeb_def toyTransform_def checks_defs joinRequest_def
      Let_def meetsChecks_def propOf_def readUserAuthRequestDto_def textProp_def demoJoin_def)

lemma demo_joins:
  obtains tok s1 where
    "serve demoApp JoinRoute (atMs 5000) joinRequest (demoServer demoDb) =
       (\<lparr>repStatus = 201, repBody = jsonBody (jwtJs tok),
         repCookies = refreshCookie (appCookies demoApp) (jwtJs tok), repHeaders = []\<rparr>, demoServer s1)"
    "signedIn (toyLibs 0) demoCfg 5000 ''c'' USER tok demoDb s1" "hasAuth s1 ''c''" "databaseOk s1"
    "contentOf s1 = contentOf demoDb" "CHR '' '' \<notin> set (accessToken tok)" "refreshToken tok \<noteq> ''''"
    "sessionOfUid s1 ''a'' = sessionOfUid demoDb ''a''"
proof -
  obtain tok s1 where r: "createNewUser sqlDb (toyLibs 0) demoCfg 5000 0 demoJoin demoDb = (Inr tok, s1)"
    "CHR '' '' \<notin> set (accessToken tok)" by (rule demo_join_runs)
  have n: "\<not> hasAuth demoDb ''c''" by (simp add: hasAuth_def demoDb_def demoAuth_def)
  with join_step [OF toyl.token_lib_axioms demoDb_good r(1)] have
    j: "signedIn (toyLibs 0) demoCfg 5000 ''c'' USER tok demoDb s1" "hasAuth s1 ''c''"
    by (auto simp: demoJoin_def)
  have "handlerOf demoApp JoinRoute 5000 req demoDb = (Inr (jwtJs tok), s1)"
    if "bodyValue req = bodyValue joinRequest" "saltDraw req = 0" for req
    using that r(1) join_body by (simp add: ctlJoin_def bindR_def)
  then have v: "serve demoApp JoinRoute (atMs 5000) joinRequest (demoServer demoDb) =
       (\<lparr>repStatus = 201, repBody = jsonBody (jwtJs tok),
         repCookies = refreshCookie (appCookies demoApp) (jwtJs tok), repHeaders = []\<rparr>, demoServer s1)"
    by (simp add: serve_def guards_def canActivate_def meta_defs intercept_def skipIdempotency_def idemRequest_def
        guardReq_def joinRequest_def extractKey_def firstValue_def onWorld_def controllerCall_def
        setRefreshTokenCookieInterceptor_def bindR_def onDb_apply successStatus_def methodOf_def SAFE_METHODS_def
        demoServer_def setReqHeader_def)
  have "databaseOk s1" using serve_db [OF demoApp_parts _ v] by (simp add: demoServer_def)
  moreover have "contentOf s1 = contentOf demoDb"
    using keepsD [OF fresh_authCall(3) [of _ "toyLibs 0" demoCfg 5000 0 "Join demoJoin"] refl] r(1) by simp
  moreover have "refreshToken tok \<noteq> ''''"
    using j(1) by (auto simp: signedIn_def dest: issued_toy_length)
  moreover have "sessionOfUid s1 ''a'' = sessionOfUid demoDb ''a''" using j(1) by (simp add: signedIn_def)
  ultimately show thesis using that v j r(2) by blast
qed

section \<open>Creating a profile with a key\<close>

definition profileRequest :: "JwtDto \<Rightarrow> webRequest" where
  "profileRequest tok = \<lparr>httpPart = setReqHeader ''idempotency-key'' (Single demoKey)
       (guardReq (Single (''Bearer '' @ accessToken tok)) (Some (refreshToken tok)) \<lparr>httpMethod := ''POST''\<rparr>),
     pathText = '''', queryValue = VObj '''' [],
     bodyValue = VObj '''' [(''nickname'', VStr ''cee''), (''introduce'', VStr ''hello'')], saltDraw = 1\<rparr>"

lemma profile_body: "bodyParam toyWeb ''UserInfoRequestDto'' readUserInfoRequestDto (bodyValue (profileRequest tok)) =
  Inr \<lparr>irNickname = ''cee'', irIntroduce = ''hello''\<rparr>"
  by (simp add: bodyParam_def pathAwareTransform_def toyWeb_def toyTransform_def checks_defs profileRequest_def
      Let_def meetsChecks_def propOf_def readUserInfoRequestDto_def textProp_def)

lemma profileRequest_http [simp]:
  "httpHeaders (httpPart (profileRequest tok)) ''authorization'' = Single (''Bearer '' @ accessToken tok)"
  "httpHeaders (httpPart (profileRequest tok)) ''idempotency-key'' = Single demoKey"
  "httpCookies (httpPart (profileRequest tok)) ''refreshToken'' = Some (refreshToken tok)"
  "httpMethod (httpPart (profileRequest tok)) = ''POST''"
  by (simp_all add: profileRequest_def guardReq_def)

abbreviation asC :: "JwtDto \<Rightarrow> httpRequest" where
  "asC tok \<equiv> setReqHeader ''authenticatedUser'' (Single ''c'') (httpPart (profileRequest tok))"

lemma profile_keyed: "keyed (skipIdempotency CreateUserInfo) (idemRequest (asC tok)) ''c'' demoKey"
  by (simp add: keyed_def idemRequest_def skipIdempotency_def SAFE_METHODS_def extractKey_def extractAuthUserId_def
      firstValue_def)

text \<open>While the tokens last, the guards let the request pass.\<close>

lemma profile_passes:
  assumes "signedIn (toyLibs 0) demoCfg 5000 ''c'' USER tok demoDb db" and "hasAuth db ''c''"
    and "CHR '' '' \<notin> set (accessToken tok)" and "databaseOk db" and "srvDb s = db" and "t < 7000"
  obtains d where "guards demoApp CreateUserInfo t (httpPart (profileRequest tok)) s = (Inr (asC tok), s\<lparr>srvDb := d\<rparr>)"
proof -
  have g: "guardSpec (toyLibs 0) demoCfg t (ctlPublic (metaOf CreateUserInfo)) (ctlRoles (metaOf CreateUserInfo))
      (httpPart (profileRequest tok)) db = Inr (True, asC tok)"
    using assms(6) by (intro tokens_pass [OF toyl.token_lib_axioms assms(1-3)]) (auto simp: demoCfg_def meta_defs)
  obtain x d where c: "canActivate sqlDb (toyLibs 0) demoCfg t (ctlPublic (metaOf CreateUserInfo))
      (ctlRoles (metaOf CreateUserInfo)) (httpPart (profileRequest tok)) db = (x, d)" by fastforce
  have "authGood db" using assms(4) by (simp add: databaseOk_def)
  from guard_on [OF sql.orm_axioms this c] g have "x = Inr (True, asC tok)" by simp
  with c assms(5) have "guards demoApp CreateUserInfo t (httpPart (profileRequest tok)) s = (Inr (asC tok), s\<lparr>srvDb := d\<rparr>)"
    by (simp add: guards_def)
  then show thesis by (rule that)
qed

lemma profile_row:
  assumes "signedIn (toyLibs 0) demoCfg 5000 ''c'' USER tok demoDb db" and "hasAuth db ''c''" and "databaseOk db"
    and "userInfos db = []"
  obtains db' where "handlerOf demoApp CreateUserInfo t (profileRequest tok\<lparr>httpPart := asC tok\<rparr>) db = (Inr successJs, db')"
    "userAuths db' = userAuths db" "profilesOf db' ''c'' \<noteq> None"
proof -
  let ?dto = "\<lparr>dtoUid = ''c'', dtoNickname = ''cee'', dtoIntroduce = ''hello''\<rparr>"
  obtain res db' where r: "svcCreateUserInfo sqlDb ?dto db = (res, db')" by fastforce
  have ok: "schemaOk db" "infoFresh db" using assms(3) by (simp_all add: databaseOk_def authGood_def)
  have "profilesOf db u = None" for u using assms(4) by (simp add: profilesOf_def)
  then have "profileSpec (hasAuth db) (CreateProfile ?dto) (profilesOf db) = (Inr None, (profilesOf db)(''c'' \<mapsto> ?dto))"
    using assms(2) by (simp add: nicknameTaken_def fitsDto_def)
  with create_step [OF ok r] have res: "res = Inr ()" "profilesOf db' ''c'' \<noteq> None" by (cases res; simp)+
  have "keeps (\<lambda>x. userAuths x = userAuths db) (sqlInsertUserInfo row)" for row
    by (simp add: keeps_def sqlInsertUserInfo_def Let_def)
  then have "keeps (\<lambda>x. userAuths x = userAuths db) (svcCreateUserInfo sqlDb ?dto)"
    unfolding userInfo_defs sqlDb_sel by (intro keeps_intros keeps_reads) simp_all
  from keepsD [OF this refl r] have "userAuths db' = userAuths db" by simp
  moreover have b: "bodyValue (profileRequest tok\<lparr>httpPart := h\<rparr>) = bodyValue (profileRequest tok)" for h
    by (simp add: profileRequest_def)
  moreover have "AuthenticatedUserValidation (asC tok) = Inr ''c''" by (simp add: AuthenticatedUserValidation_def)
  ultimately show thesis using that [of db'] r res profile_body [of tok]
    by (simp add: ctlCreateUserInfo_def bindR_def andSuccess_def)
qed

text \<open>The profile is created, and the record of the request is stored.\<close>

lemma demo_creates_profile:
  assumes "signedIn (toyLibs 0) demoCfg 5000 ''c'' USER tok demoDb s1" and "hasAuth s1 ''c''"
    and "CHR '' '' \<notin> set (accessToken tok)" and "databaseOk s1" and "contentOf s1 = contentOf demoDb"
  obtains rep s2 where "serve demoApp CreateUserInfo (atMs 6000) (profileRequest tok) (demoServer s1) = (rep, s2)"
    "repStatus rep = 201" "repBody rep = jsonBody successJs" "databaseOk (srvDb s2)"
    "userAuths (srvDb s2) = userAuths s1" "profilesOf (srvDb s2) ''c'' \<noteq> None"
proof -
  obtain d where g: "guards demoApp CreateUserInfo 6000 (httpPart (profileRequest tok)) (demoServer s1) =
      (Inr (asC tok), (demoServer s1)\<lparr>srvDb := d\<rparr>)"
    by (rule profile_passes [OF assms(1-4), of "demoServer s1" 6000]) simp_all
  have o: "databaseOk d" "userAuths d = userAuths s1" "contentOf d = contentOf demoDb"
    using guards_outcome [OF demoApp_parts(1) _ g] assms(4,5) by simp_all
  have sig: "signedIn (toyLibs 0) demoCfg 5000 ''c'' USER tok demoDb d" "hasAuth d ''c''"
    using assms(1,2) sessionOfUid_cong [OF o(2)] o(2) by (simp_all add: signedIn_def hasAuth_def)
  have "userInfos d = []" using o(3) by (simp add: contentOf_def demoDb_def)
  from profile_row [OF sig o(1) this, of 6000] obtain d2 where h:
    "handlerOf demoApp CreateUserInfo 6000 (profileRequest tok\<lparr>httpPart := asC tok\<rparr>) d = (Inr successJs, d2)"
    "userAuths d2 = userAuths d" "profilesOf d2 ''c'' \<noteq> None" by auto
  let ?h = "controllerCall demoApp CreateUserInfo 6000 (profileRequest tok\<lparr>httpPart := asC tok\<rparr>)"
  let ?e = "\<lparr>store = (\<lambda>_. None), world = (d, []), respHeaders = []\<rparr> :: (IdempotencyRecord memory, dbState \<times> cookie list) env"
  have c: "?h (d, []) = (Inr (jsonBody successJs), (d2, []))"
    using h(1) by (simp add: controllerCall_def bindR_def onDb_apply)
  have free: "idemView (\<lambda>m. m) (store ?e) t u k = None" for t u k
    by (simp add: idemView_def live_def liveEntry_def)
  obtain r' where i: "intercept (IdempotencyService memRedis) (skipIdempotency CreateUserInfo) (idemRequest (asC tok))
      (atMs 6000) (atMs 6000) (atMs 6000) 201 ?h ?e =
      runAndRecord (IdempotencyService memRedis) (atMs 6000) 201 ''c'' demoKey (reqMethod (idemRequest (asC tok)))
        (reqPath (idemRequest (asC tok))) ?h (?e\<lparr>store := r'\<rparr>)"
    by (rule memr.idem.intercept_miss [OF reliable_mem profile_keyed UUID_V4_noColon [OF demo_uuid] free free])
  obtain out e1 where x: "intercept (IdempotencyService memRedis) (skipIdempotency CreateUserInfo) (idemRequest (asC tok))
      (atMs 6000) (atMs 6000) (atMs 6000) 201 ?h ?e = (out, e1)" by fastforce
  then have "out = Inr (jsonBody successJs)" "world e1 = (d2, [])"
    using i c runAndRecord_outcome [of "IdempotencyService memRedis" "atMs 6000" 201 "''c''" demoKey
      "reqMethod (idemRequest (asC tok))" "reqPath (idemRequest (asC tok))" ?h "?e\<lparr>store := r'\<rparr>"] by simp_all
  then have v: "serve demoApp CreateUserInfo (atMs 6000) (profileRequest tok) (demoServer s1) =
      (\<lparr>repStatus = 201, repBody = jsonBody successJs, repCookies = [], repHeaders = respHeaders e1\<rparr>,
       (demoServer s1)\<lparr>srvDb := d2, srvRecords := store e1\<rparr>)"
    using x by (simp add: serve_def g successStatus_def methodOf_def)
  have "databaseOk d2" using serve_db [OF demoApp_parts _ v] assms(4) by simp
  with that [OF v] h o show thesis by simp
qed

section \<open>Reading posts\<close>

text \<open>Encryption never fails.\<close>

lemma encryptFields_runs: "\<exists>gs d. encryptFields A key annotated fs draw = (Inr gs, d)"
proof (induction annotated arbitrary: fs draw)
  case (Cons f annotated)
  have "\<exists>gs d. bindR (encryptPrimaryKey A x key) (\<lambda>c. encryptFields A key annotated (setField f (VStr c) fs)) draw =
      (Inr gs, d)" for x
    using Cons.IH by (simp add: encryptPrimaryKey_def bindR_def)
  with Cons.IH show ?case by (simp split: option.split)
qed simp

lemma encryptObject_runs: "\<exists>w d. encryptObject A key v draw = (Inr w, d)"
proof -
  obtain gs d where "encryptFields A key (encryptMetadata (constructorName v)) (spread v) draw = (Inr gs, d)"
    using encryptFields_runs by metis
  then show ?thesis by (simp add: encryptObject_def bindR_def)
qed

lemma mapR_runs: "(\<And>x s. \<exists>y s'. f x s = (Inr y, s')) \<Longrightarrow> \<exists>ys s'. mapR f xs s = (Inr ys, s')"
proof (induction xs arbitrary: s)
  case (Cons x xs)
  obtain y s1 where y: "f x s = (Inr y, s1)" using Cons.prems by metis
  obtain ys s2 where "mapR f xs s1 = (Inr ys, s2)" using Cons by metis
  with y show ?case by (simp add: bindR_def)
qed simp

lemma encryptResponse_runs: "\<exists>w d. encryptPrimaryKeyInterceptor A key (returnR v) draw = (Inr w, d)"
proof -
  have it: "\<exists>y s'. encryptItem A key x s = (Inr y, s')" for x s
    using encryptObject_runs [of A key x s] by (simp add: encryptItem_def)
  have p: "\<exists>q s'. encryptProperty A key p s = (Inr q, s')" for p s
  proof (cases "snd p")
    case (VArr xs)
    obtain ys s' where "mapR (encryptItem A key) xs s = (Inr ys, s')" using mapR_runs [of "encryptItem A key"] it by metis
    with VArr show ?thesis by (simp add: encryptProperty_def bindR_def)
  qed (simp_all add: encryptProperty_def)
  obtain w d where o: "encryptObject A key v draw = (Inr w, d)" using encryptObject_runs by metis
  obtain fs d' where "mapR (encryptProperty A key) (spread w) d = (Inr fs, d')" using mapR_runs [of "encryptProperty A key"] p by metis
  with o show ?thesis by (simp add: encryptPrimaryKeyInterceptor_def encryptResponse_def bindR_def)
qed

lemma post_route_runs:
  assumes "handlerOf X r now req d = (Inr v, d')" and "r \<in> {GetAllPosts, GetUserPosts, GetPost}"
  obtains body where "controllerCall X r now req (d, cs) = (Inr body, (d', cs))"
proof -
  obtain w k where "encryptPrimaryKeyInterceptor (aesLib (appLibs X)) (pkSecretKey (appConfig X)) (returnR v) (saltDraw req) =
      (Inr w, k)" using encryptResponse_runs by metis
  with assms have "controllerCall X r now req (d, cs) = (Inr (jsonBody w), (d', cs))"
    by (auto simp: controllerCall_def bindR_def onDb_apply)
  then show thesis by (rule that)
qed

text \<open>User \<open>a\<close> with the path parameter of post 1.\<close>

definition postOne :: webRequest where
  "postOne = \<lparr>httpPart = setReqHeader ''authenticatedUser'' (Single ''a'') (guardReq Undefined None),
     pathText = encodeURIComponent (aesEncrypt toyAes 0 (showInt 1) ''pk''), queryValue = VObj '''' [],
     bodyValue = VObj '''' [(''title'', VNull)], saltDraw = 0\<rparr>"

lemma postOne_id: "postIdParam toyWeb (aesLib (toyLibs 0)) (pkSecretKey demoCfg) (pathText postOne) = Inr 1"
proof -
  have "fst (encryptPrimaryKey toyAes (showInt 1) ''pk'' 0) = Inr (pathText postOne)"
    by (simp add: encryptPrimaryKey_def postOne_def)
  from toyw.params_encrypted(1) [OF toyc.aes_cipher_axioms _ this] show ?thesis
    by (simp add: toyLibs_def demoCfg_def)
qed

lemma demo_reads_post:
  obtains d' where "handlerOf demoApp GetPost 9 postOne demoNamed =
    (Inr (postJs (viewOf demoNamed (newRow 1 5 ''a'' demoPost))), d')"
proof -
  obtain res d' where r: "getPostByPostId sqlDb (svcGetUserInfoByUid sqlDb) 9 1 demoNamed = (res, d')" by fastforce
  have "peId (newRow 1 5 ''a'' demoPost) = 1" by (simp add: newRow_def)
  with sql.post_read [OF demoNamed_ok(1,2) r] have "res = Inr (viewOf demoNamed (newRow 1 5 ''a'' demoPost))"
    by (auto dest: readAnswer_total)
  with r postOne_id that show thesis by (simp add: ctlGetPost_def bindR_def)
qed

lemma demo_lists_posts:
  obtains p d' where "handlerOf demoApp GetAllPosts 9 postOne demoNamed = (Inr (pageJs p), d')"
proof -
  obtain res d' where r: "listPosts sqlDb 9 None 1 demoNamed = (res, d')" by fastforce
  from sql.list_read [OF demoNamed_ok(1,2) _ r] obtain p where "res = Inr p" by (auto dest: readAnswer_total)
  moreover have "pageParam toyWeb (queryValue postOne) = Inr 1"
    by (simp add: pageParam_def pathAwareTransform_def toyWeb_def toyTransform_def checks_defs postOne_def
        Let_def meetsChecks_def propOf_def readPageQueryDto_def)
  ultimately show thesis using that r by (simp add: ctlGetAllPosts_def bindR_def)
qed

end
