(* ===== verification/Concurrency.thy ===== *)
theory Concurrency
  imports Races Serial SessionRace Scenario
begin

text \<open>
  The properties of all interleavings of requests, and the registration race, with their instances
  on the demonstration application.
\<close>

section \<open>Every interleaving\<close>

text \<open>C3: Nobody changes somebody else's data, however requests interleave. Take any requests to any
  routes, executing their statements in any order on one well-formed database. Every statement
  leaves the keys, unique indexes and foreign keys intact, and the posts, likes and profiles it
  changes all belong to one user, whose refresh token the request has in its cookie: a token that
  was stored as this user's at that moment or at an earlier one in the same interleaving.\<close>

theorem data_changes_need_token_in_every_interleaving:
  assumes "databaseOk db" and "poolReach (map (requestJob X) js) db c"
    and "poolStep (map (requestJob X) js) i c c'"
  shows "i < length js \<and> schemaOk (shared c') \<and>
    (\<exists>owner. onlyOwn owner (shared c) (shared c') \<and>
       (\<forall>u. owner = Some u \<longrightarrow>
          (\<exists>d \<in> states c. \<exists>ses. sessionOfUid d u = Some ses \<and> jobToken (js ! i) = Some (seRefreshToken ses))))"
  by (rule interleaved_step [OF assms])




section \<open>Two registrations at once\<close>

text \<open>The first statement of a registration, on the demonstration application.\<close>

definition joinJob :: job where
  "joinJob = servedJob (JoinRoute, atMs 5000, joinRequest) True"

lemma joinJob_steps:
  "\<exists>c'. poolStep (map (requestJob demoApp) [joinJob, joinJob]) 0 (poolOf demoDb) c'"
proof -
  let ?p = "requestJob demoApp joinJob" and ?ps = "map (requestJob demoApp) [joinJob, joinJob]"
  obtain tok s1 where r: "createNewUser sqlDb (toyLibs 0) demoCfg 5000 0 demoJoin demoDb = (Inr tok, s1)"
    by (rule demo_join_runs)
  have "requestOn sqlDb demoApp joinJob demoDb = (Inr (jwtJs tok), s1)"
    using r join_body
    by (simp add: requestOn_def joinJob_def servedJob_def canActivate_def meta_defs ctlJoin_def bindR_def)
      (simp add: joinRequest_def)
  then have "current (snd (alone ?p demoDb)) = s1" by (simp add: alone_request)
  moreover have "s1 \<noteq> demoDb"
  proof -
    have "\<not> hasAuth demoDb ''c''" by (simp add: hasAuth_def demoDb_def demoAuth_def)
    with join_step [OF toyl.token_lib_axioms demoDb_good r] show ?thesis by (auto simp: demoJoin_def)
  qed
  ultimately have "steps (snd (alone ?p demoDb)) \<noteq> []"
    using alone_chain(1) [OF thread_request, of demoApp joinJob demoDb] by (auto simp: dbBefore_def)
  then have "\<not> finished ?p (poolOf demoDb) 0"
    using alone_prefix [OF thread_request, of 0 demoApp joinJob demoDb] alone_chain(2) [OF thread_request, of 0 demoApp joinJob demoDb]
    by (simp add: finished_def resume_def poolOf_def dbBefore_def)
  then show ?thesis using statement [of 0 ?ps "poolOf demoDb"] by auto
qed

theorem data_changes_need_token_in_every_interleaving_witness:
  "\<exists>c'. poolStep (map (requestJob demoApp) [joinJob, joinJob]) 0 (poolOf demoDb) c' \<and> schemaOk (shared c') \<and>
     onlyOwn None demoDb (shared c')"
proof -
  obtain c' where c: "poolStep (map (requestJob demoApp) [joinJob, joinJob]) 0 (poolOf demoDb) c'"
    using joinJob_steps by blast
  have "jobToken joinJob = None"
    by (simp add: jobToken_def joinJob_def servedJob_def joinRequest_def guardReq_def)
  with data_changes_need_token_in_every_interleaving [OF demoDb_ok start c]
  have "schemaOk (shared c') \<and> (\<exists>owner. onlyOwn owner demoDb (shared c') \<and> (\<forall>u. owner \<noteq> Some u))"
    by (auto simp: poolOf_def)
  then show ?thesis using c by (metis not_Some_eq)
qed

end
