(* ===== verification/JoinRace.thy ===== *)
theory JoinRace
  imports Interleave
begin

text \<open>
  A registration looks for the account and inserts it in two statements
  (\<open>user-auth.service.ts\<close>). Two registrations of one user id can both find it free; the primary key
  then refuses the second insert.
\<close>

definition joinThread :: "libs \<Rightarrow> authConfig \<Rightarrow> nat \<Rightarrow> nat \<Rightarrow> UserAuthRequestDto \<Rightarrow> JwtDto thread" where
  "joinThread L cfg now draw dto E = createNewUser (traceDb E) L cfg now draw dto"

text \<open>The row a registration inserts.\<close>

definition joinRow :: "libs \<Rightarrow> nat \<Rightarrow> UserAuthRequestDto \<Rightarrow> UserAuthEntity" where
  "joinRow L now dto =
     \<lparr>uaUid = reqUid dto, uaPassword = hashingPassword L (reqPassword dto) (showNat now), uaSalt = showNat now,
      uaSocialYN = ''N'', uaRefreshToken = '''', uaUserRole = USER\<rparr>"

lemma joinThread_begins:
  assumes "\<not> hasAuth (E 0 d) (reqUid dto)"
  shows "joinThread L cfg now draw dto E (beginAt d) =
    bindR (traced E (sqlInsertUserAuth (joinRow L now dto))) (\<lambda>_. jwtCreate (traceDb E) L cfg now draw (reqUid dto) USER)
      \<lparr>current = E 0 d, steps = [(E 0 d, E 0 d)]\<rparr>"
  using assms
  by (simp add: joinThread_def createNewUser_def userAuthIsExist_def saveUserAuthEntity_def bindR_def traced_apply
      beginAt_def sqlExistUserAuth_def toUserAuthEntity_def userAuthDaoFrom_def joinRow_def Let_def)

lemma joinThread_steps:
  assumes "\<not> hasAuth (E 0 d) (reqUid dto)"
  defines "b \<equiv> E 1 (E 0 d)"
  shows "\<exists>more. steps (snd (joinThread L cfg now draw dto E (beginAt d))) =
    [(E 0 d, E 0 d), (b, snd (sqlInsertUserAuth (joinRow L now dto) b))] @ more"
proof -
  let ?t = "\<lparr>current = snd (sqlInsertUserAuth (joinRow L now dto) b),
    steps = [(E 0 d, E 0 d), (b, snd (sqlInsertUserAuth (joinRow L now dto) b))]\<rparr>"
  have "thread (\<lambda>E. jwtCreate (traceDb E) L cfg now draw (reqUid dto) USER)"
    unfolding userAuth_defs traceDb_sel by (intro thread_intros)
  from thread_extends [OF this, of E ?t] obtain more where
    "steps (snd (jwtCreate (traceDb E) L cfg now draw (reqUid dto) USER ?t)) = steps ?t @ more"
    by (auto simp: extends_def)
  then show ?thesis
    by (cases "fst (sqlInsertUserAuth (joinRow L now dto) b)")
      (simp_all add: joinThread_begins assms bindR_def traced_apply)
qed

lemma joinThread_refused:
  assumes "\<not> hasAuth (E 0 d) (reqUid dto)" and "hasAuth (E 1 (E 0 d)) (reqUid dto)"
    and "fitsUserAuth (joinRow L now dto)"
  shows "joinThread L cfg now draw dto E (beginAt d) =
    (Inl duplicate, \<lparr>current = E 1 (E 0 d), steps = [(E 0 d, E 0 d), (E 1 (E 0 d), E 1 (E 0 d))]\<rparr>)"
proof -
  have "sqlInsertUserAuth (joinRow L now dto) (E 1 (E 0 d)) = (Inl duplicate, E 1 (E 0 d))"
    using assms(2,3) by (simp add: sqlInsertUserAuth_def) (simp add: joinRow_def)
  with assms(1) show ?thesis by (simp add: joinThread_begins bindR_def traced_apply)
qed

lemma join_race_run:
  fixes db L cfg now draw dto now' draw' dto'
  defines "ps \<equiv> [joinThread L cfg now draw dto, joinThread L cfg now' draw' dto']"
    and "db3 \<equiv> snd (sqlInsertUserAuth (joinRow L now dto) db)"
  defines "c \<equiv> runPool ps [0, 1, 0, 1] (poolOf db)"
  assumes free: "\<not> hasAuth db (reqUid dto)" and same: "reqUid dto' = reqUid dto"
    and fits: "fitsUserAuth (joinRow L now dto)" "fitsUserAuth (joinRow L now' dto')"
  shows "shared c = db3 \<and> finished (ps ! 1) c 1 \<and> outcome (ps ! 1) c 1 = Inl duplicate"
proof -
  have db3: "db3 = db\<lparr>userAuths := userAuths db @ [joinRow L now dto]\<rparr>"
    using free fits(1) by (simp add: db3_def sqlInsertUserAuth_def joinRow_def)
  have taken: "hasAuth db3 (reqUid dto')" by (simp add: db3 hasAuth_def same joinRow_def)
  have first: "\<exists>more. steps (snd (joinThread L cfg n w x (finds h d) (beginAt db))) =
      [(db, db), (b, snd (sqlInsertUserAuth (joinRow L n x) b))] @ more"
    if "reqUid x = reqUid dto" "finds h d 0 db = db" "finds h d 1 db = b" for n w x h d b
    using joinThread_steps [of "finds h d" db x L cfg n w] that free by simp
  let ?c1 = "\<lparr>shared = db, past = [db], seen = (\<lambda>_. [])(0 := [db])\<rparr>"
  let ?c2 = "\<lparr>shared = db, past = [db, db], seen = (\<lambda>_. [])(0 := [db], 1 := [db])\<rparr>"
  let ?c3 = "\<lparr>shared = db3, past = [db, db, db], seen = (\<lambda>_. [])(0 := [db, db], 1 := [db])\<rparr>"
  let ?c4 = "\<lparr>shared = db3, past = [db, db, db, db3], seen = (\<lambda>_. [])(0 := [db, db], 1 := [db, db3])\<rparr>"
  have "runPool ps [0, 1, 0, 1] (poolOf db) = runPool ps [1, 0, 1] ?c1"
    by (subst pool_advance)
      (use first [of dto "[]" db db now draw] in \<open>auto simp: ps_def resume_def poolOf_def finds_def\<close>)
  also have "\<dots> = runPool ps [0, 1] ?c2"
    by (subst pool_advance)
      (use first [of dto' "[]" db db now' draw'] same in \<open>auto simp: ps_def resume_def finds_def\<close>)
  also have "\<dots> = runPool ps [1] ?c3"
    by (subst pool_advance)
      (use first [of dto "[db]" db db now draw] in \<open>auto simp: ps_def resume_def finds_def db3_def fun_upd_twist\<close>)
  finally have c3: "c = runPool ps [1] ?c3" by (simp add: c_def)
  have r: "joinThread L cfg now' draw' dto' (finds [db] db3) (beginAt db) =
      (Inl duplicate, \<lparr>current = db3, steps = [(db, db), (db3, db3)]\<rparr>)"
    "joinThread L cfg now' draw' dto' (finds [db, db3] db3) (beginAt db) =
      (Inl duplicate, \<lparr>current = db3, steps = [(db, db), (db3, db3)]\<rparr>)"
    using joinThread_refused [of "finds [db] db3" db dto' L now'] joinThread_refused [of "finds [db, db3] db3" db dto' L now']
      free same taken fits(2) by (simp_all add: finds_def)
  have "c = ?c4"
    unfolding c3 by (subst pool_advance) (use r(1) in \<open>simp_all add: ps_def resume_def\<close>)
  with r(2) show ?thesis by (simp add: ps_def finished_def outcome_def resume_def)
qed

text \<open>C40: Two registrations of one user id at once. When both look for the account before either has
  inserted it, the primary key refuses the second insert: one account exists, with the password of
  the first registration. The second client is told of an internal error (code 90006), where it
  would have been told that the user exists already, had it come later.\<close>

theorem simultaneous_registrations:
  assumes "\<not> hasAuth db (reqUid dto)" and "reqUid dto' = reqUid dto"
    and "fitsUserAuth (joinRow L now dto)" and "fitsUserAuth (joinRow L now' dto')"
  shows "let ps = [joinThread L cfg now draw dto, joinThread L cfg now' draw' dto'];
             c = runPool ps [0, 1, 0, 1] (poolOf db) in
    finished (ps ! 1) c 1 \<and> outcome (ps ! 1) c 1 = Inl duplicate \<and>
    respCode (replyBody (handleException duplicate)) = 90006 \<and>
    filter (\<lambda>r. uaUid r = reqUid dto) (userAuths (shared c)) = [joinRow L now dto] \<and>
    fst (createNewUser sqlDb L cfg now' draw' dto' (shared c)) = Inl (UserAlreadyExistsException (reqUid dto))"
proof -
  have n: "filter (\<lambda>r. uaUid r = reqUid dto) (userAuths db) = []"
    using assms(1) by (intro filter_absent) (simp add: hasAuth_def)
  have i: "snd (sqlInsertUserAuth (joinRow L now dto) db) = db\<lparr>userAuths := userAuths db @ [joinRow L now dto]\<rparr>"
    using assms(1,3) by (simp add: sqlInsertUserAuth_def joinRow_def)
  have "respCode (replyBody (handleException duplicate)) = 90006"
    by (simp add: duplicate_def filter_defs)
  moreover have "filter (\<lambda>r. uaUid r = reqUid dto) (userAuths db @ [joinRow L now dto]) = [joinRow L now dto]"
    using n by (simp add: joinRow_def)
  moreover have "fst (createNewUser sqlDb L cfg now' draw' dto' (db\<lparr>userAuths := userAuths db @ [joinRow L now dto]\<rparr>)) =
      Inl (UserAlreadyExistsException (reqUid dto))"
    using assms(2) by (simp add: createNewUser_def userAuthIsExist_def bindR_def sqlExistUserAuth_def hasAuth_def joinRow_def)
  ultimately show ?thesis
    using join_race_run [OF assms, of cfg draw draw'] by (simp add: Let_def i del: runPool.simps filter_append)
qed

theorem simultaneous_registrations_witness:
  "let dto = \<lparr>reqUid = ''c'', reqPassword = ''one''\<rparr>; dto' = \<lparr>reqUid = ''c'', reqPassword = ''two''\<rparr>;
       ps = [joinThread (toyLibs 0) demoCfg 5000 0 dto, joinThread (toyLibs 0) demoCfg 5001 1 dto'];
       c = runPool ps [0, 1, 0, 1] (poolOf demoDb) in
   outcome (ps ! 1) c 1 = Inl duplicate \<and> hasAuth (shared c) ''c''"
proof -
  let ?dto = "\<lparr>reqUid = ''c'', reqPassword = ''one''\<rparr>" and ?dto' = "\<lparr>reqUid = ''c'', reqPassword = ''two''\<rparr>"
  let ?c = "runPool [joinThread (toyLibs 0) demoCfg 5000 0 ?dto, joinThread (toyLibs 0) demoCfg 5001 1 ?dto'] [0, 1, 0, 1]
    (poolOf demoDb)"
  have "length (showNat 5000) = 4" "length (showNat 5001) = 4" by (simp_all add: showNat.simps)
  then have f: "fitsUserAuth (joinRow (toyLibs 0) 5000 ?dto)" "fitsUserAuth (joinRow (toyLibs 0) 5001 ?dto')"
    using hash_length [OF toyl.token_lib_axioms, of 0] by (simp_all add: fitsUserAuth_def joinRow_def)
  have n: "\<not> hasAuth demoDb (reqUid ?dto)" by (simp add: hasAuth_def demoDb_def demoAuth_def)
  note r = simultaneous_registrations [OF n _ f, of demoCfg 0 1, simplified Let_def]
  have "joinRow (toyLibs 0) 5000 ?dto \<in> set (userAuths (shared ?c))"
    using r by (auto simp del: runPool.simps dest: filter_eq_ConsD)
  then have "hasAuth (shared ?c) ''c''" by (force simp: hasAuth_def joinRow_def simp del: runPool.simps)
  with r show ?thesis by (simp add: Let_def del: runPool.simps)
qed

end
