(* ===== verification/Health.thy ===== *)
theory Health
  imports Idempotency
begin

text \<open>
  The health route (\<open>health/health.controller.ts\<close>) and the Redis probe
  (\<open>health/indicator/redis.health-indicator.ts\<close>). The database probe and the health check service,
  which runs the probes, are framework code and parameters.
\<close>

text \<open>What JavaScript code can throw: an error object with its message, or another value.\<close>

datatype thrown = ErrorObject string | OtherValue

definition messageOf :: "thrown \<Rightarrow> string" where
  "messageOf t = (case t of ErrorObject m \<Rightarrow> m | OtherValue \<Rightarrow> ''Unknown error'')"

text \<open>\<open>getStatus(key, up)\<close> of the framework's indicator class.\<close>

definition getStatus :: "string \<Rightarrow> bool \<Rightarrow> json" where
  "getStatus key up = JObj [(key, JObj [(''status'', JStr (if up then ''up'' else ''down''))])]"

section \<open>The probe of Redis\<close>

record HealthCheckError =
  hcMessage :: string
  hcCauses :: json

definition redisIsHealthy :: "(thrown + unit) \<Rightarrow> string \<Rightarrow> HealthCheckError + json" where
  "redisIsHealthy ping key =
     (case ping of
        Inr _ \<Rightarrow> Inr (getStatus key True)
      | Inl error \<Rightarrow>
          Inl \<lparr>hcMessage = ''Redis health check failed: '' @ messageOf error, hcCauses = getStatus key False\<rparr>)"

section \<open>The route\<close>

text \<open>The outcome of the health check service: a result, the service-unavailable exception or anything else.\<close>

datatype checkOutcome = Healthy json | ServiceUnavailable json | Failed thrown

definition healthCheckRoute ::
  "(HealthCheckError + json \<Rightarrow> HealthCheckError + json \<Rightarrow> checkOutcome) \<Rightarrow>
   HealthCheckError + json \<Rightarrow> (thrown + unit) \<Rightarrow> nat \<times> json" where
  "healthCheckRoute check database ping =
     (case check database (redisIsHealthy ping ''redis'') of
        Healthy result \<Rightarrow> (200, result)
      | ServiceUnavailable result \<Rightarrow> (503, result)
      | Failed error \<Rightarrow>
          (503, JObj [(''status'', JStr ''error''), (''error'', JObj [(''message'', JStr (messageOf error))])]))"

lemma health_status: "fst (healthCheckRoute check database ping) \<in> {200, 503}"
  by (simp add: healthCheckRoute_def split: checkOutcome.split)

lemma health_ok_iff:
  "fst (healthCheckRoute check database ping) = 200 \<longleftrightarrow>
     (\<exists>r. check database (redisIsHealthy ping ''redis'') = Healthy r)"
  by (simp add: healthCheckRoute_def split: checkOutcome.split)

end
