(* ===== verification/Migrations.thy ===== *)
theory Migrations
  imports Orm
begin

text \<open>
  The schema as the migrations build it (\<open>migrations/\<close>). A migration is a list of data definition
  statements; what a statement does to the catalog, and when MySQL refuses it, is the documented
  behaviour of MySQL. Character sets and the storage engine are left out.
\<close>

section \<open>The catalog\<close>

datatype columnType =
    Varchar nat | Char nat | TextType | IntType | Bigint | Datetime nat | Enum "string list"

record column =
  colName :: string
  colType :: columnType
  colNotNull :: bool
  colAuto :: bool
  colDefault :: "string option"
  colOnUpdate :: "string option"

text \<open>An index that MySQL adds by itself for a foreign key is marked.\<close>

record index =
  ixName :: string
  ixColumns :: "string list"
  ixUnique :: bool
  ixImplicit :: bool

record foreignKey =
  fkName :: string
  fkColumns :: "string list"
  fkTable :: string
  fkRefColumns :: "string list"
  fkOnDelete :: string
  fkOnUpdate :: string

record tableDef =
  tabColumns :: "column list"
  tabPrimary :: "string list"
  tabIndexes :: "index list"
  tabForeign :: "foreignKey list"

type_synonym catalog = "(string \<times> tableDef) list"

datatype ddl =
    CreateTable string tableDef
  | AddForeignKey string foreignKey
  | DropForeignKey string string
  | DropIndex string string
  | DropTable string

fun hasPrefix :: "string list \<Rightarrow> string list \<Rightarrow> bool" where
  "hasPrefix [] ys = True"
| "hasPrefix (x # xs) [] = False"
| "hasPrefix (x # xs) (y # ys) \<longleftrightarrow> x = y \<and> hasPrefix xs ys"

text \<open>A key that begins with the columns.\<close>

definition keyed_on :: "string list \<Rightarrow> tableDef \<Rightarrow> bool" where
  "keyed_on cols t \<longleftrightarrow> hasPrefix cols (tabPrimary t) \<or> list_ex (\<lambda>i. hasPrefix cols (ixColumns i)) (tabIndexes t)"

definition alter :: "string \<Rightarrow> (tableDef \<Rightarrow> tableDef) \<Rightarrow> catalog \<Rightarrow> catalog" where
  "alter n f cat = map (\<lambda>(m, t). (m, if m = n then f t else t)) cat"

definition references :: "catalog \<Rightarrow> string \<Rightarrow> foreignKey list" where
  "references cat n = concat (map (\<lambda>(m, t). if m = n then [] else filter (\<lambda>fk. fkTable fk = n) (tabForeign t)) cat)"

definition withForeign :: "foreignKey \<Rightarrow> tableDef \<Rightarrow> tableDef" where
  "withForeign fk t =
     t\<lparr>tabForeign := tabForeign t @ [fk],
       tabIndexes := tabIndexes t @
         (if keyed_on (fkColumns fk) t then []
          else [\<lparr>ixName = fkName fk, ixColumns = fkColumns fk, ixUnique = False, ixImplicit = True\<rparr>])\<rparr>"

definition withoutIndex :: "string \<Rightarrow> tableDef \<Rightarrow> tableDef" where
  "withoutIndex k t = t\<lparr>tabIndexes := filter (\<lambda>i. ixName i \<noteq> k) (tabIndexes t)\<rparr>"

fun execDdl :: "ddl \<Rightarrow> catalog \<Rightarrow> string + catalog" where
  "execDdl (CreateTable n t) cat =
     (if n \<in> fst ` set cat then Inl ''ER_TABLE_EXISTS_ERROR'' else Inr (cat @ [(n, t)]))"
| "execDdl (AddForeignKey n fk) cat =
     (case map_of cat n of
        None \<Rightarrow> Inl ''ER_NO_SUCH_TABLE''
      | Some t \<Rightarrow>
          if list_ex (\<lambda>(m, u). list_ex (\<lambda>k. fkName k = fkName fk) (tabForeign u)) cat then Inl ''ER_FK_DUP_NAME''
          else if \<not> list_all (\<lambda>c. c \<in> colName ` set (tabColumns t)) (fkColumns fk)
          then Inl ''ER_KEY_COLUMN_DOES_NOT_EXITS''
          else (case map_of cat (fkTable fk) of
              None \<Rightarrow> Inl ''ER_FK_CANNOT_OPEN_PARENT''
            | Some p \<Rightarrow>
                if keyed_on (fkRefColumns fk) p then Inr (alter n (withForeign fk) cat)
                else Inl ''ER_FK_NO_INDEX_PARENT''))"
| "execDdl (DropForeignKey n k) cat =
     (case map_of cat n of
        None \<Rightarrow> Inl ''ER_NO_SUCH_TABLE''
      | Some t \<Rightarrow>
          if list_ex (\<lambda>fk. fkName fk = k) (tabForeign t)
          then Inr (alter n (\<lambda>t. t\<lparr>tabForeign := filter (\<lambda>fk. fkName fk \<noteq> k) (tabForeign t)\<rparr>) cat)
          else Inl ''ER_CANT_DROP_FIELD_OR_KEY'')"
| "execDdl (DropIndex k n) cat =
     (case map_of cat n of
        None \<Rightarrow> Inl ''ER_NO_SUCH_TABLE''
      | Some t \<Rightarrow>
          if \<not> list_ex (\<lambda>i. ixName i = k) (tabIndexes t) then Inl ''ER_CANT_DROP_FIELD_OR_KEY''
          else if list_all (\<lambda>fk. keyed_on (fkColumns fk) (withoutIndex k t)) (tabForeign t) \<and>
            list_all (\<lambda>fk. keyed_on (fkRefColumns fk) (withoutIndex k t)) (references cat n)
          then Inr (alter n (withoutIndex k) cat)
          else Inl ''ER_DROP_INDEX_FK'')"
| "execDdl (DropTable n) cat =
     (if n \<notin> fst ` set cat then Inl ''ER_BAD_TABLE_ERROR''
      else if references cat n \<noteq> [] then Inl ''ER_FK_CANNOT_DROP_PARENT''
      else Inr (filter (\<lambda>(m, t). m \<noteq> n) cat))"

text \<open>The queries of a migration, awaited one after the other; the first error ends it.\<close>

fun runDdl :: "ddl list \<Rightarrow> catalog \<Rightarrow> string + catalog" where
  "runDdl [] cat = Inr cat"
| "runDdl (s # ss) cat = (case execDdl s cat of Inl e \<Rightarrow> Inl e | Inr cat' \<Rightarrow> runDdl ss cat')"

section \<open>The migrations\<close>

definition plainColumn :: "string \<Rightarrow> columnType \<Rightarrow> column" where
  "plainColumn n ty =
     \<lparr>colName = n, colType = ty, colNotNull = True, colAuto = False, colDefault = None, colOnUpdate = None\<rparr>"

definition currentTimestamp :: "nat \<Rightarrow> string" where
  "currentTimestamp p = ''CURRENT_TIMESTAMP('' @ showNat p @ '')''"

definition bornColumn :: "string \<Rightarrow> nat \<Rightarrow> column" where
  "bornColumn n p = (plainColumn n (Datetime p))\<lparr>colDefault := Some (currentTimestamp p)\<rparr>"

definition touchedColumn :: "string \<Rightarrow> nat \<Rightarrow> column" where
  "touchedColumn n p = (bornColumn n p)\<lparr>colOnUpdate := Some (currentTimestamp p)\<rparr>"

definition toKey :: "string \<Rightarrow> string \<Rightarrow> string \<Rightarrow> string \<Rightarrow> foreignKey" where
  "toKey k c n r = \<lparr>fkName = k, fkColumns = [c], fkTable = n, fkRefColumns = [r], fkOnDelete = ''NO ACTION'',
     fkOnUpdate = ''NO ACTION''\<rparr>"

definition InitialSchemaUp :: "ddl list" where
  "InitialSchemaUp =
     [CreateTable ''USER_INFO'' \<lparr>tabColumns =
          [plainColumn ''UID'' (Varchar 100), plainColumn ''NICKNAME'' (Varchar 100),
           plainColumn ''INTRODUCE'' (Varchar 500), bornColumn ''CREATE_DATETIME'' 6,
           touchedColumn ''MODIFY_DATETIME'' 6],
        tabPrimary = [''UID''],
        tabIndexes = [\<lparr>ixName = ''IDX_ffe75b702eadb72fd7712eade4'', ixColumns = [''NICKNAME''], ixUnique = True,
          ixImplicit = False\<rparr>],
        tabForeign = []\<rparr>,
      CreateTable ''USER_AUTH'' \<lparr>tabColumns =
          [plainColumn ''UID'' (Varchar 100), plainColumn ''PASSWORD'' (Varchar 1000), plainColumn ''SALT'' (Varchar 50),
           plainColumn ''SOCIAL_YN'' (Char 1), plainColumn ''REFRESH_TOKEN'' (Varchar 500),
           plainColumn ''USER_ROLE'' (Enum [''ADMIN'', ''USER'']), bornColumn ''CREATE_DATETIME'' 6,
           touchedColumn ''MODIFY_DATETIME'' 6],
        tabPrimary = [''UID''], tabIndexes = [], tabForeign = []\<rparr>,
      CreateTable ''POST'' \<lparr>tabColumns =
          [(plainColumn ''POST_ID'' IntType)\<lparr>colAuto := True\<rparr>, plainColumn ''POST_UID'' (Varchar 100),
           plainColumn ''TITLE'' (Varchar 500), bornColumn ''WRITE_DATETIME'' 6, plainColumn ''CONTENTS'' TextType,
           (plainColumn ''HITS'' IntType)\<lparr>colDefault := Some ''0''\<rparr>, bornColumn ''CREATE_DATETIME'' 6,
           touchedColumn ''MODIFY_DATETIME'' 6],
        tabPrimary = [''POST_ID''],
        tabIndexes = [\<lparr>ixName = ''IDX_f451f4f930c50960c6f021fa72'', ixColumns = [''POST_UID''], ixUnique = False,
          ixImplicit = False\<rparr>],
        tabForeign = []\<rparr>,
      CreateTable ''POST_LIKE'' \<lparr>tabColumns =
          [plainColumn ''POST_ID'' IntType, plainColumn ''UID'' (Varchar 100), bornColumn ''CREATE_DATETIME'' 6,
           touchedColumn ''MODIFY_DATETIME'' 6],
        tabPrimary = [''POST_ID'', ''UID''], tabIndexes = [], tabForeign = []\<rparr>,
      AddForeignKey ''USER_INFO'' (toKey ''FK_97b38392e0343ed6c501df70847'' ''UID'' ''USER_AUTH'' ''UID''),
      AddForeignKey ''POST'' (toKey ''FK_f451f4f930c50960c6f021fa726'' ''POST_UID'' ''USER_AUTH'' ''UID''),
      AddForeignKey ''POST_LIKE'' (toKey ''FK_1f4e0f3b36ee1450948518cf404'' ''POST_ID'' ''POST'' ''POST_ID''),
      AddForeignKey ''POST_LIKE'' (toKey ''FK_f2920116bfdcb5d337ddfa2ed90'' ''UID'' ''USER_AUTH'' ''UID'')]"

definition InitialSchemaDown :: "ddl list" where
  "InitialSchemaDown =
     [DropForeignKey ''POST_LIKE'' ''FK_f2920116bfdcb5d337ddfa2ed90'',
      DropForeignKey ''POST_LIKE'' ''FK_1f4e0f3b36ee1450948518cf404'',
      DropForeignKey ''POST'' ''FK_f451f4f930c50960c6f021fa726'',
      DropForeignKey ''USER_INFO'' ''FK_97b38392e0343ed6c501df70847'',
      DropTable ''POST_LIKE'',
      DropIndex ''IDX_f451f4f930c50960c6f021fa72'' ''POST'',
      DropTable ''POST'',
      DropTable ''USER_AUTH'',
      DropIndex ''IDX_ffe75b702eadb72fd7712eade4'' ''USER_INFO'',
      DropTable ''USER_INFO'']"

definition CreateUserTableUp :: "ddl list" where
  "CreateUserTableUp =
     [CreateTable ''user'' \<lparr>tabColumns =
          [(plainColumn ''user_id'' Bigint)\<lparr>colAuto := True\<rparr>, bornColumn ''created_datetime'' 3,
           touchedColumn ''modified_datetime'' 3],
        tabPrimary = [''user_id''], tabIndexes = [], tabForeign = []\<rparr>]"

definition CreateUserTableDown :: "ddl list" where
  "CreateUserTableDown = [DropTable ''user'']"

lemmas migration_defs = InitialSchemaUp_def InitialSchemaDown_def CreateUserTableUp_def CreateUserTableDown_def
  plainColumn_def bornColumn_def touchedColumn_def toKey_def

definition migratedCatalog :: catalog where
  "migratedCatalog = (case runDdl (InitialSchemaUp @ CreateUserTableUp) [] of Inl e \<Rightarrow> [] | Inr cat \<Rightarrow> cat)"

text \<open>The tables that the two migrations leave. Only one foreign key needs an index of its own.\<close>

lemma migrations_reach:
  "runDdl (InitialSchemaUp @ CreateUserTableUp) [] = Inr
     [(''USER_INFO'', \<lparr>tabColumns =
          [plainColumn ''UID'' (Varchar 100), plainColumn ''NICKNAME'' (Varchar 100),
           plainColumn ''INTRODUCE'' (Varchar 500), bornColumn ''CREATE_DATETIME'' 6,
           touchedColumn ''MODIFY_DATETIME'' 6],
        tabPrimary = [''UID''],
        tabIndexes = [\<lparr>ixName = ''IDX_ffe75b702eadb72fd7712eade4'', ixColumns = [''NICKNAME''], ixUnique = True,
          ixImplicit = False\<rparr>],
        tabForeign = [toKey ''FK_97b38392e0343ed6c501df70847'' ''UID'' ''USER_AUTH'' ''UID'']\<rparr>),
      (''USER_AUTH'', \<lparr>tabColumns =
          [plainColumn ''UID'' (Varchar 100), plainColumn ''PASSWORD'' (Varchar 1000), plainColumn ''SALT'' (Varchar 50),
           plainColumn ''SOCIAL_YN'' (Char 1), plainColumn ''REFRESH_TOKEN'' (Varchar 500),
           plainColumn ''USER_ROLE'' (Enum [''ADMIN'', ''USER'']), bornColumn ''CREATE_DATETIME'' 6,
           touchedColumn ''MODIFY_DATETIME'' 6],
        tabPrimary = [''UID''], tabIndexes = [], tabForeign = []\<rparr>),
      (''POST'', \<lparr>tabColumns =
          [(plainColumn ''POST_ID'' IntType)\<lparr>colAuto := True\<rparr>, plainColumn ''POST_UID'' (Varchar 100),
           plainColumn ''TITLE'' (Varchar 500), bornColumn ''WRITE_DATETIME'' 6, plainColumn ''CONTENTS'' TextType,
           (plainColumn ''HITS'' IntType)\<lparr>colDefault := Some ''0''\<rparr>, bornColumn ''CREATE_DATETIME'' 6,
           touchedColumn ''MODIFY_DATETIME'' 6],
        tabPrimary = [''POST_ID''],
        tabIndexes = [\<lparr>ixName = ''IDX_f451f4f930c50960c6f021fa72'', ixColumns = [''POST_UID''], ixUnique = False,
          ixImplicit = False\<rparr>],
        tabForeign = [toKey ''FK_f451f4f930c50960c6f021fa726'' ''POST_UID'' ''USER_AUTH'' ''UID'']\<rparr>),
      (''POST_LIKE'', \<lparr>tabColumns =
          [plainColumn ''POST_ID'' IntType, plainColumn ''UID'' (Varchar 100), bornColumn ''CREATE_DATETIME'' 6,
           touchedColumn ''MODIFY_DATETIME'' 6],
        tabPrimary = [''POST_ID'', ''UID''],
        tabIndexes = [\<lparr>ixName = ''FK_f2920116bfdcb5d337ddfa2ed90'', ixColumns = [''UID''], ixUnique = False,
          ixImplicit = True\<rparr>],
        tabForeign = [toKey ''FK_1f4e0f3b36ee1450948518cf404'' ''POST_ID'' ''POST'' ''POST_ID'',
          toKey ''FK_f2920116bfdcb5d337ddfa2ed90'' ''UID'' ''USER_AUTH'' ''UID'']\<rparr>),
      (''user'', \<lparr>tabColumns =
          [(plainColumn ''user_id'' Bigint)\<lparr>colAuto := True\<rparr>, bornColumn ''created_datetime'' 3,
           touchedColumn ''modified_datetime'' 3],
        tabPrimary = [''user_id''], tabIndexes = [], tabForeign = []\<rparr>)]"
  by (simp add: InitialSchemaUp_def CreateUserTableUp_def keyed_on_def alter_def withForeign_def
      toKey_def plainColumn_def bornColumn_def touchedColumn_def)

lemmas migratedCatalog_eq = migratedCatalog_def [unfolded migrations_reach sum.case]

lemma migrations_run:
  "runDdl (InitialSchemaUp @ CreateUserTableUp) [] = Inr migratedCatalog"
  "runDdl (CreateUserTableDown @ InitialSchemaDown) migratedCatalog = Inr []"
  "runDdl InitialSchemaUp migratedCatalog = Inl ''ER_TABLE_EXISTS_ERROR''"
proof -
  show "runDdl (InitialSchemaUp @ CreateUserTableUp) [] = Inr migratedCatalog"
    by (simp add: migratedCatalog_def migrations_reach)
  show "runDdl (CreateUserTableDown @ InitialSchemaDown) migratedCatalog = Inr []"
    by (simp add: migratedCatalog_eq InitialSchemaDown_def CreateUserTableDown_def keyed_on_def alter_def
        withoutIndex_def references_def toKey_def)
  show "runDdl InitialSchemaUp migratedCatalog = Inl ''ER_TABLE_EXISTS_ERROR''"
    by (simp add: migratedCatalog_eq InitialSchemaUp_def)
qed

subsection \<open>Tables of others\<close>

text \<open>
  The tables of the service lie in a database that holds others: TypeORM's own records of the
  migrations, and whatever else was created there. The statements look at the tables they name and at
  the tables that refer to them.
\<close>

fun ddlTables :: "ddl \<Rightarrow> string list" where
  "ddlTables (CreateTable n t) = [n]"
| "ddlTables (AddForeignKey n fk) = [n, fkTable fk]"
| "ddlTables (DropForeignKey n k) = [n]"
| "ddlTables (DropIndex k n) = [n]"
| "ddlTables (DropTable n) = [n]"

fun ddlKeys :: "ddl \<Rightarrow> string list" where
  "ddlKeys (AddForeignKey n fk) = [fkName fk]"
| "ddlKeys _ = []"

definition apart :: "string list \<Rightarrow> string list \<Rightarrow> catalog \<Rightarrow> bool" where
  "apart ns ks cat \<longleftrightarrow>
     list_all (\<lambda>(m, t). m \<notin> set ns \<and> list_all (\<lambda>fk. fkTable fk \<notin> set ns \<and> fkName fk \<notin> set ks) (tabForeign t)) cat"

lemma apart_simps [simp]:
  "apart ns ks []"
  "apart ns ks ((m, t) # cat) \<longleftrightarrow>
     m \<notin> set ns \<and> list_all (\<lambda>fk. fkTable fk \<notin> set ns \<and> fkName fk \<notin> set ks) (tabForeign t) \<and> apart ns ks cat"
  by (simp_all add: apart_def)

lemma apartD:
  assumes "apart ns ks cat" and "(m, t) \<in> set cat"
  shows "m \<notin> set ns" "fk \<in> set (tabForeign t) \<Longrightarrow> fkTable fk \<notin> set ns \<and> fkName fk \<notin> set ks"
  using assms by (auto simp: apart_def list_all_iff)

lemma apart_name: "apart ns ks cat \<Longrightarrow> n \<in> set ns \<Longrightarrow> n \<notin> fst ` set cat"
  by (auto dest: apartD)

lemma apart_map_of: "apart ns ks cat \<Longrightarrow> n \<in> set ns \<Longrightarrow> map_of cat n = None"
  by (auto simp: map_of_eq_None_iff dest: apartD)

lemma apart_alter: "apart ns ks cat \<Longrightarrow> n \<in> set ns \<Longrightarrow> alter n f cat = cat"
  unfolding alter_def by (rule map_idI) (auto dest: apartD)

lemma apart_references: "apart ns ks cat \<Longrightarrow> n \<in> set ns \<Longrightarrow> references cat n = []"
  unfolding references_def by (fastforce simp: filter_empty_conv dest: apartD)

lemma apart_drop: "apart ns ks cat \<Longrightarrow> n \<in> set ns \<Longrightarrow> filter (\<lambda>(m, t). m \<noteq> n) cat = cat"
  by (rule filter_True) (auto dest: apartD)

lemma apart_key:
  "apart ns ks cat \<Longrightarrow> k \<in> set ks \<Longrightarrow> \<not> list_ex (\<lambda>(m, u). list_ex (\<lambda>fk. fkName fk = k) (tabForeign u)) cat"
  unfolding list_ex_iff by (fastforce dest: apartD)

lemma alter_append: "alter n f (cat @ cat') = alter n f cat @ alter n f cat'"
  by (simp add: alter_def)

lemma references_append: "references (cat @ cat') n = references cat n @ references cat' n"
  by (simp add: references_def)

lemmas apart_rules = apart_map_of apart_name apart_alter apart_references apart_drop apart_key

lemma execDdl_apart:
  assumes cat: "apart ns ks cat" and s: "set (ddlTables s) \<subseteq> set ns" "set (ddlKeys s) \<subseteq> set ks"
  shows "execDdl s (cat @ new) = map_sum id ((@) cat) (execDdl s new)"
  using s apart_rules [OF cat]
  by (cases s) (auto simp: map_add_def alter_append references_append split: option.split)

lemma runDdl_apart:
  assumes "apart ns ks cat" "\<forall>s \<in> set ss. set (ddlTables s) \<subseteq> set ns \<and> set (ddlKeys s) \<subseteq> set ks"
  shows "runDdl ss (cat @ new) = map_sum id ((@) cat) (runDdl ss new)"
  using assms(2) by (induction ss arbitrary: new)
    (simp_all add: execDdl_apart [OF assms(1)] split: sum.split)

definition migrationTables :: "string list" where
  "migrationTables = [''USER_INFO'', ''USER_AUTH'', ''POST'', ''POST_LIKE'', ''user'']"

definition migrationKeys :: "string list" where
  "migrationKeys = [''FK_97b38392e0343ed6c501df70847'', ''FK_f451f4f930c50960c6f021fa726'',
     ''FK_1f4e0f3b36ee1450948518cf404'', ''FK_f2920116bfdcb5d337ddfa2ed90'']"

lemma migrations_within:
  "\<forall>s \<in> set (InitialSchemaUp @ CreateUserTableUp @ CreateUserTableDown @ InitialSchemaDown).
     set (ddlTables s) \<subseteq> set migrationTables \<and> set (ddlKeys s) \<subseteq> set migrationKeys"
  by (simp add: migration_defs migrationTables_def migrationKeys_def)

lemma migrations_apart:
  assumes "apart migrationTables migrationKeys cat"
    and "set ss \<subseteq> set (InitialSchemaUp @ CreateUserTableUp @ CreateUserTableDown @ InitialSchemaDown)"
  shows "runDdl ss (cat @ new) = map_sum id ((@) cat) (runDdl ss new)"
  using runDdl_apart [OF assms(1)] migrations_within assms(2) by (metis subsetD)

text \<open>C35: The migrations and their reversals are inverse to each other. In a database without the tables of
  the service all statements of the two migrations succeed, and add the tables and nothing else; the
  two reversals, run in the opposite order, succeed on that database (no index or table is dropped
  while a foreign key still needs it) and leave the database as it was before; and the migrations
  cannot be run a second time.
\<close>

theorem reverting_restores_the_schema:
  assumes "apart migrationTables migrationKeys cat"
  shows "runDdl (InitialSchemaUp @ CreateUserTableUp) cat = Inr (cat @ migratedCatalog) \<and>
    runDdl (CreateUserTableDown @ InitialSchemaDown) (cat @ migratedCatalog) = Inr cat \<and>
    runDdl InitialSchemaUp (cat @ migratedCatalog) = Inl ''ER_TABLE_EXISTS_ERROR''"
  using migrations_apart [OF assms, of "InitialSchemaUp @ CreateUserTableUp" "[]"]
    migrations_apart [OF assms, of "CreateUserTableDown @ InitialSchemaDown" migratedCatalog]
    migrations_apart [OF assms, of InitialSchemaUp migratedCatalog]
  by (auto simp: migrations_run)

text \<open>A database that holds TypeORM's table of migrations.\<close>

definition migrationsTable :: tableDef where
  "migrationsTable = \<lparr>tabColumns = [(plainColumn ''id'' IntType)\<lparr>colAuto := True\<rparr>, plainColumn ''timestamp'' Bigint,
       plainColumn ''name'' (Varchar 255)], tabPrimary = [''id''], tabIndexes = [], tabForeign = []\<rparr>"

theorem reverting_restores_the_schema_witness:
  "runDdl (CreateUserTableDown @ InitialSchemaDown) ([(''migrations'', migrationsTable)] @ migratedCatalog) =
     Inr [(''migrations'', migrationsTable)]"
  using reverting_restores_the_schema [of "[(''migrations'', migrationsTable)]"]
  by (simp add: migrationTables_def migrationsTable_def)

end
