(* ===== verification/Schema.thy ===== *)
theory Schema
  imports Migrations
begin

text \<open>
  The entities' decorators (\<open>user/entities/\<close>, \<open>blog/entities/\<close>) as data, and the table TypeORM derives
  from them. The defaults of the MySQL driver (the column type of a text and of a number, the
  precision of a time) are a parameter with their documented values as a hypothesis.
\<close>

section \<open>Decorators\<close>

text \<open>The type of the decorated property, which decides the column type when none is given.\<close>

datatype propertyType = TsString | TsNumber | TsDate | TsEnum "string list"

datatype columnDecorator =
    Column | PrimaryColumn | PrimaryGeneratedColumn | CreateDateColumn | UpdateDateColumn

record decorated =
  decProperty :: string
  decBy :: columnDecorator
  decName :: string
  decTs :: propertyType
  decType :: "string option"
  decLength :: "nat option"
  decPrecision :: "nat option"
  decDefault :: "string option"
  decIndex :: bool

text \<open>\<open>@JoinColumn\<close> on the owning side of a relation: the column, and the property of the other entity.\<close>

record join =
  joinColumn :: string
  joinEntity :: string
  joinProperty :: string
  joinOnDelete :: "string option"

record entityDef =
  entTable :: string
  entColumns :: "decorated list"
  entUnique :: "string list list"
  entJoins :: "join list"

section \<open>The derived tables\<close>

record mysqlDefaults =
  defaultText :: "nat \<Rightarrow> columnType"
  defaultNumber :: columnType
  defaultLength :: nat
  defaultPrecision :: nat

definition documentedDefaults :: mysqlDefaults where
  "documentedDefaults = \<lparr>defaultText = Varchar, defaultNumber = IntType, defaultLength = 255, defaultPrecision = 6\<rparr>"

definition typeOf :: "mysqlDefaults \<Rightarrow> decorated \<Rightarrow> columnType" where
  "typeOf d c =
     (case decType c of
        None \<Rightarrow>
          (case decTs c of
             TsString \<Rightarrow> defaultText d (case decLength c of None \<Rightarrow> defaultLength d | Some n \<Rightarrow> n)
           | TsNumber \<Rightarrow> defaultNumber d
           | TsDate \<Rightarrow> Datetime (defaultPrecision d)
           | TsEnum vs \<Rightarrow> Enum vs)
      | Some ty \<Rightarrow>
          if ty = ''char'' then Char (case decLength c of None \<Rightarrow> defaultLength d | Some n \<Rightarrow> n)
          else if ty = ''text'' then TextType
          else if ty = ''bigint'' then Bigint
          else if ty = ''datetime''
          then Datetime (case decPrecision c of None \<Rightarrow> defaultPrecision d | Some p \<Rightarrow> p)
          else (case decTs c of TsEnum vs \<Rightarrow> Enum vs | _ \<Rightarrow> defaultText d (defaultLength d)))"

definition timestampFor :: "mysqlDefaults \<Rightarrow> decorated \<Rightarrow> string" where
  "timestampFor d c = currentTimestamp (case typeOf d c of Datetime p \<Rightarrow> p | _ \<Rightarrow> defaultPrecision d)"

definition columnFor :: "mysqlDefaults \<Rightarrow> decorated \<Rightarrow> column" where
  "columnFor d c =
     \<lparr>colName = decName c, colType = typeOf d c, colNotNull = True, colAuto = (decBy c = PrimaryGeneratedColumn),
      colDefault = (if decBy c = CreateDateColumn \<or> decBy c = UpdateDateColumn then Some (timestampFor d c)
                    else decDefault c),
      colOnUpdate = (if decBy c = UpdateDateColumn then Some (timestampFor d c) else None)\<rparr>"

definition nameOf :: "entityDef \<Rightarrow> string \<Rightarrow> string" where
  "nameOf e p = (case find (\<lambda>c. decProperty c = p) (entColumns e) of None \<Rightarrow> p | Some c \<Rightarrow> decName c)"

text \<open>
  Names of constraints, and the indexes MySQL adds by itself, are no part of the comparison: the
  names are hashes that TypeORM computes.
\<close>

record tableShape =
  shColumns :: "column list"
  shPrimary :: "string list"
  shUnique :: "string list list"
  shIndexes :: "string list list"
  shForeign :: "(string list \<times> string \<times> string list \<times> string) list"

definition shapeOf :: "tableDef \<Rightarrow> tableShape" where
  "shapeOf t =
     (let declared = filter (\<lambda>i. \<not> ixImplicit i) (tabIndexes t) in
      \<lparr>shColumns = tabColumns t, shPrimary = tabPrimary t,
       shUnique = map ixColumns (filter ixUnique declared),
       shIndexes = map ixColumns (filter (\<lambda>i. \<not> ixUnique i) declared),
       shForeign = map (\<lambda>fk. (fkColumns fk, fkTable fk, fkRefColumns fk, fkOnDelete fk)) (tabForeign t)\<rparr>)"

definition shapeFor :: "mysqlDefaults \<Rightarrow> entityDef list \<Rightarrow> entityDef \<Rightarrow> tableShape" where
  "shapeFor d es e =
     \<lparr>shColumns = map (columnFor d) (entColumns e),
      shPrimary = map decName (filter (\<lambda>c. decBy c = PrimaryColumn \<or> decBy c = PrimaryGeneratedColumn) (entColumns e)),
      shUnique = map (map (nameOf e)) (entUnique e),
      shIndexes = map (\<lambda>c. [decName c]) (filter decIndex (entColumns e)),
      shForeign = map (\<lambda>j. ([joinColumn j], joinEntity j,
          [case find (\<lambda>t. entTable t = joinEntity j) es of None \<Rightarrow> joinProperty j | Some t \<Rightarrow> nameOf t (joinProperty j)],
          case joinOnDelete j of None \<Rightarrow> ''NO ACTION'' | Some a \<Rightarrow> a)) (entJoins e)\<rparr>"

section \<open>The entities\<close>

definition decorate :: "columnDecorator \<Rightarrow> string \<Rightarrow> string \<Rightarrow> propertyType \<Rightarrow> decorated" where
  "decorate k p n ts = \<lparr>decProperty = p, decBy = k, decName = n, decTs = ts, decType = None, decLength = None,
     decPrecision = None, decDefault = None, decIndex = False\<rparr>"

definition ofLength :: "nat \<Rightarrow> decorated \<Rightarrow> decorated" where
  "ofLength n c = c\<lparr>decLength := Some n\<rparr>"

definition ofType :: "string \<Rightarrow> decorated \<Rightarrow> decorated" where
  "ofType ty c = c\<lparr>decType := Some ty\<rparr>"

definition createDatetime :: decorated where
  "createDatetime = ofType ''datetime'' (decorate CreateDateColumn ''createDatetime'' ''CREATE_DATETIME'' TsDate)"

definition modifyDatetime :: decorated where
  "modifyDatetime = ofType ''datetime'' (decorate UpdateDateColumn ''modifyDatetime'' ''MODIFY_DATETIME'' TsDate)"

definition joinTo :: "string \<Rightarrow> string \<Rightarrow> string \<Rightarrow> join" where
  "joinTo c t p = \<lparr>joinColumn = c, joinEntity = t, joinProperty = p, joinOnDelete = None\<rparr>"

definition UserAuthTable :: entityDef where
  "UserAuthTable =
     \<lparr>entTable = ''USER_AUTH'',
      entColumns =
        [ofLength 100 (decorate PrimaryColumn ''uid'' ''UID'' TsString),
         ofLength 1000 (decorate Column ''password'' ''PASSWORD'' TsString),
         ofLength 50 (decorate Column ''salt'' ''SALT'' TsString),
         ofLength 1 (ofType ''char'' (decorate Column ''socialYN'' ''SOCIAL_YN'' TsString)),
         ofLength 500 (decorate Column ''refreshToken'' ''REFRESH_TOKEN'' TsString),
         ofType ''enum'' (decorate Column ''userRole'' ''USER_ROLE'' (TsEnum [''ADMIN'', ''USER''])),
         createDatetime, modifyDatetime],
      entUnique = [], entJoins = []\<rparr>"

definition UserInfoTable :: entityDef where
  "UserInfoTable =
     \<lparr>entTable = ''USER_INFO'',
      entColumns =
        [ofLength 100 (decorate PrimaryColumn ''uid'' ''UID'' TsString),
         ofLength 100 (decorate Column ''nickname'' ''NICKNAME'' TsString),
         ofLength 500 (decorate Column ''introduce'' ''INTRODUCE'' TsString),
         createDatetime, modifyDatetime],
      entUnique = [[''nickname'']], entJoins = [joinTo ''UID'' ''USER_AUTH'' ''uid'']\<rparr>"

definition PostTable :: entityDef where
  "PostTable =
     \<lparr>entTable = ''POST'',
      entColumns =
        [decorate PrimaryGeneratedColumn ''postId'' ''POST_ID'' TsNumber,
         (ofLength 100 (decorate Column ''postUid'' ''POST_UID'' TsString))\<lparr>decIndex := True\<rparr>,
         ofLength 500 (decorate Column ''title'' ''TITLE'' TsString),
         ofType ''datetime'' (decorate CreateDateColumn ''writeDatetime'' ''WRITE_DATETIME'' TsDate),
         ofType ''text'' (decorate Column ''contents'' ''CONTENTS'' TsString),
         (decorate Column ''hits'' ''HITS'' TsNumber)\<lparr>decDefault := Some ''0''\<rparr>,
         createDatetime, modifyDatetime],
      entUnique = [], entJoins = [joinTo ''POST_UID'' ''USER_AUTH'' ''uid'']\<rparr>"

definition PostLikeTable :: entityDef where
  "PostLikeTable =
     \<lparr>entTable = ''POST_LIKE'',
      entColumns =
        [decorate PrimaryColumn ''postId'' ''POST_ID'' TsNumber,
         ofLength 100 (decorate PrimaryColumn ''uid'' ''UID'' TsString),
         createDatetime, modifyDatetime],
      entUnique = [],
      entJoins = [joinTo ''POST_ID'' ''POST'' ''postId'', joinTo ''UID'' ''USER_AUTH'' ''uid'']\<rparr>"

definition UserTable :: entityDef where
  "UserTable =
     \<lparr>entTable = ''user'',
      entColumns =
        [ofType ''bigint'' (decorate PrimaryGeneratedColumn ''userId'' ''user_id'' TsString),
         (ofType ''datetime'' (decorate CreateDateColumn ''createdDatetime'' ''created_datetime'' TsDate))\<lparr>decPrecision := Some 3\<rparr>,
         (ofType ''datetime'' (decorate UpdateDateColumn ''modifiedDatetime'' ''modified_datetime'' TsDate))\<lparr>decPrecision := Some 3\<rparr>],
      entUnique = [], entJoins = []\<rparr>"

definition entityDefs :: "entityDef list" where
  "entityDefs = [UserInfoTable, UserAuthTable, PostTable, PostLikeTable, UserTable]"

lemmas entity_defs = entityDefs_def UserInfoTable_def UserAuthTable_def PostTable_def PostLikeTable_def UserTable_def

lemmas shape_defs = shapeOf_def shapeFor_def columnFor_def timestampFor_def typeOf_def nameOf_def documentedDefaults_def
  decorate_def ofLength_def ofType_def createDatetime_def modifyDatetime_def joinTo_def
  toKey_def plainColumn_def bornColumn_def touchedColumn_def

section \<open>Migrations and entities agree\<close>



section \<open>Column lengths\<close>

text \<open>
  The lengths the reference database of theory \<open>Orm\<close> checks are those of the migrated columns.
\<close>

definition lengthIn :: "catalog \<Rightarrow> string \<Rightarrow> string \<Rightarrow> nat option" where
  "lengthIn cat n c =
     (case map_of cat n of
        None \<Rightarrow> None
      | Some t \<Rightarrow>
          (case find (\<lambda>k. colName k = c) (tabColumns t) of
             Some k \<Rightarrow> (case colType k of Varchar l \<Rightarrow> Some l | Char l \<Rightarrow> Some l | _ \<Rightarrow> None)
           | None \<Rightarrow> None))"

definition fitsColumn :: "string \<Rightarrow> string \<times> string \<Rightarrow> bool" where
  "fitsColumn n cv = (case lengthIn migratedCatalog n (fst cv) of None \<Rightarrow> True | Some l \<Rightarrow> length (snd cv) \<le> l)"

lemma migrated_lengths:
  "lengthIn migratedCatalog ''USER_AUTH'' ''UID'' = Some 100"
  "lengthIn migratedCatalog ''USER_AUTH'' ''PASSWORD'' = Some 1000"
  "lengthIn migratedCatalog ''USER_AUTH'' ''SALT'' = Some 50"
  "lengthIn migratedCatalog ''USER_AUTH'' ''SOCIAL_YN'' = Some 1"
  "lengthIn migratedCatalog ''USER_AUTH'' ''REFRESH_TOKEN'' = Some 500"
  "lengthIn migratedCatalog ''USER_INFO'' ''UID'' = Some 100"
  "lengthIn migratedCatalog ''USER_INFO'' ''NICKNAME'' = Some 100"
  "lengthIn migratedCatalog ''USER_INFO'' ''INTRODUCE'' = Some 500"
  "lengthIn migratedCatalog ''POST'' ''POST_UID'' = Some 100"
  "lengthIn migratedCatalog ''POST'' ''TITLE'' = Some 500"
  "lengthIn migratedCatalog ''POST'' ''CONTENTS'' = None"
  by (simp_all add: lengthIn_def migratedCatalog_eq plainColumn_def bornColumn_def touchedColumn_def)

lemma fits_migrated_columns:
  "fitsUserAuth r \<longleftrightarrow> list_all (fitsColumn ''USER_AUTH'')
     [(''UID'', uaUid r), (''PASSWORD'', uaPassword r), (''SALT'', uaSalt r), (''SOCIAL_YN'', uaSocialYN r),
      (''REFRESH_TOKEN'', uaRefreshToken r)]"
  "fitsUserInfo i \<longleftrightarrow> list_all (fitsColumn ''USER_INFO'')
     [(''UID'', uiUid i), (''NICKNAME'', uiNickname i), (''INTRODUCE'', uiIntroduce i)]"
  "fitsPost p \<longleftrightarrow> list_all (fitsColumn ''POST'')
     [(''POST_UID'', peUid p), (''TITLE'', peTitle p), (''CONTENTS'', peContents p)] \<and>
     utf8Length (peContents p) \<le> 65535"
  by (simp_all add: fitsColumn_def migrated_lengths fitsUserAuth_def fitsUserInfo_def fitsPost_def)

end
