(* ===== verification/Config.thy ===== *)
theory Config
  imports App
begin

text \<open>
  The configuration (\<open>config/authConfig.ts\<close>, \<open>config/validationEnv.ts\<close>, \<open>config/typeOrmConfig.ts\<close>, the
  throttler options of \<open>app.module.ts\<close>) as functions of the environment variables. The \<open>ms\<close> package
  and the schema library's conversion of numbers are parameters.
\<close>

type_synonym environment = "string \<Rightarrow> string option"

text \<open>\<open>process.env.X || d\<close>: an empty text falls back to the default, too.\<close>

definition textOr :: "environment \<Rightarrow> string \<Rightarrow> string \<Rightarrow> string" where
  "textOr env x d = (case env x of None \<Rightarrow> d | Some v \<Rightarrow> if v = '''' then d else v)"

text \<open>\<open>process.env.X!\<close>: the validation below makes sure that it is there.\<close>

definition textOf :: "environment \<Rightarrow> string \<Rightarrow> string" where
  "textOf env x = (case env x of None \<Rightarrow> '''' | Some v \<Rightarrow> v)"

section \<open>Tokens and cookies\<close>

definition authConfigOf :: "environment \<Rightarrow> authConfig" where
  "authConfigOf env =
     \<lparr>pkSecretKey = textOf env ''PK_SECRET_KEY'', jwtSecretKey = textOf env ''JWT_SECRET_KEY'',
      jwtIssuer = textOf env ''JWT_ISSUER'',
      accessTokenExpireTime = textOr env ''JWT_ACCESSTOKEN_EXPIRE_TIME'' ''1h'',
      refreshTokenExpireTime = textOr env ''JWT_REFRESHTOKEN_EXPIRE_TIME'' ''30d'',
      googleClientId = textOf env ''GOOGLE_CLIENT_ID''\<rparr>"

definition cookieSettingsOf :: "(string \<Rightarrow> int) \<Rightarrow> environment \<Rightarrow> cookieSettings" where
  "cookieSettingsOf millis env =
     \<lparr>cookieMaxAge = (case env ''COOKIE_MAX_AGE'' of
          None \<Rightarrow> 30 * 24 * 60 * 60 * 1000
        | Some v \<Rightarrow> if v = '''' then 30 * 24 * 60 * 60 * 1000 else millis v),
      cookieSecure = (env ''NODE_ENV'' = Some ''production''),
      cookieSameSite = textOr env ''COOKIE_SAME_SITE'' ''strict''\<rparr>"

section \<open>Limits and cache\<close>

record throttlerOptions =
  throttleTtl :: int
  throttleLimit :: int
  throttleSkipped :: bool

definition throttlerOptionsOf :: "(string \<Rightarrow> int) \<Rightarrow> environment \<Rightarrow> throttlerOptions" where
  "throttlerOptionsOf number env =
     \<lparr>throttleTtl = (case env ''THROTTLE_DEFAULT_TTL'' of None \<Rightarrow> 60000 | Some v \<Rightarrow> number v),
      throttleLimit = (case env ''THROTTLE_DEFAULT_LIMIT'' of None \<Rightarrow> 200 | Some v \<Rightarrow> number v),
      throttleSkipped = (env ''NODE_ENV'' = Some ''test'')\<rparr>"

text \<open>The query cache is on except in tests: the field \<open>cacheOn\<close> of the reference database.\<close>

definition queryCacheOn :: "environment \<Rightarrow> bool" where
  "queryCacheOn env \<longleftrightarrow> env ''NODE_ENV'' \<noteq> Some ''test''"

section \<open>The validation of the environment\<close>

datatype envRule = Text | TextOfLength nat | Duration string | PositiveInteger | OneOf "string list"

text \<open>The pattern of digits with an optional unit.\<close>

definition durationText :: "string \<Rightarrow> string \<Rightarrow> bool" where
  "durationText units s =
     (let ds = takeWhile isDigit s; rest = dropWhile isDigit s in
      ds \<noteq> [] \<and> (rest = [] \<or> (case rest of [u] \<Rightarrow> u \<in> set units | _ \<Rightarrow> False)))"

fun meetsRule :: "(string \<Rightarrow> bool) \<Rightarrow> envRule \<Rightarrow> string \<Rightarrow> bool" where
  "meetsRule positive Text v = (v \<noteq> '''')"
| "meetsRule positive (TextOfLength n) v = (length v = n)"
| "meetsRule positive (Duration units) v = (durationText units v \<or> positive v)"
| "meetsRule positive PositiveInteger v = positive v"
| "meetsRule positive (OneOf vs) v = (v \<in> set vs)"

text \<open>Variable, whether it is required, and its rule.\<close>

definition validationEnv :: "(string \<times> bool \<times> envRule) list" where
  "validationEnv =
     [(''PK_SECRET_KEY'', True, TextOfLength 16), (''JWT_SECRET_KEY'', True, Text), (''JWT_ISSUER'', True, Text),
      (''JWT_ACCESSTOKEN_EXPIRE_TIME'', True, Duration ''smhd''),
      (''JWT_REFRESHTOKEN_EXPIRE_TIME'', True, Duration ''smhd''),
      (''COOKIE_MAX_AGE'', False, Duration ''smhdwy''),
      (''COOKIE_SAME_SITE'', False, OneOf [''strict'', ''lax'', ''none'']),
      (''THROTTLE_DEFAULT_TTL'', False, PositiveInteger), (''THROTTLE_DEFAULT_LIMIT'', False, PositiveInteger),
      (''GOOGLE_CLIENT_ID'', True, Text), (''REDIS_HOST'', True, Text), (''REDIS_PORT'', True, PositiveInteger),
      (''REDIS_PASSWORD'', True, Text), (''DB_HOST'', True, Text), (''DB_PORT'', True, PositiveInteger),
      (''DB_USERNAME'', True, Text), (''DB_PASSWORD'', True, Text), (''DB_DATABASE'', True, Text)]"

definition validEnvironment :: "(string \<Rightarrow> bool) \<Rightarrow> environment \<Rightarrow> bool" where
  "validEnvironment positive env \<longleftrightarrow>
     list_all (\<lambda>(x, required, rule).
       (case env x of None \<Rightarrow> \<not> required | Some v \<Rightarrow> meetsRule positive rule v)) validationEnv"

lemma valid_variable:
  assumes "validEnvironment positive env" and "(x, required, rule) \<in> set validationEnv"
  shows "(env x = None \<and> \<not> required) \<or> (\<exists>v. env x = Some v \<and> meetsRule positive rule v)"
  using assms unfolding validEnvironment_def list_all_iff by (cases "env x") fastforce+

text \<open>In a valid environment the key of the identifiers has 16 characters, tokens have the configured lifetimes.\<close>

lemma valid_keys:
  assumes "validEnvironment positive env"
  shows "length (pkSecretKey (authConfigOf env)) = 16" "jwtSecretKey (authConfigOf env) \<noteq> ''''"
  using valid_variable [OF assms, of "''PK_SECRET_KEY''" True "TextOfLength 16"]
    valid_variable [OF assms, of "''JWT_SECRET_KEY''" True Text]
  by (auto simp: validationEnv_def authConfigOf_def textOf_def)

lemma valid_limits:
  assumes "validEnvironment positive env" and "\<And>v. positive v \<Longrightarrow> 0 < number v"
  shows "0 < throttleTtl (throttlerOptionsOf number env)" "0 < throttleLimit (throttlerOptionsOf number env)"
  using valid_variable [OF assms(1), of "''THROTTLE_DEFAULT_TTL''" False PositiveInteger]
    valid_variable [OF assms(1), of "''THROTTLE_DEFAULT_LIMIT''" False PositiveInteger] assms(2)
  by (auto simp: validationEnv_def throttlerOptionsOf_def split: option.split)

end
