(* ===== verification/Setup.thy ===== *)
theory Setup
  imports Config
begin

text \<open>
  How the server and the migration tool are set up: where the environment comes from
  (\<open>app.module.ts\<close>, \<open>config/data-source.ts\<close>), the connections to MySQL and Redis
  (\<open>config/typeOrmConfig.ts\<close>, \<open>config/data-source.ts\<close>, \<open>redis/\<close>), the log transports
  (\<open>config/winstonConfig.ts\<close>) and the options of the application (\<open>config/app-setup.ts\<close>,
  \<open>main.ts\<close>). The drivers are not under \<open>src/\<close>; the model holds the options they are given. The
  contents of the environment files and JavaScript's \<open>Number(text)\<close> (\<open>None\<close> for NaN) are parameters.
\<close>

section \<open>Paths and the environment\<close>

type_synonym path = "string list"

definition joinPath :: "path \<Rightarrow> string list \<Rightarrow> path" where
  "joinPath p ss = foldl (\<lambda>p s. if s = ''..'' then butlast p else p @ [s]) p ss"

lemma joinPath_simps [simp]:
  "joinPath p [] = p"
  "joinPath p (s # ss) = joinPath (if s = ''..'' then butlast p else p @ [s]) ss"
  by (simp_all add: joinPath_def)

text \<open>What is set in the process is not overridden by the file.\<close>

definition loadEnv :: "(path \<Rightarrow> environment) \<Rightarrow> path \<Rightarrow> environment \<Rightarrow> environment" where
  "loadEnv files p processEnv = files p ++ processEnv"

text \<open>A template literal prints an absent value as \<open>undefined\<close>.\<close>

definition envFilePath :: "environment \<Rightarrow> string list" where
  "envFilePath processEnv =
     [''env'', ''.'' @ (case processEnv ''NODE_ENV'' of None \<Rightarrow> ''undefined'' | Some v \<Rightarrow> v) @ ''.env'']"

definition serverEnv :: "(path \<Rightarrow> environment) \<Rightarrow> path \<Rightarrow> environment \<Rightarrow> environment" where
  "serverEnv files cwd processEnv = loadEnv files (joinPath cwd (envFilePath processEnv)) processEnv"

definition nodeEnv :: "environment \<Rightarrow> string" where
  "nodeEnv processEnv = (case processEnv ''NODE_ENV'' of None \<Rightarrow> ''development'' | Some v \<Rightarrow> v)"

definition envFile :: "environment \<Rightarrow> string" where
  "envFile processEnv = (if nodeEnv processEnv = ''test'' then ''.test.env'' else ''.development.env'')"

definition toolEnv :: "(path \<Rightarrow> environment) \<Rightarrow> path \<Rightarrow> environment \<Rightarrow> environment" where
  "toolEnv files dirname processEnv =
     loadEnv files (joinPath dirname [''..'', ''..'', ''env'', envFile processEnv]) processEnv"

section \<open>Connections\<close>

definition Number :: "(string \<Rightarrow> int option) \<Rightarrow> string option \<Rightarrow> int option" where
  "Number number v = (case v of None \<Rightarrow> None | Some s \<Rightarrow> number s)"

record redisOptions =
  redisHost :: "string option"
  redisPort :: "int option"
  redisPassword :: "string option"

datatype entitySource = AutoLoadEntities | EntityFiles path

record queryCacheOptions =
  cacheRedis :: redisOptions
  cacheIgnoreErrors :: bool

record mysqlOptions =
  myHost :: "string option"
  myPort :: "int option"
  myUsername :: "string option"
  myPassword :: "string option"
  myDatabase :: "string option"
  myEntities :: entitySource
  mySynchronize :: bool
  myMigrationsRun :: bool
  myMigrations :: path
  myCache :: "queryCacheOptions option"

definition redisClientProvider :: "(string \<Rightarrow> int option) \<Rightarrow> environment \<Rightarrow> redisOptions" where
  "redisClientProvider number env =
     \<lparr>redisHost = env ''REDIS_HOST'', redisPort = Number number (env ''REDIS_PORT''),
      redisPassword = env ''REDIS_PASSWORD''\<rparr>"

definition typeOrmConfig :: "(string \<Rightarrow> int option) \<Rightarrow> path \<Rightarrow> environment \<Rightarrow> mysqlOptions" where
  "typeOrmConfig number dirname env =
     \<lparr>myHost = env ''DB_HOST'', myPort = Number number (env ''DB_PORT''), myUsername = env ''DB_USERNAME'',
      myPassword = env ''DB_PASSWORD'', myDatabase = env ''DB_DATABASE'', myEntities = AutoLoadEntities,
      mySynchronize = False, myMigrationsRun = False,
      myMigrations = joinPath dirname [''..'', ''migrations'', ''*.js''],
      myCache =
        (if env ''NODE_ENV'' = Some ''test'' then None
         else Some \<lparr>cacheRedis = \<lparr>redisHost = env ''REDIS_HOST'', redisPort = Number number (env ''REDIS_PORT''),
                     redisPassword = env ''REDIS_PASSWORD''\<rparr>,
                   cacheIgnoreErrors = True\<rparr>)\<rparr>"

definition REQUIRED_DB_KEYS :: "string list" where
  "REQUIRED_DB_KEYS = [''DB_HOST'', ''DB_PORT'', ''DB_USERNAME'', ''DB_PASSWORD'', ''DB_DATABASE'']"

text \<open>The error the module throws while it loads, with the keys and the file its message names.\<close>

datatype setupError = MissingKeys "string list" string

definition missingKeys :: "environment \<Rightarrow> string list" where
  "missingKeys env = filter (\<lambda>key. env key = None \<or> env key = Some '''') REQUIRED_DB_KEYS"

definition dataSource ::
  "(string \<Rightarrow> int option) \<Rightarrow> (path \<Rightarrow> environment) \<Rightarrow> path \<Rightarrow> environment \<Rightarrow> setupError + mysqlOptions" where
  "dataSource number files dirname processEnv =
     (let env = toolEnv files dirname processEnv; missing = missingKeys env; srcRoot = joinPath dirname [''..''] in
      if missing \<noteq> [] then Inl (MissingKeys missing (envFile processEnv))
      else Inr
        \<lparr>myHost = env ''DB_HOST'', myPort = Number number (env ''DB_PORT''), myUsername = env ''DB_USERNAME'',
         myPassword = env ''DB_PASSWORD'', myDatabase = env ''DB_DATABASE'',
         myEntities = EntityFiles (joinPath srcRoot [''**'', ''*.entity.ts'']),
         mySynchronize = False, myMigrationsRun = False,
         myMigrations = joinPath srcRoot [''migrations'', ''*.ts''], myCache = None\<rparr>)"

lemmas setup_defs = loadEnv_def envFilePath_def serverEnv_def nodeEnv_def envFile_def toolEnv_def Number_def
  redisClientProvider_def typeOrmConfig_def REQUIRED_DB_KEYS_def missingKeys_def dataSource_def

text \<open>The Redis client is closed with the application, once.\<close>

record redisClient =
  clientStatus :: string

definition onModuleDestroy :: "(redisClient \<Rightarrow> 'e + redisClient) \<Rightarrow> redisClient \<Rightarrow> 'e + redisClient" where
  "onModuleDestroy quit client = (if clientStatus client \<noteq> ''end'' then quit client else Inr client)"

lemma shutdown_once:
  assumes "\<And>c. clientStatus c \<noteq> ''end'' \<Longrightarrow> quit c = Inr (c\<lparr>clientStatus := ''end''\<rparr>)"
  shows "onModuleDestroy quit client = Inr (client\<lparr>clientStatus := ''end''\<rparr>)"
  using assms [of client] by (cases client) (auto simp: onModuleDestroy_def)

section \<open>Logging\<close>

record dailyOptions =
  dailyLevel :: string
  dailyDatePattern :: string
  dailyDirname :: string
  dailyFilename :: string
  dailyMaxFiles :: nat
  dailyZipped :: bool

datatype transport = ConsoleTransport string | DailyTransport dailyOptions

datatype logFormat = Timestamp | NestLike string bool

record loggerOptions =
  logFormats :: "logFormat list"
  logTransports :: "transport list"

definition dailyOption :: "string \<Rightarrow> dailyOptions" where
  "dailyOption level =
     \<lparr>dailyLevel = level, dailyDatePattern = ''YYYY-MM-DD'', dailyDirname = ''logs/'' @ level,
      dailyFilename = ''%DATE%.'' @ level @ ''.log'', dailyMaxFiles = 30, dailyZipped = True\<rparr>"

definition winstonConfig :: "environment \<Rightarrow> loggerOptions" where
  "winstonConfig env =
     (let isTestEnv = (env ''NODE_ENV'' = Some ''test''); isProdEnv = (env ''NODE_ENV'' = Some ''production'') in
      \<lparr>logFormats = [Timestamp, NestLike ''PersonalBlog'' True],
       logTransports = ConsoleTransport (if isProdEnv then ''info'' else ''silly'') #
         (if isTestEnv then []
          else [DailyTransport (if isProdEnv then dailyOption ''error'' else dailyOption ''info'')])\<rparr>)"

text \<open>Winston's levels, the most severe first; a transport writes what is at least as severe as its own level.\<close>

definition levels :: "string list" where
  "levels = [''error'', ''warn'', ''info'', ''http'', ''verbose'', ''debug'', ''silly'']"

definition writes :: "string \<Rightarrow> transport \<Rightarrow> bool" where
  "writes level t =
     (case t of ConsoleTransport l \<Rightarrow> level \<in> set (takeWhile (\<lambda>x. x \<noteq> l) levels @ [l])
      | DailyTransport d \<Rightarrow> level \<in> set (takeWhile (\<lambda>x. x \<noteq> dailyLevel d) levels @ [dailyLevel d]))"

lemma logged_everywhere:
  "\<exists>t \<in> set (logTransports (winstonConfig env)). writes ''error'' t \<and> writes ''warn'' t \<and> writes ''info'' t"
  by (simp add: winstonConfig_def writes_def levels_def Let_def)

lemma errors_reach_a_file:
  "(\<exists>d. DailyTransport d \<in> set (logTransports (winstonConfig env)) \<and> writes ''error'' (DailyTransport d)) \<longleftrightarrow>
     env ''NODE_ENV'' \<noteq> Some ''test''"
  by (auto simp: winstonConfig_def writes_def levels_def Let_def dailyOption_def)

section \<open>The application\<close>

record corsOptions =
  corsAnyOrigin :: bool
  corsMethods :: string
  corsCredentials :: bool

record pipeOptions =
  pipeWhitelist :: bool
  pipeTransform :: bool
  pipeImplicitConversion :: bool

record apiDocument =
  docTitle :: string
  docDescription :: string
  docVersion :: string
  docBearerAuth :: "(string \<times> (string \<times> string) list) list"
  docCookieAuth :: "string list"

datatype middleware = CookieParser

record nestApp =
  nestCors :: "corsOptions option"
  nestPipes :: "pipeOptions list"
  nestMiddleware :: "middleware list"
  nestDocuments :: "(string \<times> apiDocument) list"
  nestShutdownHooks :: bool
  nestPort :: "nat option"

definition setupApp :: "nestApp \<Rightarrow> nestApp" where
  "setupApp app =
     (let app1 = app\<lparr>nestCors := Some \<lparr>corsAnyOrigin = True, corsMethods = ''GET,HEAD,PUT,PATCH,POST,DELETE,OPTIONS'',
                       corsCredentials = True\<rparr>\<rparr>;
          app2 = app1\<lparr>nestPipes := nestPipes app1 @
                   [\<lparr>pipeWhitelist = True, pipeTransform = True, pipeImplicitConversion = True\<rparr>]\<rparr>
      in app2\<lparr>nestMiddleware := nestMiddleware app2 @ [CookieParser]\<rparr>)"

definition apiConfig :: apiDocument where
  "apiConfig =
     \<lparr>docTitle = ''Personal Blog'', docDescription = ''Backend service for personal blogging'', docVersion = ''0.1'',
      docBearerAuth = [(''accessToken'', [(''type'', ''http''), (''scheme'', ''bearer''), (''bearerFormat'', ''JWT''),
        (''name'', ''JWT''), (''description'', ''Enter JWT Token''), (''in'', ''header'')])],
      docCookieAuth = [''refreshToken'']\<rparr>"

definition createdApp :: nestApp where
  "createdApp = \<lparr>nestCors = None, nestPipes = [], nestMiddleware = [], nestDocuments = [], nestShutdownHooks = False,
     nestPort = None\<rparr>"

definition bootstrap :: nestApp where
  "bootstrap =
     (let app1 = createdApp\<lparr>nestDocuments := [(''api'', apiConfig)]\<rparr>;
          app2 = setupApp app1;
          app3 = app2\<lparr>nestShutdownHooks := True\<rparr>
      in app3\<lparr>nestPort := Some 3000\<rparr>)"

text \<open>The tests, which call \<open>setupApp\<close> alone, run with the options of the server.\<close>

lemma tests_run_with_server_options:
  "nestCors (setupApp createdApp) = nestCors bootstrap" "nestPipes (setupApp createdApp) = nestPipes bootstrap"
  "nestMiddleware (setupApp createdApp) = nestMiddleware bootstrap"
  by (simp_all add: bootstrap_def setupApp_def createdApp_def Let_def)

section \<open>The server and the migration tool\<close>

lemma same_environment:
  assumes "processEnv ''NODE_ENV'' = Some n" and "n = ''development'' \<or> n = ''test''"
  shows "toolEnv files (root @ [''src'', ''config'']) processEnv = serverEnv files root processEnv"
  using assms by (auto simp: setup_defs butlast_append)

text \<open>Without \<open>NODE_ENV\<close> the two read different files.\<close>

lemma different_environments:
  assumes "processEnv ''NODE_ENV'' = None"
  shows "toolEnv files (root @ [''src'', ''config'']) processEnv = files (root @ [''env'', ''.development.env'']) ++ processEnv"
    and "serverEnv files root processEnv = files (root @ [''env'', ''.undefined.env'']) ++ processEnv"
  using assms by (simp_all add: setup_defs butlast_append)

lemma query_cache_options:
  "queryCacheOn env \<longleftrightarrow> myCache (typeOrmConfig number dirname env) =
     Some \<lparr>cacheRedis = redisClientProvider number env, cacheIgnoreErrors = True\<rparr>"
  "\<not> queryCacheOn env \<longleftrightarrow> myCache (typeOrmConfig number dirname env) = None"
  by (simp_all add: queryCacheOn_def typeOrmConfig_def redisClientProvider_def)

lemma missing_keys_iff:
  "missingKeys env = [] \<longleftrightarrow> (\<forall>k \<in> set REQUIRED_DB_KEYS. \<exists>v. env k = Some v \<and> v \<noteq> '''')"
  by (auto simp: missingKeys_def filter_empty_conv)

lemma valid_text:
  assumes "validEnvironment positive env" and "(x, True, Text) \<in> set validationEnv"
  shows "\<exists>v. env x = Some v \<and> v \<noteq> ''''"
  using valid_variable [OF assms] by auto

lemma valid_database_keys:
  assumes valid: "validEnvironment positive env" and empty: "\<not> positive ''''"
  shows "missingKeys env = []" and "\<exists>v. env ''DB_PORT'' = Some v \<and> positive v"
proof -
  show port: "\<exists>v. env ''DB_PORT'' = Some v \<and> positive v"
    using valid_variable [OF valid, of "''DB_PORT''" True PositiveInteger] by (auto simp: validationEnv_def)
  have "\<exists>v. env k = Some v \<and> v \<noteq> ''''" if "k \<in> set REQUIRED_DB_KEYS" "k \<noteq> ''DB_PORT''" for k
    by (rule valid_text [OF valid]) (use that in \<open>auto simp: REQUIRED_DB_KEYS_def validationEnv_def\<close>)
  then show "missingKeys env = []"
    using port empty unfolding missing_keys_iff by metis
qed

text \<open>C37: In the environments \<open>development\<close> and \<open>test\<close> the migration tool works on the database of the server:
  whenever the environment the server loads passes its validation, the tool, which reads its own
  environment and does not validate it, finds every required variable; the two then have the same
  host, port (a positive number), user, password and database, the tool finds the migrations' sources
  next to the configuration, and neither of the two changes the schema by itself.
\<close>

theorem tool_uses_database_of_server:
  assumes "processEnv ''NODE_ENV'' = Some n" and "n = ''development'' \<or> n = ''test''"
    and "validEnvironment positive (serverEnv files root processEnv)"
    and "\<And>v. positive v \<Longrightarrow> v \<noteq> '''' \<and> (\<exists>p > 0. number v = Some p)"
  shows "\<exists>tool. dataSource number files (root @ [''src'', ''config'']) processEnv = Inr tool \<and>
    (let server = typeOrmConfig number dirname (serverEnv files root processEnv) in
       myHost tool = myHost server \<and> myPort tool = myPort server \<and> (\<exists>p > 0. myPort tool = Some p) \<and>
       myUsername tool = myUsername server \<and> myPassword tool = myPassword server \<and>
       myDatabase tool = myDatabase server \<and> myMigrations tool = root @ [''src'', ''migrations'', ''*.ts''] \<and>
       \<not> mySynchronize tool \<and> \<not> mySynchronize server \<and> \<not> myMigrationsRun tool \<and> \<not> myMigrationsRun server)"
proof -
  note keys = valid_database_keys [OF assms(3)]
  have "\<not> positive ''''" using assms(4) by blast
  then show ?thesis
    using keys assms(4) same_environment [where processEnv = processEnv and files = files and root = root, OF assms(1,2)]
    by (auto simp: dataSource_def typeOrmConfig_def Number_def butlast_append Let_def)
qed

text \<open>A development environment, in its file.\<close>

definition exampleFile :: "(string \<times> string) list" where
  "exampleFile =
     [(''PK_SECRET_KEY'', ''0123456789abcdef''), (''JWT_SECRET_KEY'', ''secret''), (''JWT_ISSUER'', ''blog''),
      (''JWT_ACCESSTOKEN_EXPIRE_TIME'', ''1h''), (''JWT_REFRESHTOKEN_EXPIRE_TIME'', ''30d''),
      (''GOOGLE_CLIENT_ID'', ''id''), (''REDIS_HOST'', ''redis''), (''REDIS_PORT'', ''6379''), (''REDIS_PASSWORD'', ''pw''),
      (''DB_HOST'', ''db''), (''DB_PORT'', ''3306''), (''DB_USERNAME'', ''blog''), (''DB_PASSWORD'', ''pw''),
      (''DB_DATABASE'', ''blog'')]"

theorem tool_uses_database_of_server_witness:
  "\<exists>tool. dataSource (\<lambda>v. if v = ''3306'' then Some 3306 else if v = ''6379'' then Some 6379 else None)
      (\<lambda>p. if p = [''app'', ''env'', ''.development.env''] then map_of exampleFile else Map.empty)
      [''app'', ''src'', ''config''] [''NODE_ENV'' \<mapsto> ''development''] = Inr tool \<and>
    myHost tool = Some ''db'' \<and> myPort tool = Some 3306"
proof -
  let ?number = "\<lambda>v. if v = ''3306'' then Some 3306 else if v = ''6379'' then Some 6379 else None"
  let ?positive = "\<lambda>v. v = ''3306'' \<or> v = ''6379''"
  let ?files = "\<lambda>p. if p = [''app'', ''env'', ''.development.env''] then map_of exampleFile else Map.empty"
  have "validEnvironment ?positive (serverEnv ?files [''app''] [''NODE_ENV'' \<mapsto> ''development''])"
    by (simp add: validEnvironment_def validationEnv_def setup_defs exampleFile_def durationText_def isDigit_def)
  from tool_uses_database_of_server [OF _ _ this, of "''development''" ?number "[]"]
  show ?thesis
    by (simp add: Let_def typeOrmConfig_def setup_defs exampleFile_def)
qed

end
