(* ===== verification/Modules.thy ===== *)
theory Modules
  imports App
begin

text \<open>
  The module tables (\<open>app.module.ts\<close>, \<open>blog/blog.module.ts\<close>, \<open>user/user.module.ts\<close>,
  \<open>health/health.module.ts\<close>, \<open>idempotency/idempotency.module.ts\<close>, \<open>redis/redis.module.ts\<close>) and the
  dependency injection that works on them: a token is looked up among the providers of a module, the
  exports of the modules it imports and the global modules. What library modules export, and what
  the constructors of library classes need, is a parameter. The same tables say which guards and
  filters are global, and in which order they run.
\<close>

section \<open>Tables\<close>

datatype provider =
    ClassProvider string
  | UseClass string string
  | FactoryProvider string "string list"

fun tokenOf :: "provider \<Rightarrow> string" where
  "tokenOf (ClassProvider c) = c"
| "tokenOf (UseClass t c) = t"
| "tokenOf (FactoryProvider t ds) = t"

text \<open>\<open>TypeOrmModule.forFeature\<close> makes a module of its own that exports the repositories.\<close>

datatype moduleImport = ImportModule string | ForFeature "string list"

record moduleDef =
  modName :: string
  modImports :: "moduleImport list"
  modControllers :: "string list"
  modProviders :: "provider list"
  modExports :: "string list"
  modGlobal :: bool

definition repositoryOf :: "string \<Rightarrow> string" where
  "repositoryOf e = e @ ''Repository''"

definition plainModule :: "string \<Rightarrow> moduleDef" where
  "plainModule n = \<lparr>modName = n, modImports = [], modControllers = [], modProviders = [], modExports = [],
     modGlobal = False\<rparr>"

text \<open>The options of a module that is configured by a factory, under a name of its own.\<close>

definition optionsOf :: "string \<Rightarrow> string list \<Rightarrow> provider" where
  "optionsOf n ds = FactoryProvider (n @ ''Options'') ds"

definition AppModule :: moduleDef where
  "AppModule = (plainModule ''AppModule'')\<lparr>
     modImports := map ImportModule
       [''ConfigModule'', ''TypeOrmModule'', ''WinstonModule'', ''CacheModule'', ''ThrottlerModule'',
        ''BlogModule'', ''UserModule'', ''HealthModule'', ''IdempotencyModule''],
     modControllers := [''AppController''],
     modProviders :=
       [ClassProvider ''AppService'',
        UseClass ''APP_INTERCEPTOR'' ''IdempotencyKeyInterceptor'',
        UseClass ''APP_GUARD'' ''AuthGuard'',
        UseClass ''APP_GUARD'' ''CustomThrottlerGuard'',
        UseClass ''APP_FILTER'' ''UnhandledExceptionFilter'',
        UseClass ''APP_FILTER'' ''HttpExceptionFilter'',
        UseClass ''APP_FILTER'' ''BaseExceptionFilter'']\<rparr>"

definition BlogModule :: moduleDef where
  "BlogModule = (plainModule ''BlogModule'')\<lparr>
     modImports := [ForFeature [''PostEntity'', ''PostLikeEntity'', ''UserInfoEntity'']],
     modControllers := [''PostController'', ''PostLikeController''],
     modProviders := map ClassProvider
       [''PostService'', ''PostLikeService'', ''PostRepository'', ''PostLikeRepository'', ''UserInfoService'',
        ''UserInfoRepository'', ''DecryptPrimaryKeyPipe'', ''EncryptPrimaryKeyInterceptor'']\<rparr>"

definition UserModule :: moduleDef where
  "UserModule = (plainModule ''UserModule'')\<lparr>
     modImports := [ForFeature [''UserInfoEntity'', ''UserAuthEntity'', ''UserEntity'']],
     modControllers := [''UserAuthController'', ''UserInfoController''],
     modProviders := map ClassProvider
       [''UserInfoService'', ''UserInfoRepository'', ''UserAuthService'', ''UserAuthRepository'', ''JwtService''],
     modExports := [''JwtService'']\<rparr>"

definition HealthModule :: moduleDef where
  "HealthModule = (plainModule ''HealthModule'')\<lparr>
     modImports := map ImportModule [''TerminusModule'', ''RedisModule''],
     modControllers := [''HealthController''],
     modProviders := [ClassProvider ''RedisHealthIndicator'']\<rparr>"

definition IdempotencyModule :: moduleDef where
  "IdempotencyModule = (plainModule ''IdempotencyModule'')\<lparr>
     modImports := [ImportModule ''RedisModule''],
     modProviders := [ClassProvider ''IdempotencyService''],
     modExports := [''IdempotencyService'']\<rparr>"

definition RedisModule :: moduleDef where
  "RedisModule = (plainModule ''RedisModule'')\<lparr>
     modProviders := [FactoryProvider ''REDIS_CLIENT'' [''ConfigService'']],
     modExports := [''REDIS_CLIENT'']\<rparr>"

text \<open>The library modules the application configures: what their factories import and inject.\<close>

definition ConfigModule :: moduleDef where
  "ConfigModule = (plainModule ''ConfigModule'')\<lparr>modGlobal := True\<rparr>"

definition TypeOrmModule :: moduleDef where
  "TypeOrmModule = (plainModule ''TypeOrmModule'')\<lparr>
     modImports := [ImportModule ''ConfigModule''],
     modProviders := [optionsOf ''TypeOrmModule'' [''ConfigService'']]\<rparr>"

definition WinstonModule :: moduleDef where
  "WinstonModule = (plainModule ''WinstonModule'')\<lparr>modProviders := [optionsOf ''WinstonModule'' []]\<rparr>"

definition CacheModule :: moduleDef where
  "CacheModule = (plainModule ''CacheModule'')\<lparr>
     modImports := [ImportModule ''RedisModule''],
     modProviders := [optionsOf ''CacheModule'' [''REDIS_CLIENT'']], modGlobal := True\<rparr>"

definition ThrottlerModule :: moduleDef where
  "ThrottlerModule = (plainModule ''ThrottlerModule'')\<lparr>
     modImports := [ImportModule ''RedisModule''],
     modProviders := [optionsOf ''ThrottlerModule'' [''REDIS_CLIENT'', ''ConfigService'']]\<rparr>"

definition TerminusModule :: moduleDef where
  "TerminusModule = plainModule ''TerminusModule''"

definition allModules :: "moduleDef list" where
  "allModules = [AppModule, BlogModule, UserModule, HealthModule, IdempotencyModule, RedisModule, ConfigModule,
     TypeOrmModule, WinstonModule, CacheModule, ThrottlerModule, TerminusModule]"

lemmas module_defs = AppModule_def BlogModule_def UserModule_def HealthModule_def IdempotencyModule_def
  RedisModule_def ConfigModule_def TypeOrmModule_def WinstonModule_def CacheModule_def ThrottlerModule_def
  TerminusModule_def plainModule_def optionsOf_def

section \<open>Constructors\<close>

text \<open>The parameters of the constructors; the three filters inherit theirs.\<close>

definition AppControllerParams :: "string list" where
  "AppControllerParams = [''AppService'']"

definition AuthGuardParams :: "string list" where
  "AuthGuardParams = [''WINSTON_MODULE_PROVIDER'', ''Reflector'', ''JwtService'']"

definition AbstractExceptionFilterParams :: "string list" where
  "AbstractExceptionFilterParams = [''WINSTON_MODULE_PROVIDER'']"

definition DecryptPrimaryKeyPipeParams :: "string list" where
  "DecryptPrimaryKeyPipeParams = [''WINSTON_MODULE_PROVIDER'', ''CONFIGURATION(config)'']"

definition EncryptPrimaryKeyInterceptorParams :: "string list" where
  "EncryptPrimaryKeyInterceptorParams = [''CONFIGURATION(config)'']"

definition HealthControllerParams :: "string list" where
  "HealthControllerParams = [''WINSTON_MODULE_PROVIDER'', ''HealthCheckService'', ''TypeOrmHealthIndicator'', ''RedisHealthIndicator'']"

definition IdempotencyKeyInterceptorParams :: "string list" where
  "IdempotencyKeyInterceptorParams = [''WINSTON_MODULE_PROVIDER'', ''Reflector'', ''IdempotencyService'']"

definition IdempotencyServiceParams :: "string list" where
  "IdempotencyServiceParams = [''REDIS_CLIENT'']"

definition JwtServiceParams :: "string list" where
  "JwtServiceParams = [''CONFIGURATION(config)'', ''WINSTON_MODULE_PROVIDER'', ''UserAuthRepository'']"

definition PostControllerParams :: "string list" where
  "PostControllerParams = [''PostService'']"

definition PostLikeControllerParams :: "string list" where
  "PostLikeControllerParams = [''PostLikeService'']"

definition PostLikeRepositoryParams :: "string list" where
  "PostLikeRepositoryParams = [''PostLikeEntityRepository'', ''DataSource'']"

definition PostLikeServiceParams :: "string list" where
  "PostLikeServiceParams = [''WINSTON_MODULE_PROVIDER'', ''PostLikeRepository'', ''UserInfoService'']"

definition PostRepositoryParams :: "string list" where
  "PostRepositoryParams = [''PostEntityRepository'']"

definition PostServiceParams :: "string list" where
  "PostServiceParams = [''PostRepository'', ''PostLikeService'']"

definition RedisHealthIndicatorParams :: "string list" where
  "RedisHealthIndicatorParams = [''REDIS_CLIENT'']"

definition RedisModuleParams :: "string list" where
  "RedisModuleParams = [''REDIS_CLIENT'']"

definition SetRefreshTokenCookieInterceptorParams :: "string list" where
  "SetRefreshTokenCookieInterceptorParams = [''CONFIGURATION(config)'']"

definition UserAuthControllerParams :: "string list" where
  "UserAuthControllerParams = [''UserAuthService'']"

definition UserAuthRepositoryParams :: "string list" where
  "UserAuthRepositoryParams = [''WINSTON_MODULE_PROVIDER'', ''UserAuthEntityRepository'', ''DataSource'']"

definition UserAuthServiceParams :: "string list" where
  "UserAuthServiceParams = [''WINSTON_MODULE_PROVIDER'', ''CONFIGURATION(config)'', ''JwtService'', ''UserAuthRepository'']"

definition UserInfoControllerParams :: "string list" where
  "UserInfoControllerParams = [''UserInfoService'']"

definition UserInfoRepositoryParams :: "string list" where
  "UserInfoRepositoryParams = [''UserInfoEntityRepository'', ''DataSource'']"

definition UserInfoServiceParams :: "string list" where
  "UserInfoServiceParams = [''WINSTON_MODULE_PROVIDER'', ''UserInfoRepository'']"

lemmas params_defs = AbstractExceptionFilterParams_def AppControllerParams_def AuthGuardParams_def DecryptPrimaryKeyPipeParams_def EncryptPrimaryKeyInterceptorParams_def HealthControllerParams_def IdempotencyKeyInterceptorParams_def IdempotencyServiceParams_def JwtServiceParams_def PostControllerParams_def PostLikeControllerParams_def PostLikeRepositoryParams_def PostLikeServiceParams_def PostRepositoryParams_def PostServiceParams_def RedisHealthIndicatorParams_def RedisModuleParams_def SetRefreshTokenCookieInterceptorParams_def UserAuthControllerParams_def UserAuthRepositoryParams_def UserAuthServiceParams_def UserInfoControllerParams_def UserInfoRepositoryParams_def UserInfoServiceParams_def

definition constructors :: "(string \<times> string list) list" where
  "constructors =
     [(''AppController'', AppControllerParams),
      (''AuthGuard'', AuthGuardParams),
      (''BaseExceptionFilter'', AbstractExceptionFilterParams),
      (''DecryptPrimaryKeyPipe'', DecryptPrimaryKeyPipeParams),
      (''EncryptPrimaryKeyInterceptor'', EncryptPrimaryKeyInterceptorParams),
      (''HealthController'', HealthControllerParams),
      (''HttpExceptionFilter'', AbstractExceptionFilterParams),
      (''IdempotencyKeyInterceptor'', IdempotencyKeyInterceptorParams),
      (''IdempotencyService'', IdempotencyServiceParams),
      (''JwtService'', JwtServiceParams),
      (''PostController'', PostControllerParams),
      (''PostLikeController'', PostLikeControllerParams),
      (''PostLikeRepository'', PostLikeRepositoryParams),
      (''PostLikeService'', PostLikeServiceParams),
      (''PostRepository'', PostRepositoryParams),
      (''PostService'', PostServiceParams),
      (''RedisHealthIndicator'', RedisHealthIndicatorParams),
      (''RedisModule'', RedisModuleParams),
      (''SetRefreshTokenCookieInterceptor'', SetRefreshTokenCookieInterceptorParams),
      (''UnhandledExceptionFilter'', AbstractExceptionFilterParams),
      (''UserAuthController'', UserAuthControllerParams),
      (''UserAuthRepository'', UserAuthRepositoryParams),
      (''UserAuthService'', UserAuthServiceParams),
      (''UserInfoController'', UserInfoControllerParams),
      (''UserInfoRepository'', UserInfoRepositoryParams),
      (''UserInfoService'', UserInfoServiceParams)]"

text \<open>The interceptors and pipes that the decorators of a controller name.\<close>

definition enhancers :: "string \<Rightarrow> string list" where
  "enhancers controller =
     (if controller = ''PostController'' \<or> controller = ''PostLikeController''
      then [''EncryptPrimaryKeyInterceptor'', ''DecryptPrimaryKeyPipe'']
      else if controller = ''UserAuthController'' then [''SetRefreshTokenCookieInterceptor'']
      else [])"

section \<open>Injection\<close>

text \<open>
  A library: the tokens its modules export, its modules that are global by themselves, the constructor
  parameters of its classes, and the tokens the framework provides everywhere.
\<close>

record library =
  libExports :: "string \<Rightarrow> string list"
  libGlobal :: "string \<Rightarrow> bool"
  libConstructor :: "string \<Rightarrow> string list"
  libCore :: "string list"

text \<open>\<open>CustomThrottlerGuard\<close> has no constructor of its own.\<close>

definition needs :: "library \<Rightarrow> string \<Rightarrow> string list" where
  "needs L c =
     (if c = ''CustomThrottlerGuard'' then libConstructor L ''ThrottlerGuard''
      else case map_of constructors c of None \<Rightarrow> [] | Some ds \<Rightarrow> ds)"

fun requires :: "library \<Rightarrow> provider \<Rightarrow> string list" where
  "requires L (ClassProvider c) = needs L c"
| "requires L (UseClass t c) = needs L c"
| "requires L (FactoryProvider t ds) = ds"

definition moduleNamed :: "moduleDef list \<Rightarrow> string \<Rightarrow> moduleDef option" where
  "moduleNamed mods n = find (\<lambda>m. modName m = n) mods"

definition providerIn :: "moduleDef \<Rightarrow> string \<Rightarrow> provider option" where
  "providerIn m t = find (\<lambda>p. tokenOf p = t) (modProviders m)"

text \<open>The modules of the application that a module imports and that export the token.\<close>

fun exporters :: "moduleDef list \<Rightarrow> string \<Rightarrow> moduleImport list \<Rightarrow> moduleDef list" where
  "exporters mods t [] = []"
| "exporters mods t (ImportModule n # is) =
     (case moduleNamed mods n of
        Some m \<Rightarrow> if t \<in> set (modExports m) then m # exporters mods t is else exporters mods t is
      | None \<Rightarrow> exporters mods t is)"
| "exporters mods t (ForFeature es # is) = exporters mods t is"

definition fromLibrary :: "library \<Rightarrow> moduleDef list \<Rightarrow> moduleDef \<Rightarrow> string \<Rightarrow> bool" where
  "fromLibrary L mods m t \<longleftrightarrow>
     t \<in> set (libCore L) \<or>
     list_ex (\<lambda>i. case i of ImportModule n \<Rightarrow> t \<in> set (libExports L n)
                | ForFeature es \<Rightarrow> t \<in> set (map repositoryOf es)) (modImports m) \<or>
     list_ex (\<lambda>g. (modGlobal g \<or> libGlobal L (modName g)) \<and> t \<in> set (libExports L (modName g))) mods"

datatype home = Provided moduleDef provider | External | Unknown

definition homeOf :: "library \<Rightarrow> moduleDef list \<Rightarrow> moduleDef \<Rightarrow> string \<Rightarrow> home" where
  "homeOf L mods m t =
     (case providerIn m t of
        Some p \<Rightarrow> Provided m p
      | None \<Rightarrow>
          (case exporters mods t (modImports m) of
             m' # _ \<Rightarrow> (case providerIn m' t of Some p \<Rightarrow> Provided m' p | None \<Rightarrow> Unknown)
           | [] \<Rightarrow> if fromLibrary L mods m t then External else Unknown))"

text \<open>
  The instances, with the dependencies each is given; \<open>None\<close> when a dependency cannot be resolved.
  The fuel is the depth of the tree: a cycle would use up any fuel.
\<close>

datatype built = Built string "built list" | Foreign string

fun build :: "library \<Rightarrow> moduleDef list \<Rightarrow> nat \<Rightarrow> moduleDef \<Rightarrow> string list \<Rightarrow> built list option" where
  "build L mods k m [] = Some []"
| "build L mods 0 m (t # ts) = None"
| "build L mods (Suc k) m (t # ts) =
     (case homeOf L mods m t of
        Unknown \<Rightarrow> None
      | External \<Rightarrow> map_option (\<lambda>bs. Foreign t # bs) (build L mods (Suc k) m ts)
      | Provided m' p \<Rightarrow>
          (case build L mods k m' (requires L p) of
             None \<Rightarrow> None
           | Some ds \<Rightarrow> map_option (\<lambda>bs. Built t ds # bs) (build L mods (Suc k) m ts)))"

text \<open>Everything Nest instantiates when the application starts.\<close>

definition startModule :: "library \<Rightarrow> nat \<Rightarrow> moduleDef \<Rightarrow> bool" where
  "startModule L k m \<longleftrightarrow>
     list_all (\<lambda>p. build L allModules k m (requires L p) \<noteq> None) (modProviders m) \<and>
     list_all (\<lambda>c. build L allModules k m (needs L c) \<noteq> None \<and>
        list_all (\<lambda>e. build L allModules k m (needs L e) \<noteq> None) (enhancers c)) (modControllers m) \<and>
     build L allModules k m (needs L (modName m)) \<noteq> None"

section \<open>The application starts\<close>

text \<open>What the application uses of the libraries.\<close>

definition documentedLibrary :: "library \<Rightarrow> bool" where
  "documentedLibrary L \<longleftrightarrow>
     {''ConfigService'', ''CONFIGURATION(config)''} \<subseteq> set (libExports L ''ConfigModule'') \<and>
     ''DataSource'' \<in> set (libExports L ''TypeOrmModule'') \<and> libGlobal L ''TypeOrmModule'' \<and>
     ''WINSTON_MODULE_PROVIDER'' \<in> set (libExports L ''WinstonModule'') \<and> libGlobal L ''WinstonModule'' \<and>
     {''HealthCheckService'', ''TypeOrmHealthIndicator''} \<subseteq> set (libExports L ''TerminusModule'') \<and>
     {''THROTTLER:MODULE_OPTIONS'', ''ThrottlerStorage''} \<subseteq> set (libExports L ''ThrottlerModule'') \<and>
     libConstructor L ''ThrottlerGuard'' = [''THROTTLER:MODULE_OPTIONS'', ''ThrottlerStorage'', ''Reflector''] \<and>
     ''Reflector'' \<in> set (libCore L)"

lemma library_tokens:
  assumes "documentedLibrary L"
  shows "fromLibrary L allModules m ''Reflector''" "fromLibrary L allModules m ''ConfigService''"
    "fromLibrary L allModules m ''CONFIGURATION(config)''" "fromLibrary L allModules m ''DataSource''"
    "fromLibrary L allModules m ''WINSTON_MODULE_PROVIDER''"
    "fromLibrary L allModules AppModule ''THROTTLER:MODULE_OPTIONS''" "fromLibrary L allModules AppModule ''ThrottlerStorage''"
    "fromLibrary L allModules HealthModule ''HealthCheckService''"
    "fromLibrary L allModules HealthModule ''TypeOrmHealthIndicator''"
  using assms by (simp_all add: fromLibrary_def documentedLibrary_def allModules_def module_defs)

lemma repository_tokens:
  "fromLibrary L mods BlogModule ''PostEntityRepository''" "fromLibrary L mods BlogModule ''PostLikeEntityRepository''"
  "fromLibrary L mods BlogModule ''UserInfoEntityRepository''" "fromLibrary L mods UserModule ''UserInfoEntityRepository''"
  "fromLibrary L mods UserModule ''UserAuthEntityRepository''"
  by (simp_all add: fromLibrary_def BlogModule_def UserModule_def plainModule_def repositoryOf_def)

lemma providers_of:
  "providerIn BlogModule t = (if t \<in> set [''PostService'', ''PostLikeService'', ''PostRepository'',
      ''PostLikeRepository'', ''UserInfoService'', ''UserInfoRepository'', ''DecryptPrimaryKeyPipe'',
      ''EncryptPrimaryKeyInterceptor''] then Some (ClassProvider t) else None)"
  "providerIn UserModule t = (if t \<in> set [''UserInfoService'', ''UserInfoRepository'', ''UserAuthService'',
      ''UserAuthRepository'', ''JwtService''] then Some (ClassProvider t) else None)"
  "providerIn HealthModule t = (if t = ''RedisHealthIndicator'' then Some (ClassProvider t) else None)"
  "providerIn IdempotencyModule t = (if t = ''IdempotencyService'' then Some (ClassProvider t) else None)"
  "providerIn RedisModule t = (if t = ''REDIS_CLIENT'' then Some (FactoryProvider t [''ConfigService'']) else None)"
  "providerIn AppModule t =
     (if t = ''AppService'' then Some (ClassProvider t)
      else if t = ''APP_INTERCEPTOR'' then Some (UseClass t ''IdempotencyKeyInterceptor'')
      else if t = ''APP_GUARD'' then Some (UseClass t ''AuthGuard'')
      else if t = ''APP_FILTER'' then Some (UseClass t ''UnhandledExceptionFilter'') else None)"
  "providerIn TypeOrmModule t = (if t = ''TypeOrmModuleOptions'' then Some (FactoryProvider t [''ConfigService'']) else None)"
  "providerIn CacheModule t = (if t = ''CacheModuleOptions'' then Some (FactoryProvider t [''REDIS_CLIENT'']) else None)"
  "providerIn ThrottlerModule t =
     (if t = ''ThrottlerModuleOptions'' then Some (FactoryProvider t [''REDIS_CLIENT'', ''ConfigService'']) else None)"
  by (auto simp: providerIn_def module_defs)

lemma modules_named:
  "moduleNamed allModules ''BlogModule'' = Some BlogModule" "moduleNamed allModules ''UserModule'' = Some UserModule"
  "moduleNamed allModules ''HealthModule'' = Some HealthModule"
  "moduleNamed allModules ''IdempotencyModule'' = Some IdempotencyModule"
  "moduleNamed allModules ''RedisModule'' = Some RedisModule" "moduleNamed allModules ''ConfigModule'' = Some ConfigModule"
  "moduleNamed allModules ''TypeOrmModule'' = Some TypeOrmModule"
  "moduleNamed allModules ''WinstonModule'' = Some WinstonModule" "moduleNamed allModules ''CacheModule'' = Some CacheModule"
  "moduleNamed allModules ''ThrottlerModule'' = Some ThrottlerModule"
  "moduleNamed allModules ''TerminusModule'' = Some TerminusModule"
  by (simp_all add: moduleNamed_def allModules_def module_defs)

lemma module_exports:
  "modExports BlogModule = []" "modExports UserModule = [''JwtService'']" "modExports HealthModule = []"
  "modExports IdempotencyModule = [''IdempotencyService'']" "modExports RedisModule = [''REDIS_CLIENT'']"
  "modExports ConfigModule = []" "modExports TypeOrmModule = []" "modExports WinstonModule = []"
  "modExports CacheModule = []" "modExports ThrottlerModule = []" "modExports TerminusModule = []"
  by (simp_all add: module_defs)

lemma module_imports:
  "modImports AppModule = map ImportModule
     [''ConfigModule'', ''TypeOrmModule'', ''WinstonModule'', ''CacheModule'', ''ThrottlerModule'',
      ''BlogModule'', ''UserModule'', ''HealthModule'', ''IdempotencyModule'']"
  "modImports BlogModule = [ForFeature [''PostEntity'', ''PostLikeEntity'', ''UserInfoEntity'']]"
  "modImports UserModule = [ForFeature [''UserInfoEntity'', ''UserAuthEntity'', ''UserEntity'']]"
  "modImports HealthModule = map ImportModule [''TerminusModule'', ''RedisModule'']"
  "modImports IdempotencyModule = [ImportModule ''RedisModule'']" "modImports RedisModule = []"
  "modImports TypeOrmModule = [ImportModule ''ConfigModule'']"
  "modImports CacheModule = [ImportModule ''RedisModule'']" "modImports ThrottlerModule = [ImportModule ''RedisModule'']"
  by (simp_all add: module_defs)

lemmas wiring = homeOf_def providers_of modules_named module_exports module_imports

lemma library_homes:
  assumes "documentedLibrary L"
  shows "homeOf L allModules BlogModule ''CONFIGURATION(config)'' = External"
    "homeOf L allModules BlogModule ''DataSource'' = External"
    "homeOf L allModules BlogModule ''WINSTON_MODULE_PROVIDER'' = External"
    "homeOf L allModules BlogModule ''PostEntityRepository'' = External"
    "homeOf L allModules BlogModule ''PostLikeEntityRepository'' = External"
    "homeOf L allModules BlogModule ''UserInfoEntityRepository'' = External"
    "homeOf L allModules UserModule ''CONFIGURATION(config)'' = External"
    "homeOf L allModules UserModule ''DataSource'' = External"
    "homeOf L allModules UserModule ''WINSTON_MODULE_PROVIDER'' = External"
    "homeOf L allModules UserModule ''UserInfoEntityRepository'' = External"
    "homeOf L allModules UserModule ''UserAuthEntityRepository'' = External"
    "homeOf L allModules HealthModule ''WINSTON_MODULE_PROVIDER'' = External"
    "homeOf L allModules HealthModule ''HealthCheckService'' = External"
    "homeOf L allModules HealthModule ''TypeOrmHealthIndicator'' = External"
    "homeOf L allModules RedisModule ''ConfigService'' = External"
    "homeOf L allModules TypeOrmModule ''ConfigService'' = External"
    "homeOf L allModules ThrottlerModule ''ConfigService'' = External"
    "homeOf L allModules AppModule ''WINSTON_MODULE_PROVIDER'' = External"
    "homeOf L allModules AppModule ''Reflector'' = External"
    "homeOf L allModules AppModule ''THROTTLER:MODULE_OPTIONS'' = External"
    "homeOf L allModules AppModule ''ThrottlerStorage'' = External"
  using library_tokens [OF assms] repository_tokens [of L allModules] by (simp_all add: wiring)

lemma own_homes:
  "homeOf L mods AppModule ''AppService'' = Provided AppModule (ClassProvider ''AppService'')"
  "homeOf L mods BlogModule ''PostService'' = Provided BlogModule (ClassProvider ''PostService'')"
  "homeOf L mods BlogModule ''PostLikeService'' = Provided BlogModule (ClassProvider ''PostLikeService'')"
  "homeOf L mods BlogModule ''PostRepository'' = Provided BlogModule (ClassProvider ''PostRepository'')"
  "homeOf L mods BlogModule ''PostLikeRepository'' = Provided BlogModule (ClassProvider ''PostLikeRepository'')"
  "homeOf L mods BlogModule ''UserInfoService'' = Provided BlogModule (ClassProvider ''UserInfoService'')"
  "homeOf L mods BlogModule ''UserInfoRepository'' = Provided BlogModule (ClassProvider ''UserInfoRepository'')"
  "homeOf L mods BlogModule ''DecryptPrimaryKeyPipe'' = Provided BlogModule (ClassProvider ''DecryptPrimaryKeyPipe'')"
  "homeOf L mods BlogModule ''EncryptPrimaryKeyInterceptor'' = Provided BlogModule (ClassProvider ''EncryptPrimaryKeyInterceptor'')"
  "homeOf L mods UserModule ''UserInfoService'' = Provided UserModule (ClassProvider ''UserInfoService'')"
  "homeOf L mods UserModule ''UserInfoRepository'' = Provided UserModule (ClassProvider ''UserInfoRepository'')"
  "homeOf L mods UserModule ''UserAuthService'' = Provided UserModule (ClassProvider ''UserAuthService'')"
  "homeOf L mods UserModule ''UserAuthRepository'' = Provided UserModule (ClassProvider ''UserAuthRepository'')"
  "homeOf L mods UserModule ''JwtService'' = Provided UserModule (ClassProvider ''JwtService'')"
  "homeOf L mods HealthModule ''RedisHealthIndicator'' = Provided HealthModule (ClassProvider ''RedisHealthIndicator'')"
  "homeOf L mods IdempotencyModule ''IdempotencyService'' = Provided IdempotencyModule (ClassProvider ''IdempotencyService'')"
  by (simp_all add: homeOf_def providers_of)

lemma imported_homes:
  "homeOf L allModules AppModule ''JwtService'' = Provided UserModule (ClassProvider ''JwtService'')"
  "homeOf L allModules AppModule ''IdempotencyService'' = Provided IdempotencyModule (ClassProvider ''IdempotencyService'')"
  by (simp_all add: wiring)

lemma redis_homes:
  "homeOf L allModules HealthModule ''REDIS_CLIENT'' = Provided RedisModule (FactoryProvider ''REDIS_CLIENT'' [''ConfigService''])"
  "homeOf L allModules IdempotencyModule ''REDIS_CLIENT'' = Provided RedisModule (FactoryProvider ''REDIS_CLIENT'' [''ConfigService''])"
  "homeOf L allModules CacheModule ''REDIS_CLIENT'' = Provided RedisModule (FactoryProvider ''REDIS_CLIENT'' [''ConfigService''])"
  "homeOf L allModules ThrottlerModule ''REDIS_CLIENT'' = Provided RedisModule (FactoryProvider ''REDIS_CLIENT'' [''ConfigService''])"
  "homeOf L allModules RedisModule ''REDIS_CLIENT'' = Provided RedisModule (FactoryProvider ''REDIS_CLIENT'' [''ConfigService''])"
  by (simp_all add: wiring)

lemma needs_of:
  "needs L ''AppController'' = [''AppService'']"
  "needs L ''AuthGuard'' = [''WINSTON_MODULE_PROVIDER'', ''Reflector'', ''JwtService'']"
  "needs L ''BaseExceptionFilter'' = [''WINSTON_MODULE_PROVIDER'']"
  "needs L ''DecryptPrimaryKeyPipe'' = [''WINSTON_MODULE_PROVIDER'', ''CONFIGURATION(config)'']"
  "needs L ''EncryptPrimaryKeyInterceptor'' = [''CONFIGURATION(config)'']"
  "needs L ''HealthController'' = [''WINSTON_MODULE_PROVIDER'', ''HealthCheckService'', ''TypeOrmHealthIndicator'', ''RedisHealthIndicator'']"
  "needs L ''HttpExceptionFilter'' = [''WINSTON_MODULE_PROVIDER'']"
  "needs L ''IdempotencyKeyInterceptor'' = [''WINSTON_MODULE_PROVIDER'', ''Reflector'', ''IdempotencyService'']"
  "needs L ''IdempotencyService'' = [''REDIS_CLIENT'']"
  "needs L ''JwtService'' = [''CONFIGURATION(config)'', ''WINSTON_MODULE_PROVIDER'', ''UserAuthRepository'']"
  "needs L ''PostController'' = [''PostService'']"
  "needs L ''PostLikeController'' = [''PostLikeService'']"
  "needs L ''PostLikeRepository'' = [''PostLikeEntityRepository'', ''DataSource'']"
  "needs L ''PostLikeService'' = [''WINSTON_MODULE_PROVIDER'', ''PostLikeRepository'', ''UserInfoService'']"
  "needs L ''PostRepository'' = [''PostEntityRepository'']"
  "needs L ''PostService'' = [''PostRepository'', ''PostLikeService'']"
  "needs L ''RedisHealthIndicator'' = [''REDIS_CLIENT'']"
  "needs L ''RedisModule'' = [''REDIS_CLIENT'']"
  "needs L ''SetRefreshTokenCookieInterceptor'' = [''CONFIGURATION(config)'']"
  "needs L ''UnhandledExceptionFilter'' = [''WINSTON_MODULE_PROVIDER'']"
  "needs L ''UserAuthController'' = [''UserAuthService'']"
  "needs L ''UserAuthRepository'' = [''WINSTON_MODULE_PROVIDER'', ''UserAuthEntityRepository'', ''DataSource'']"
  "needs L ''UserAuthService'' = [''WINSTON_MODULE_PROVIDER'', ''CONFIGURATION(config)'', ''JwtService'', ''UserAuthRepository'']"
  "needs L ''UserInfoController'' = [''UserInfoService'']"
  "needs L ''UserInfoRepository'' = [''UserInfoEntityRepository'', ''DataSource'']"
  "needs L ''UserInfoService'' = [''WINSTON_MODULE_PROVIDER'', ''UserInfoRepository'']"
  "needs L ''AppService'' = []"
  "needs L ''AppModule'' = []"
  "needs L ''BlogModule'' = []"
  "needs L ''UserModule'' = []"
  "needs L ''HealthModule'' = []"
  "needs L ''IdempotencyModule'' = []"
  "needs L ''TypeOrmModule'' = []"
  "needs L ''CacheModule'' = []"
  "needs L ''ThrottlerModule'' = []"
  "needs L ''CustomThrottlerGuard'' = libConstructor L ''ThrottlerGuard''"
  by (simp_all add: needs_def constructors_def params_defs)

lemmas injection = own_homes imported_homes redis_homes needs_of

lemma module_parts:
  "modName AppModule = ''AppModule''" "modControllers AppModule = [''AppController'']"
  "modName BlogModule = ''BlogModule''" "modControllers BlogModule = [''PostController'', ''PostLikeController'']"
  "modName UserModule = ''UserModule''" "modControllers UserModule = [''UserAuthController'', ''UserInfoController'']"
  "modName HealthModule = ''HealthModule''" "modControllers HealthModule = [''HealthController'']"
  "modName IdempotencyModule = ''IdempotencyModule''" "modControllers IdempotencyModule = []"
  "modName RedisModule = ''RedisModule''" "modControllers RedisModule = []"
  "modName TypeOrmModule = ''TypeOrmModule''" "modControllers TypeOrmModule = []"
  "modName CacheModule = ''CacheModule''" "modControllers CacheModule = []"
  "modName ThrottlerModule = ''ThrottlerModule''" "modControllers ThrottlerModule = []"
  by (simp_all add: module_defs)

lemma providers_in_order:
  "modProviders AppModule =
     [ClassProvider ''AppService'', UseClass ''APP_INTERCEPTOR'' ''IdempotencyKeyInterceptor'',
      UseClass ''APP_GUARD'' ''AuthGuard'', UseClass ''APP_GUARD'' ''CustomThrottlerGuard'',
      UseClass ''APP_FILTER'' ''UnhandledExceptionFilter'', UseClass ''APP_FILTER'' ''HttpExceptionFilter'',
      UseClass ''APP_FILTER'' ''BaseExceptionFilter'']"
  "modProviders BlogModule = map ClassProvider
     [''PostService'', ''PostLikeService'', ''PostRepository'', ''PostLikeRepository'', ''UserInfoService'',
      ''UserInfoRepository'', ''DecryptPrimaryKeyPipe'', ''EncryptPrimaryKeyInterceptor'']"
  "modProviders UserModule = map ClassProvider
     [''UserInfoService'', ''UserInfoRepository'', ''UserAuthService'', ''UserAuthRepository'', ''JwtService'']"
  "modProviders HealthModule = [ClassProvider ''RedisHealthIndicator'']"
  "modProviders IdempotencyModule = [ClassProvider ''IdempotencyService'']"
  "modProviders RedisModule = [FactoryProvider ''REDIS_CLIENT'' [''ConfigService'']]"
  "modProviders TypeOrmModule = [FactoryProvider ''TypeOrmModuleOptions'' [''ConfigService'']]"
  "modProviders CacheModule = [FactoryProvider ''CacheModuleOptions'' [''REDIS_CLIENT'']]"
  "modProviders ThrottlerModule = [FactoryProvider ''ThrottlerModuleOptions'' [''REDIS_CLIENT'', ''ConfigService'']]"
  by (simp_all add: module_defs)

lemmas starting = startModule_def module_parts providers_in_order enhancers_def injection

lemma blog_module_starts:
  assumes "documentedLibrary L"
  shows "startModule L (Suc (Suc (Suc (Suc (Suc k))))) BlogModule"
  by (simp_all add: starting library_homes [OF assms])

lemma user_module_starts:
  assumes "documentedLibrary L"
  shows "startModule L (Suc (Suc (Suc (Suc (Suc k))))) UserModule"
  by (simp_all add: starting library_homes [OF assms])

lemma small_modules_start:
  assumes "documentedLibrary L"
  shows "startModule L (Suc (Suc (Suc (Suc (Suc k))))) HealthModule"
    "startModule L (Suc (Suc (Suc (Suc (Suc k))))) IdempotencyModule"
    "startModule L (Suc (Suc (Suc (Suc (Suc k))))) RedisModule"
    "startModule L (Suc (Suc (Suc (Suc (Suc k))))) TypeOrmModule"
    "startModule L (Suc (Suc (Suc (Suc (Suc k))))) CacheModule"
    "startModule L (Suc (Suc (Suc (Suc (Suc k))))) ThrottlerModule"
  by (simp_all add: starting library_homes [OF assms])

lemma app_module_starts:
  assumes "documentedLibrary L"
  shows "startModule L (Suc (Suc (Suc (Suc (Suc k))))) AppModule"
proof -
  have guard: "libConstructor L ''ThrottlerGuard'' = [''THROTTLER:MODULE_OPTIONS'', ''ThrottlerStorage'', ''Reflector'']"
    using assms by (simp add: documentedLibrary_def)
  show ?thesis
    by (simp add: starting guard library_homes [OF assms])
qed

lemma library_modules_start: "startModule L (Suc k) ConfigModule" "startModule L (Suc k) WinstonModule" "startModule L (Suc k) TerminusModule"
  by (simp_all add: startModule_def module_defs needs_def constructors_def)


definition exampleLibrary :: library where
  "exampleLibrary =
     \<lparr>libExports = (\<lambda>n.
        if n = ''ConfigModule'' then [''ConfigService'', ''CONFIGURATION(config)'']
        else if n = ''TypeOrmModule'' then [''DataSource'', ''EntityManager'']
        else if n = ''WinstonModule'' then [''WINSTON_MODULE_PROVIDER'']
        else if n = ''CacheModule'' then [''CACHE_MANAGER'']
        else if n = ''TerminusModule'' then [''HealthCheckService'', ''TypeOrmHealthIndicator'']
        else if n = ''ThrottlerModule'' then [''THROTTLER:MODULE_OPTIONS'', ''ThrottlerStorage'']
        else []),
      libGlobal = (\<lambda>n. n \<in> set [''TypeOrmModule'', ''WinstonModule'', ''ThrottlerModule'']),
      libConstructor = (\<lambda>c. [''THROTTLER:MODULE_OPTIONS'', ''ThrottlerStorage'', ''Reflector'']),
      libCore = [''Reflector'', ''ModuleRef'']\<rparr>"

lemma exampleLibrary_documented: "documentedLibrary exampleLibrary"
  by (simp add: documentedLibrary_def exampleLibrary_def)


section \<open>Global guards and filters\<close>

text \<open>The classes registered under a token of the framework, in order of registration.\<close>

definition registered :: "string \<Rightarrow> moduleDef \<Rightarrow> string list" where
  "registered t m = concat (map (\<lambda>p. case p of UseClass t' c \<Rightarrow> if t' = t then [c] else [] | _ \<Rightarrow> []) (modProviders m))"

text \<open>What a filter's \<open>@Catch\<close> names, and what it answers.\<close>

definition catches :: "string \<Rightarrow> exn \<Rightarrow> bool" where
  "catches c e =
     (if c = ''BaseExceptionFilter'' then (case e of BaseException code msg v \<Rightarrow> True | _ \<Rightarrow> False)
      else if c = ''HttpExceptionFilter'' then (case e of HttpException status r \<Rightarrow> True | _ \<Rightarrow> False)
      else c = ''UnhandledExceptionFilter'')"

definition filterReply :: "exn \<Rightarrow> httpReply" where
  "filterReply e =
     (case e of BaseException code msg v \<Rightarrow> baseExceptionFilter code msg
      | HttpException status r \<Rightarrow> httpExceptionFilter status r
      | _ \<Rightarrow> unhandledExceptionFilter)"

definition answer :: "string \<Rightarrow> exn \<Rightarrow> httpReply" where
  "answer c e = (if c = ''UnhandledExceptionFilter'' then unhandledExceptionFilter else filterReply e)"

text \<open>Global filters are tried in the opposite order of their registration.\<close>

definition filterFor :: "string list \<Rightarrow> exn \<Rightarrow> string option" where
  "filterFor cs e = find (\<lambda>c. catches c e) (rev cs)"

definition dispatchException :: "string list \<Rightarrow> exn \<Rightarrow> httpReply option" where
  "dispatchException cs e = map_option (\<lambda>c. answer c e) (filterFor cs e)"

text \<open>Global guards run in the order of registration; a guard that answers no ends with the forbidden exception.\<close>

definition callGuard ::
  "('r, 'c, 'd) application \<Rightarrow> route \<Rightarrow> nat \<Rightarrow> string \<Rightarrow> httpRequest \<Rightarrow>
   (('r, 'c, 'd) server, exn, bool \<times> httpRequest) run" where
  "callGuard X r now c req s =
     (if c = ''AuthGuard''
      then (case canActivate (appDb X) (appLibs X) (appConfig X) now (ctlPublic (metaOf r)) (ctlRoles (metaOf r)) req
                   (srvDb s) of
              (res, d) \<Rightarrow> (res, s\<lparr>srvDb := d\<rparr>))
      else (case appThrottle X (getTracker (idemRequest req) (httpIp req)) r now (srvLimits s) of
              (res, l) \<Rightarrow> (map_sum id (\<lambda>_. (True, req)) res, s\<lparr>srvLimits := l\<rparr>)))"

fun runGuards ::
  "('r, 'c, 'd) application \<Rightarrow> route \<Rightarrow> nat \<Rightarrow> string list \<Rightarrow> httpRequest \<Rightarrow>
   (('r, 'c, 'd) server, exn, httpRequest) run" where
  "runGuards X r now [] req s = (Inr req, s)"
| "runGuards X r now (c # cs) req s =
     (case callGuard X r now c req s of
        (Inl e, s') \<Rightarrow> (Inl e, s')
      | (Inr (pass, req'), s') \<Rightarrow>
          if pass then runGuards X r now cs req' s' else (Inl ForbiddenException, s'))"

lemma registered_in_order:
  "registered ''APP_GUARD'' AppModule = [''AuthGuard'', ''CustomThrottlerGuard'']"
  "registered ''APP_FILTER'' AppModule = [''UnhandledExceptionFilter'', ''HttpExceptionFilter'', ''BaseExceptionFilter'']"
  "registered ''APP_INTERCEPTOR'' AppModule = [''IdempotencyKeyInterceptor'']"
  by (simp_all add: registered_def providers_in_order)

text \<open>
  The order in which the application module registers its guards and filters gives the pipeline of
  theory \<open>App\<close>: running the registered guards one after the other is \<open>guards\<close> (first the session,
  which names the user, then the rate limit, counted for that user), and trying the registered filters
  from the last to the first answers every exception with the filter made for it. In the opposite order the
  catch-all filter would answer every exception as an internal error.
\<close>

lemma registration_order:
  "runGuards X r now (registered ''APP_GUARD'' AppModule) req s = guards X r now req s \<and>
   dispatchException (registered ''APP_FILTER'' AppModule) e = Some (handleException e) \<and>
   dispatchException (rev (registered ''APP_FILTER'' AppModule)) e = Some unhandledExceptionFilter"
  by (cases e)
    (auto simp: registered_in_order guards_def callGuard_def dispatchException_def filterFor_def catches_def
      answer_def filterReply_def split: prod.splits sum.splits)

end
