(* ===== verification/ApiDoc.thy ===== *)
theory ApiDoc
  imports Replies Scenario
begin

text \<open>
  The documentation of the replies (\<open>decorator/api-ok-response-pagination-dto.decorator.ts\<close>,
  \<open>response/swagger/success-response-options.ts\<close>, the \<open>@ApiProperty\<close> of the response classes and the
  response decorators of the controllers) as schemas, and that the routes answer what is documented.
  References to a class are resolved to its schema; descriptions are left out.
\<close>

section \<open>Schemas\<close>

datatype schema =
    TextSchema | NumberSchema | BooleanSchema
  | ArraySchema schema
  | ObjectSchema "(string \<times> schema) list"
  | AllOf "schema list"
  | ExampleSchema json

text \<open>Properties that the schema does not name are allowed. An object documented by an example only is that example.\<close>

fun meets :: "schema \<Rightarrow> json \<Rightarrow> bool" and meetsProps :: "(string \<times> schema) list \<Rightarrow> (string \<times> json) list \<Rightarrow> bool"
  and meetsAll :: "schema list \<Rightarrow> json \<Rightarrow> bool" where
  "meets TextSchema j = (case j of JStr s \<Rightarrow> True | _ \<Rightarrow> False)"
| "meets NumberSchema j = (case j of JNum n \<Rightarrow> True | _ \<Rightarrow> False)"
| "meets BooleanSchema j = (case j of JBool b \<Rightarrow> True | _ \<Rightarrow> False)"
| "meets (ArraySchema s) j = (case j of JArr xs \<Rightarrow> list_all (meets s) xs | _ \<Rightarrow> False)"
| "meets (ObjectSchema ps) j = (case j of JObj fs \<Rightarrow> meetsProps ps fs | _ \<Rightarrow> False)"
| "meets (AllOf ss) j = meetsAll ss j"
| "meets (ExampleSchema e) j = (j = e)"
| "meetsProps [] fs = True"
| "meetsProps ((k, s) # ps) fs = ((case map_of fs k of None \<Rightarrow> False | Some v \<Rightarrow> meets s v) \<and> meetsProps ps fs)"
| "meetsAll [] j = True"
| "meetsAll (s # ss) j = (meets s j \<and> meetsAll ss j)"

section \<open>The documented schemas\<close>

fun propertySchema :: "jsonType \<Rightarrow> schema" where
  "propertySchema TextType = TextSchema"
| "propertySchema NumberType = NumberSchema"
| "propertySchema TextsType = ArraySchema TextSchema"

definition PostResponseSchema :: schema where
  "PostResponseSchema = ObjectSchema (map (\<lambda>(k, t). (k, propertySchema t)) PostResponseDto)"

definition JwtSchema :: schema where
  "JwtSchema = ObjectSchema [(''accessToken'', TextSchema), (''refreshToken'', TextSchema)]"

definition UserInfoSchema :: schema where
  "UserInfoSchema = ObjectSchema [(''uid'', TextSchema), (''nickname'', TextSchema), (''introduce'', TextSchema)]"

definition PaginationMetaSchema :: schema where
  "PaginationMetaSchema = ObjectSchema
     [(''total'', NumberSchema), (''currentPage'', NumberSchema), (''lastPage'', NumberSchema),
      (''hasPreviousPage'', BooleanSchema), (''hasNextPage'', BooleanSchema)]"

text \<open>Only the second property of the page class is annotated.\<close>

definition PaginationSchema :: schema where
  "PaginationSchema = ObjectSchema [(''paginationMeta'', PaginationMetaSchema)]"

definition ApiOkResponsePaginationDto :: "schema \<Rightarrow> schema" where
  "ApiOkResponsePaginationDto dataDto =
     AllOf [PaginationSchema, ObjectSchema [(''data'', ArraySchema dataDto)]]"

definition successResponseOptions :: schema where
  "successResponseOptions = ExampleSchema (JObj [(''code'', JNum 200), (''message'', JStr ''Success!'')])"

text \<open>Status and schema of the success each route documents; the greeting documents none.\<close>

fun documented :: "route \<Rightarrow> (nat \<times> schema) option" where
  "documented GetAllPosts = Some (200, ApiOkResponsePaginationDto PostResponseSchema)"
| "documented GetUserPosts = Some (200, ApiOkResponsePaginationDto PostResponseSchema)"
| "documented GetPost = Some (200, PostResponseSchema)"
| "documented CreatePostRoute = Some (201, successResponseOptions)"
| "documented PatchPost = Some (200, successResponseOptions)"
| "documented DeletePostRoute = Some (200, successResponseOptions)"
| "documented AddPostLikeUser = Some (201, successResponseOptions)"
| "documented DeletePostLikeUser = Some (200, successResponseOptions)"
| "documented CreateUserInfo = Some (201, successResponseOptions)"
| "documented GetUserInfo = Some (200, UserInfoSchema)"
| "documented UpdateUserInfo = Some (200, successResponseOptions)"
| "documented DeleteUserInfo = Some (200, successResponseOptions)"
| "documented JoinRoute = Some (201, JwtSchema)"
| "documented LoginRoute = Some (201, JwtSchema)"
| "documented RefreshRoute = Some (201, JwtSchema)"
| "documented OauthRoute = Some (201, JwtSchema)"
| "documented GetHello = None"

lemmas schema_defs = PostResponseSchema_def PostResponseDto_def JwtSchema_def UserInfoSchema_def PaginationMetaSchema_def
  PaginationSchema_def ApiOkResponsePaginationDto_def successResponseOptions_def

section \<open>Replies match their documentation\<close>

lemma texts_meet: "list_all (meets TextSchema) (map JStr ns)"
  by (induction ns) simp_all

lemma hidden_post_meets: "hides A key p j \<Longrightarrow> ptPostLikeNicknameList p \<noteq> None \<Longrightarrow> meets PostResponseSchema j"
  by (auto simp: hides_def postReply_def schema_defs texts_meet)

lemma hidden_page_meets:
  assumes "list_all2 (hides A key) ps items" and "\<forall>p \<in> set ps. ptPostLikeNicknameList p \<noteq> None"
  shows "meets (ApiOkResponsePaginationDto PostResponseSchema) (pageReply items m)"
proof -
  have "list_all (meets PostResponseSchema) items"
    using assms by (induction rule: list_all2_induct) (auto intro: hidden_post_meets)
  then show ?thesis
    by (simp add: ApiOkResponsePaginationDto_def PaginationSchema_def PaginationMetaSchema_def pageReply_def metaJs_def)
qed

lemma page_nicknames:
  assumes "toPostDaoList D get now es d = (Inr daos, d')" and "toPaginationDto (map toPostDto daos) n page = Inr p"
    and "x \<in> set (pageData p)"
  shows "ptPostLikeNicknameList x \<noteq> None"
  using assms
  by (auto simp: toPostDaoList_def Let_def toPaginationDto_def toPostDto_def setPostLikeNicknameList_def
      elim!: bindR_InrE split: sum.splits if_splits)

lemma listing_nicknames:
  assumes "getPostPageListByPage D get now page d = (Inr p, d') \<or> getPostPageListByPostUid D get now u page d = (Inr p, d')"
  shows "\<forall>x \<in> set (pageData p). ptPostLikeNicknameList x \<noteq> None"
  using assms unfolding getPostPageListByPage_def getPostPageListByPostUid_def Let_def
  by (auto elim!: bindR_InrE dest!: page_nicknames)

lemma post_nicknames:
  assumes "getPostByPostId D get now i d = (Inr p, d')"
  shows "ptPostLikeNicknameList p \<noteq> None"
  using assms unfolding getPostByPostId_def Let_def
  by (auto elim!: bindR_InrE simp: toPostDto_def setPostLikeNicknameList_def)

lemma andSuccess_Inr: "andSuccess m d = (Inr v, d') \<Longrightarrow> v = successJs"
  by (auto simp: andSuccess_def elim!: bindR_InrE)

lemma success_unchanged: "encryptResponse A key successJs k = (Inr w, k') \<Longrightarrow> jsonOf w = jsonOf successJs \<and> w \<noteq> VUndefined"
  by (auto simp: encryptResponse_def encryptObject_def encryptMetadata_def successJs_def bindR_def encryptProperty_def)

lemma success_documented: "meets successResponseOptions (jsonOf successJs)"
  by (simp add: successJs_def successResponseOptions_def SuccessResponse_def)

lemma handler_answers:
  assumes "handlerOf X r now req d = (Inr v, d')"
  shows "r = GetAllPosts \<or> r = GetUserPosts \<Longrightarrow>
      \<exists>p. v = pageJs p \<and> (\<forall>x \<in> set (pageData p). ptPostLikeNicknameList x \<noteq> None)"
    and "r = GetPost \<Longrightarrow> \<exists>p. v = postJs p \<and> ptPostLikeNicknameList p \<noteq> None"
    and "r \<in> {CreatePostRoute, PatchPost, DeletePostRoute, AddPostLikeUser, DeletePostLikeUser, CreateUserInfo,
      UpdateUserInfo, DeleteUserInfo} \<Longrightarrow> v = successJs"
    and "r = GetUserInfo \<Longrightarrow> \<exists>i. v = profileJs i"
    and "r \<in> {JoinRoute, LoginRoute, RefreshRoute, OauthRoute} \<Longrightarrow> \<exists>t. v = jwtJs t"
proof -
  show "\<exists>p. v = pageJs p \<and> (\<forall>x \<in> set (pageData p). ptPostLikeNicknameList x \<noteq> None)"
    if "r = GetAllPosts \<or> r = GetUserPosts"
    using that
  proof
    assume "r = GetAllPosts"
    with assms obtain page p where "v = pageJs p"
      "getPostPageListByPage (appDb X) (svcGetUserInfoByUid (appDb X)) now page d = (Inr p, d')"
      by (auto simp: ctlGetAllPosts_def elim!: bindR_InrE)
    with listing_nicknames [OF disjI1, OF this(2)] show ?thesis by blast
  next
    assume "r = GetUserPosts"
    with assms obtain u page p where "v = pageJs p"
      "getPostPageListByPostUid (appDb X) (svcGetUserInfoByUid (appDb X)) now u page d = (Inr p, d')"
      by (auto simp: ctlGetUserPosts_def elim!: bindR_InrE)
    with listing_nicknames [OF disjI2, OF this(2)] show ?thesis by blast
  qed
  show "\<exists>p. v = postJs p \<and> ptPostLikeNicknameList p \<noteq> None" if "r = GetPost"
  proof -
    from assms that obtain i p where "v = postJs p"
      "getPostByPostId (appDb X) (svcGetUserInfoByUid (appDb X)) now i d = (Inr p, d')"
      by (auto simp: ctlGetPost_def elim!: bindR_InrE)
    with post_nicknames [OF this(2)] show ?thesis by blast
  qed
  show "v = successJs" if "r \<in> {CreatePostRoute, PatchPost, DeletePostRoute, AddPostLikeUser, DeletePostLikeUser,
      CreateUserInfo, UpdateUserInfo, DeleteUserInfo}"
    using assms that by (auto simp: ctl_defs elim!: bindR_InrE dest: andSuccess_Inr)
  show "\<exists>i. v = profileJs i" if "r = GetUserInfo"
    using assms that by (clarsimp simp: ctlGetUserInfo_def elim!: bindR_InrE) blast
  show "\<exists>t. v = jwtJs t" if "r \<in> {JoinRoute, LoginRoute, RefreshRoute, OauthRoute}"
    using assms that by (auto simp: ctl_defs elim!: bindR_InrE) blast+
qed

definition encryptedRoutes :: "route list" where
  "encryptedRoutes = [GetAllPosts, GetUserPosts, GetPost, CreatePostRoute, PatchPost, DeletePostRoute, AddPostLikeUser,
     DeletePostLikeUser]"

lemma controller_body:
  assumes "controllerCall X r now req (d, cs) = (Inr body, s')"
  obtains v w d' k where "handlerOf X r now req d = (Inr v, d')" "body = jsonBody w"
    "if r \<in> set encryptedRoutes
     then encryptPrimaryKeyInterceptor (aesLib (appLibs X)) (pkSecretKey (appConfig X)) (returnR v) (saltDraw req) = (Inr w, k)
     else w = v"
proof -
  obtain x d1 where h: "handlerOf X r now req d = (x, d1)" by fastforce
  show thesis
  proof (cases x)
    case (Inr v)
    obtain y k where e: "encryptPrimaryKeyInterceptor (aesLib (appLibs X)) (pkSecretKey (appConfig X)) (returnR v)
        (saltDraw req) = (y, k)" by fastforce
    show thesis
      using that [of v d1 _ k] assms h Inr e
      by (cases y) (auto simp: controllerCall_def bindR_def onDb_apply encryptedRoutes_def
          setRefreshTokenCookieInterceptor_def Let_def split: if_splits)
  qed (use assms h in \<open>auto simp: controllerCall_def bindR_def onDb_apply setRefreshTokenCookieInterceptor_def Let_def
          split: if_splits\<close>)
qed

text \<open>C34: Replies match their documentation. Whenever a route answers a request with success, on any database and for any
  request, the status is the one its documentation announces, and the body is JSON that meets the documented
  schema: pages of posts and single posts with texts for the encrypted identifiers and the list of
  nicknames, the pagination data, profiles, tokens, and the fixed success message of every writing route.\<close>

theorem replies_match_documentation:
  assumes "aes_cipher (aesLib (appLibs X))" and "documented r = Some (status, schema)"
    and "controllerCall X r now req (d, cs) = (Inr body, s')"
  shows "successStatus r = status \<and> (\<exists>j. body = Some j \<and> meets schema j)"
proof -
  let ?A = "aesLib (appLibs X)" and ?key = "pkSecretKey (appConfig X)"
  obtain v w d' k where h: "handlerOf X r now req d = (Inr v, d')" "body = jsonBody w"
    and e: "if r \<in> set encryptedRoutes then encryptPrimaryKeyInterceptor ?A ?key (returnR v) (saltDraw req) = (Inr w, k)
      else w = v" by (rule controller_body [OF assms(3)])
  note a = handler_answers [OF h(1)]
  have page: "meets (ApiOkResponsePaginationDto PostResponseSchema) (jsonOf w) \<and> w \<noteq> VUndefined"
    if r: "r = GetAllPosts \<or> r = GetUserPosts"
  proof -
    from a(1) [OF r] obtain p where p: "v = pageJs p" "\<forall>x \<in> set (pageData p). ptPostLikeNicknameList x \<noteq> None" by blast
    have "encryptPrimaryKeyInterceptor ?A ?key (returnR (pageJs p)) (saltDraw req) = (Inr w, k)"
      using e r p(1) by (auto simp: encryptedRoutes_def)
    from encrypted_page [OF assms(1) this] p(2) show ?thesis by (metis hidden_page_meets)
  qed
  have post: "meets PostResponseSchema (jsonOf w) \<and> w \<noteq> VUndefined" if r: "r = GetPost"
  proof -
    from a(2) [OF r] obtain p where p: "v = postJs p" "ptPostLikeNicknameList p \<noteq> None" by blast
    have "encryptPrimaryKeyInterceptor ?A ?key (returnR (postJs p)) (saltDraw req) = (Inr w, k)"
      using e r p(1) by (auto simp: encryptedRoutes_def)
    from encrypted_post [OF assms(1) this] p(2) show ?thesis by (metis hidden_post_meets jsval.distinct(11))
  qed
  have success: "jsonOf w = jsonOf successJs \<and> w \<noteq> VUndefined" if "v = successJs"
    using e success_unchanged [of ?A ?key "saltDraw req" w k] that
    by (auto simp: encryptPrimaryKeyInterceptor_def successJs_def split: if_splits)
  show ?thesis
    using assms(2) page post success success_documented a(3-5) e
    by (cases r) (auto simp: h(2) jsonBody_def successStatus_def methodOf_def encryptedRoutes_def profileJs_def jwtJs_def
        JwtSchema_def UserInfoSchema_def)
qed

theorem replies_match_documentation_witness:
  "\<exists>j. fst (controllerCall demoApp GetAllPosts 9 postOne (demoNamed, [])) = Inr (Some j) \<and>
     meets (ApiOkResponsePaginationDto PostResponseSchema) j"
proof -
  obtain p d' where "handlerOf demoApp GetAllPosts 9 postOne demoNamed = (Inr (pageJs p), d')" by (rule demo_lists_posts)
  then obtain body where b: "controllerCall demoApp GetAllPosts 9 postOne (demoNamed, []) = (Inr body, (d', []))"
    by (rule post_route_runs) simp
  have "aes_cipher (aesLib (appLibs demoApp))" using toyc.aes_cipher_axioms by (simp add: toyLibs_def)
  from replies_match_documentation [OF this _ b] b show ?thesis by auto
qed

end
