(* ===== verification/Logging.thy ===== *)
theory Logging
  imports AuthGuard Post Setup
begin

text \<open>
  The lines the services, the guard and the exception filters write to the logger. The operations of
  the theories \<open>UserAuth\<close>, \<open>AuthGuard\<close>, \<open>UserInfo\<close> and \<open>Post\<close> that log appear here once more, statement by
  statement, with their log statements, on a state that carries the log beside the database. Stack
  traces, and what the debugging fields of library errors serialise to, are left out.
\<close>

section \<open>Lines\<close>

text \<open>The value a template literal prints into its brackets: a text, \<open>JSON.stringify\<close> of a value or of an error.\<close>

datatype logValue =
    NoValue
  | PlainText string
  | Stringified json
  | StringifiedError exn
  | StringifiedResponse httpResponse
  | StringifiedRequest string string "string \<Rightarrow> header"

record logLine =
  lineLevel :: string
  lineText :: string
  lineValue :: logValue

definition infoLine :: "string \<Rightarrow> logValue \<Rightarrow> logLine" where
  "infoLine text v = \<lparr>lineLevel = ''info'', lineText = text, lineValue = v\<rparr>"

definition warnLine :: "string \<Rightarrow> logValue \<Rightarrow> logLine" where
  "warnLine text v = \<lparr>lineLevel = ''warn'', lineText = text, lineValue = v\<rparr>"

definition errorLine :: "string \<Rightarrow> logValue \<Rightarrow> logLine" where
  "errorLine text v = \<lparr>lineLevel = ''error'', lineText = text, lineValue = v\<rparr>"

type_synonym ('d, 'a) logged = "('d \<times> logLine list, exn, 'a) run"

definition logR :: "logLine \<Rightarrow> ('d, unit) logged" where
  "logR l = (\<lambda>(d, ls). (Inr (), (d, ls @ [l])))"

definition silent :: "('d, exn, 'a) run \<Rightarrow> ('d, 'a) logged" where
  "silent m = (\<lambda>(d, ls). case m d of (res, d') \<Rightarrow> (res, (d', ls)))"

text \<open>\<open>undefined\<close> in a template literal.\<close>

definition printed :: "string option \<Rightarrow> string" where
  "printed t = (case t of None \<Rightarrow> ''undefined'' | Some s \<Rightarrow> s)"

definition roleName :: "UserRole \<Rightarrow> string" where
  "roleName r = (case r of ADMIN \<Rightarrow> ''ADMIN'' | USER \<Rightarrow> ''USER'')"

definition sessionJson :: "UserSessionEntity \<Rightarrow> json" where
  "sessionJson ses =
     JObj [(''uid'', JStr (seUid ses)), (''refreshToken'', JStr (seRefreshToken ses)),
       (''userRole'', JStr (roleName (seUserRole ses)))]"

fun tokenExpired :: "exn \<Rightarrow> bool" where
  "tokenExpired (OtherError n m) = (n = ''TokenExpiredError'')"
| "tokenExpired _ = False"

section \<open>Accounts\<close>

definition updateSessionLogged :: "('d, 'z) ormOps_scheme \<Rightarrow> UserSessionEntity \<Rightarrow> ('d, unit) logged" where
  "updateSessionLogged D ses =
     bindR (silent (updateUserAuthByUserSessionEntity D ses)) (\<lambda>_.
       logR (infoLine ''UserAuthEntity is updated.'' (Stringified (sessionJson ses))))"

definition jwtCreateLogged ::
  "('d, 'z) ormOps_scheme \<Rightarrow> libs \<Rightarrow> authConfig \<Rightarrow> nat \<Rightarrow> nat \<Rightarrow> string \<Rightarrow> UserRole \<Rightarrow> ('d, JwtDto) logged" where
  "jwtCreateLogged D L cfg now draw uid role =
     bindR (liftR (fst (bindR (generateToken L cfg now uid ACCESS_TOKEN) (\<lambda>a.
              bindR (generateToken L cfg now uid REFRESH_TOKEN) (\<lambda>r. returnR (a, r))) draw)))
       (\<lambda>(a, r).
          bindR (updateSessionLogged D \<lparr>seUid = uid, seRefreshToken = r, seUserRole = role\<rparr>)
            (\<lambda>_. returnR \<lparr>accessToken = a, refreshToken = r\<rparr>))"

definition verifyAccessTokenLogged ::
  "('d, 'z) ormOps_scheme \<Rightarrow> libs \<Rightarrow> authConfig \<Rightarrow> nat \<Rightarrow> string option \<Rightarrow> ('d, exn option) logged" where
  "verifyAccessTokenLogged D L cfg now token =
     catchR (bindR (liftR (tokenUid L cfg now token)) (\<lambda>uid.
               bindR (silent (getUserSessionEntityByUid D now uid)) (\<lambda>_. returnR None)))
       (\<lambda>e. bindR
          (if tokenExpired e then logR (warnLine ''The access token has expired.'' (PlainText (printed token)))
           else logR (errorLine '''' (StringifiedError e)))
          (\<lambda>_. returnR (Some e)))"

definition verifyRefreshTokenLogged ::
  "('d, 'z) ormOps_scheme \<Rightarrow> libs \<Rightarrow> authConfig \<Rightarrow> nat \<Rightarrow> string option \<Rightarrow> ('d, exn + UserSessionEntity) logged" where
  "verifyRefreshTokenLogged D L cfg now token =
     catchR (bindR (liftR (tokenUid L cfg now token)) (\<lambda>uid.
               bindR (silent (getUserSessionEntityByUid D now uid)) (\<lambda>ses.
                 if token \<noteq> Some (seRefreshToken ses)
                 then bindR (logR (errorLine ''Refresh Token does not match!'' (PlainText (printed token)))) (\<lambda>_.
                        returnR (Inl (AuthInvalidRefreshTokenException (Some ''Refresh Token does not match!''))))
                 else returnR (Inr ses))))
       (\<lambda>e. bindR
          (if tokenExpired e then logR (warnLine ''The refresh token has expired.'' (PlainText (printed token)))
           else logR (errorLine '''' (StringifiedError e)))
          (\<lambda>_. returnR (Inl e)))"

definition reissueLogged ::
  "('d, 'z) ormOps_scheme \<Rightarrow> libs \<Rightarrow> authConfig \<Rightarrow> nat \<Rightarrow> nat \<Rightarrow> UserSessionEntity \<Rightarrow> ('d, JwtDto) logged" where
  "reissueLogged D L cfg now draw ses =
     bindR (logR (infoLine ''JWT has been reissued.'' (PlainText (seUid ses)))) (\<lambda>_.
       jwtCreateLogged D L cfg now draw (seUid ses) (seUserRole ses))"

definition createNewUserLogged ::
  "('d, 'z) ormOps_scheme \<Rightarrow> libs \<Rightarrow> authConfig \<Rightarrow> nat \<Rightarrow> nat \<Rightarrow> UserAuthRequestDto \<Rightarrow> ('d, JwtDto) logged" where
  "createNewUserLogged D L cfg now draw dto =
     bindR (silent (userAuthIsExist D (reqUid dto))) (\<lambda>isExist.
       if isExist then throwR (UserAlreadyExistsException (reqUid dto))
       else
         (let salt = showNat now in
          bindR (silent (saveUserAuthEntity D (toUserAuthEntity (userAuthDaoFrom
                   \<lparr>iaUid = reqUid dto, iaPassword = hashingPassword L (reqPassword dto) salt,
                    iaSalt = salt, iaSocialYN = ''N'', iaRefreshToken = '''', iaUserRole = USER\<rparr>)))) (\<lambda>_.
          bindR (jwtCreateLogged D L cfg now draw (reqUid dto) USER) (\<lambda>jwtDto.
          bindR (logR (infoLine ''A new user has been created.'' (PlainText (reqUid dto)))) (\<lambda>_.
            returnR jwtDto)))))"

definition loginLogged ::
  "('d, 'z) ormOps_scheme \<Rightarrow> libs \<Rightarrow> authConfig \<Rightarrow> nat \<Rightarrow> nat \<Rightarrow> UserAuthRequestDto \<Rightarrow> ('d, JwtDto) logged" where
  "loginLogged D L cfg now draw dto =
     bindR (silent (getUserAuthEntity D (reqUid dto))) (\<lambda>e.
       if hashingPassword L (reqPassword dto) (uaSalt e) \<noteq> uaPassword e
       then throwR AuthInvalidPasswordException
       else jwtCreateLogged D L cfg now draw (uaUid e) (uaUserRole e))"

definition decodeCredentialTokenLogged ::
  "libs \<Rightarrow> authConfig \<Rightarrow> nat \<Rightarrow> string \<Rightarrow> ('d, string option) logged" where
  "decodeCredentialTokenLogged L cfg now token =
     (case verifyIdToken L now token (googleClientId cfg) of
        Inl e \<Rightarrow>
          bindR (logR (warnLine ''CredentialToken is not allowed.'' (PlainText token))) (\<lambda>_.
            throwR (AuthInvalidOauthTokenException (Some ''This token is not allowed.'')))
      | Inr ticket \<Rightarrow> returnR ticket)"

definition googleOauthLoginLogged ::
  "('d, 'z) ormOps_scheme \<Rightarrow> libs \<Rightarrow> authConfig \<Rightarrow> nat \<Rightarrow> nat \<Rightarrow> OauthRequestDto \<Rightarrow> ('d, JwtDto) logged" where
  "googleOauthLoginLogged D L cfg now draw dto =
     bindR (decodeCredentialTokenLogged L cfg now (credentialToken dto)) (\<lambda>email.
       if email = None \<or> email = Some ''''
       then throwR (AuthInvalidOauthTokenException (Some ''Invalid Google token payload.''))
       else
         (let uid = the email in
          bindR (silent (userAuthIsExist D uid)) (\<lambda>isExist.
          bindR (if \<not> isExist
                 then bindR (silent (saveUserAuthEntity D (toUserAuthEntity (userAuthDaoFrom
                        \<lparr>iaUid = uid, iaPassword = ''-'', iaSalt = ''-'', iaSocialYN = ''Y'',
                         iaRefreshToken = '''', iaUserRole = USER\<rparr>)))) (\<lambda>_.
                        logR (infoLine ''A new social user has been created.'' (PlainText uid)))
                 else returnR ()) (\<lambda>_.
          bindR (silent (getUserAuthEntity D uid)) (\<lambda>e.
            jwtCreateLogged D L cfg now draw (uaUid e) (uaUserRole e))))))"

definition refreshLogged ::
  "('d, 'z) ormOps_scheme \<Rightarrow> libs \<Rightarrow> authConfig \<Rightarrow> nat \<Rightarrow> nat \<Rightarrow> string option \<Rightarrow> ('d, JwtDto) logged" where
  "refreshLogged D L cfg now draw token =
     (if token = None \<or> token = Some '''' then throwR AuthRefreshTokenRequiredException
      else bindR (verifyRefreshTokenLogged D L cfg now token) (\<lambda>res.
        (case res of
           Inl e \<Rightarrow> throwR (AuthInvalidRefreshTokenException None)
         | Inr ses \<Rightarrow> reissueLogged D L cfg now draw ses)))"

section \<open>The guard\<close>

definition canActivateLogged ::
  "('d, 'z) ormOps_scheme \<Rightarrow> libs \<Rightarrow> authConfig \<Rightarrow> nat \<Rightarrow> bool option \<Rightarrow> UserRole list option \<Rightarrow>
   httpRequest \<Rightarrow> ('d, bool \<times> httpRequest) logged" where
  "canActivateLogged D L cfg now pub roles request =
     (let req = setReqHeader ''authenticatedUser'' Undefined request in
      if pub = Some True then returnR (True, req)
      else if authorizationOf req = ''''
      then bindR (logR (warnLine ''Authorization header is a non-existent request.''
                    (StringifiedRequest (httpMethod req) (httpPath req) (httpHeaders req)))) (\<lambda>_.
             throwR (AuthUnauthorizedException None))
      else
        bindR (verifyAccessTokenLogged D L cfg now (bearerPiece (authorizationOf req))) (\<lambda>verifyResult.
          (case verifyResult of
             Some e \<Rightarrow> throwR (AuthUnauthorizedException None)
           | None \<Rightarrow>
               bindR (verifyRefreshTokenLogged D L cfg now (httpCookies req ''refreshToken'')) (\<lambda>res.
                 (case res of
                    Inl e \<Rightarrow> throwR (AuthUnauthorizedException None)
                  | Inr ses \<Rightarrow>
                      if (case roles of None \<Rightarrow> True | Some rs \<Rightarrow> seUserRole ses \<in> set rs)
                      then returnR (True, setReqHeader ''authenticatedUser'' (Single (seUid ses)) req)
                      else bindR (logR (warnLine ''Do not have role to this path..''
                             (Stringified (JObj [(''method'', JStr (httpMethod req)), (''url'', JStr (httpPath req)),
                                (''role'', JArr (map (\<lambda>r. JStr (roleName r)) (case roles of None \<Rightarrow> [] | Some rs \<Rightarrow> rs))),
                                (''user'', JStr (seUid ses)), (''userRole'', JStr (roleName (seUserRole ses)))])))) (\<lambda>_.
                             returnR (False, req)))))))"

section \<open>Profiles, likes and path parameters\<close>

definition createUserInfoLogged :: "('d, 'z) ormOps_scheme \<Rightarrow> UserInfoDto \<Rightarrow> ('d, unit) logged" where
  "createUserInfoLogged D dto =
     bindR (silent (userInfoIsExist D (dtoUid dto))) (\<lambda>isExist.
       if isExist then throwR (UserInfoAlreadyExistsException (dtoUid dto))
       else bindR (silent (saveUserInfoEntity D (toUserInfoEntity (userInfoDaoFrom (spreadUserInfoDto dto))))) (\<lambda>_.
         logR (infoLine ''UserInfo has been created.'' (PlainText (dtoUid dto)))))"

definition updateUserInfoLogged :: "('d, 'z) ormOps_scheme \<Rightarrow> UserInfoDto \<Rightarrow> ('d, unit) logged" where
  "updateUserInfoLogged D dto =
     bindR (silent (userInfoIsExist D (dtoUid dto))) (\<lambda>isExist.
       if \<not> isExist then throwR (UserInfoNotFoundException (dtoUid dto))
       else bindR (silent (updateUserInfoEntity D (toUserInfoEntity (userInfoDaoFrom (spreadUserInfoDto dto))))) (\<lambda>_.
         logR (infoLine ''UserInfo has been updated.'' (PlainText (dtoUid dto)))))"

definition deleteUserInfoLogged :: "('d, 'z) ormOps_scheme \<Rightarrow> string \<Rightarrow> ('d, unit) logged" where
  "deleteUserInfoLogged D uid =
     bindR (silent (userInfoIsExist D uid)) (\<lambda>isExist.
       if \<not> isExist then throwR (UserInfoNotFoundException uid)
       else bindR (silent (deleteUserInfoByUid D uid)) (\<lambda>_.
         logR (infoLine ''UserInfo has been deleted.'' (PlainText uid))))"

definition likeJson :: "PostLikeDto \<Rightarrow> json" where
  "likeJson dto = JObj [(''postId'', JNum (ldPostId dto)), (''uid'', JStr (ldUid dto))]"

definition addPostLikeUserLogged :: "('d, 'z) ormOps_scheme \<Rightarrow> PostLikeDto \<Rightarrow> ('d, unit) logged" where
  "addPostLikeUserLogged D dto =
     (let e = toPostLikeEntity dto in
      bindR (silent (postLikeIsExist D e)) (\<lambda>isExist.
        if isExist then throwR PostLikeAlreadyExistsException
        else bindR (silent (savePostLikeEntity D e)) (\<lambda>_.
          logR (infoLine ''addPostLikeUser'' (Stringified (likeJson dto))))))"

definition removePostLikeUserLogged :: "('d, 'z) ormOps_scheme \<Rightarrow> PostLikeDto \<Rightarrow> ('d, unit) logged" where
  "removePostLikeUserLogged D dto =
     (let e = toPostLikeEntity dto in
      bindR (silent (postLikeIsExist D e)) (\<lambda>isExist.
        if \<not> isExist then throwR PostLikeNotFoundException
        else bindR (silent (removePostLikeEntity D e)) (\<lambda>_.
          logR (infoLine ''removePostLikeUser'' (Stringified (likeJson dto))))))"

text \<open>The message of the failure is not kept.\<close>

definition decryptPrimaryKeyPipeLogged :: "aes \<Rightarrow> string \<Rightarrow> string \<Rightarrow> ('d, string) logged" where
  "decryptPrimaryKeyPipeLogged A key val =
     (case decryptPrimaryKeyPipe A key val of
        Inl e \<Rightarrow>
          bindR (logR (warnLine ''Failed to decrypt primary key parameter.'' (Stringified (JObj [(''value'', JStr val)])))) (\<lambda>_.
            throwR e)
      | Inr decrypted \<Rightarrow> returnR decrypted)"

section \<open>Exception filters\<close>

text \<open>The line is one JSON object; its \<open>url\<close> stands as the text and its \<open>response\<close> as the value.\<close>

definition writeLog :: "string \<Rightarrow> logValue \<Rightarrow> logLine" where
  "writeLog url response = errorLine url response"

definition mapToErrorCodeLog :: "nat \<Rightarrow> logLine list" where
  "mapToErrorCodeLog status =
     (case HTTP_STATUS_TO_ERROR_CODE status of
        None \<Rightarrow> [warnLine ''Unmapped HttpStatus, falling back to COMMON_INTERNAL_ERROR'' (PlainText (showNat status))]
      | Some code \<Rightarrow> [])"

text \<open>The lines of the filter that answers the exception.\<close>

fun filterLog :: "string \<Rightarrow> exn \<Rightarrow> logLine list" where
  "filterLog url (BaseException code msg v) =
     [writeLog url (Stringified (JObj ([(''errorCode'', JNum code), (''message'', JStr msg)] @
        (case v of None \<Rightarrow> [] | Some x \<Rightarrow> [(''value'', JStr x)]))))]"
| "filterLog url (HttpException status response) =
     writeLog url (StringifiedResponse response) # mapToErrorCodeLog status"
| "filterLog url e = [writeLog url (StringifiedError e)]"

lemma every_failure_is_logged:
  "\<exists>l ls. filterLog url e = l # ls \<and> lineLevel l = ''error'' \<and> lineText l = url \<and> length ls \<le> 1"
  by (cases e) (auto simp: writeLog_def errorLine_def mapToErrorCodeLog_def split: option.split)

section \<open>Logging changes nothing else\<close>

text \<open>An action with its log statements simulates the action without them, the log forgotten.\<close>

named_theorems forget_intros "actions with their log statements, the log forgotten"

lemma forget_silent [forget_intros]: "sim fst (silent m) m"
  by (auto simp: sim_def silent_def split: prod.split)

lemma forget_log [forget_intros]: "sim fst (k ()) m \<Longrightarrow> sim fst (bindR (logR l) k) m"
  by (auto simp: sim_def bindR_def logR_def)

lemma forget_last_log [forget_intros]: "sim fst (bindR (silent m) (\<lambda>_. logR l)) m"
  by (auto simp: sim_def bindR_def logR_def silent_def split: prod.split sum.split)

lemma forget_log_either [forget_intros]:
  "sim fst (k ()) m \<Longrightarrow> sim fst (bindR (if b then logR l else logR l') k) m"
  by (auto simp: sim_def bindR_def logR_def)

lemma forget_updateSession: "sim fst (updateSessionLogged D ses) (updateUserAuthByUserSessionEntity D ses)"
  unfolding updateSessionLogged_def by (rule forget_last_log)

lemma forget_jwtCreate: "sim fst (jwtCreateLogged D L cfg now draw uid role) (jwtCreate D L cfg now draw uid role)"
  unfolding jwtCreateLogged_def jwtCreate_def by (intro sim_intros sim_case_pair_fun forget_updateSession)

lemma forget_verify:
  "sim fst (verifyAccessTokenLogged D L cfg now token) (verifyAccessToken D L cfg now token)"
  "sim fst (verifyRefreshTokenLogged D L cfg now token) (verifyRefreshToken D L cfg now token)"
  unfolding verifyAccessTokenLogged_def verifyAccessToken_def verifyRefreshTokenLogged_def verifyRefreshToken_def
  by (rule sim_catch sim_bind sim_if sim_lift sim_return forget_intros)+


lemma forget_reissue:
  "sim fst (reissueLogged D L cfg now draw ses) (reissueJwtByUserSessionEntity D L cfg now draw ses)"
  unfolding reissueLogged_def reissueJwtByUserSessionEntity_def by (intro forget_log forget_jwtCreate)

lemma forget_decodeCredentialToken:
  "sim fst (decodeCredentialTokenLogged L cfg now token) (liftR (decodeCredentialToken L cfg now token))"
  by (auto simp: sim_def decodeCredentialTokenLogged_def decodeCredentialToken_def run_simps logR_def split: sum.split)

text \<open>A value that is returned after the line is written.\<close>

lemma forget_log_return:
  assumes "sim fst m m'"
  shows "sim fst (bindR m (\<lambda>x. bindR (logR l) (\<lambda>_. returnR x))) m'"
proof -
  have "sim fst (bindR m (\<lambda>x. bindR (logR l) (\<lambda>_. returnR x))) (bindR m' returnR)"
    by (intro sim_bind assms forget_log sim_return)
  moreover have "bindR m' returnR = m'" by (rule ext) (simp add: bindR_def returnR_def split: prod.split sum.split)
  ultimately show ?thesis by simp
qed

text \<open>The four entry points to the accounts, with their log statements.\<close>

fun authCallLogged ::
  "('d, 'z) ormOps_scheme \<Rightarrow> libs \<Rightarrow> authConfig \<Rightarrow> nat \<Rightarrow> nat \<Rightarrow> authOp \<Rightarrow> ('d, JwtDto) logged" where
  "authCallLogged D L cfg now draw (Join dto) = createNewUserLogged D L cfg now draw dto"
| "authCallLogged D L cfg now draw (Login dto) = loginLogged D L cfg now draw dto"
| "authCallLogged D L cfg now draw (Oauth dto) = googleOauthLoginLogged D L cfg now draw dto"
| "authCallLogged D L cfg now draw (Refresh token) = refreshLogged D L cfg now draw token"

lemmas forget_account = forget_silent forget_log_return forget_last_log forget_jwtCreate forget_verify forget_reissue
  forget_decodeCredentialToken

lemma forget_authCall: "sim fst (authCallLogged D L cfg now draw op) (authCall D L cfg now draw op)"
proof (cases op)
  case (Join dto)
  show ?thesis unfolding Join authCallLogged.simps authCall.simps createNewUserLogged_def createNewUser_def Let_def
    by (intro sim_bind sim_if sim_throw forget_account)
next
  case (Login dto)
  show ?thesis unfolding Login authCallLogged.simps authCall.simps loginLogged_def login_def
    by (intro sim_bind sim_if sim_throw forget_account)
next
  case (Oauth dto)
  show ?thesis unfolding Oauth authCallLogged.simps authCall.simps googleOauthLoginLogged_def googleOauthLogin_def Let_def
    by (rule sim_bind sim_if sim_throw sim_return forget_account)+
next
  case (Refresh token)
  show ?thesis unfolding Refresh authCallLogged.simps authCall.simps refreshLogged_def refresh_def
    by (rule sim_bind sim_if sim_throw sim_case_sum forget_account)+
qed

lemma forget_canActivate:
  "sim fst (canActivateLogged D L cfg now pub roles request) (canActivate D L cfg now pub roles request)"
  unfolding canActivateLogged_def canActivate_def Let_def
  by (rule sim_if sim_throw sim_return sim_case_option sim_case_sum sim_bind forget_account forget_log)+

lemma forget_profiles:
  "sim fst (createUserInfoLogged D dto) (svcCreateUserInfo D dto)"
  "sim fst (updateUserInfoLogged D dto) (svcUpdateUserInfo D dto)"
  "sim fst (deleteUserInfoLogged D uid) (svcDeleteUserInfoByUid D uid)"
  unfolding createUserInfoLogged_def svcCreateUserInfo_def updateUserInfoLogged_def svcUpdateUserInfo_def
    deleteUserInfoLogged_def svcDeleteUserInfoByUid_def
  by (rule sim_if sim_throw forget_last_log sim_bind forget_silent)+

lemma forget_likes:
  "sim fst (addPostLikeUserLogged D ldto) (addPostLikeUser D ldto)"
  "sim fst (removePostLikeUserLogged D ldto) (removePostLikeUser D ldto)"
  unfolding addPostLikeUserLogged_def addPostLikeUser_def removePostLikeUserLogged_def removePostLikeUser_def Let_def
  by (rule sim_if sim_throw forget_last_log sim_bind forget_silent)+

lemma forget_pipe: "sim fst (decryptPrimaryKeyPipeLogged A key val) (liftR (decryptPrimaryKeyPipe A key val))"
  unfolding decryptPrimaryKeyPipeLogged_def
  by (auto simp: sim_def run_simps logR_def split: sum.split)

section \<open>What a sign-in writes\<close>

definition sessionLine :: "string \<Rightarrow> string \<Rightarrow> UserRole \<Rightarrow> logLine" where
  "sessionLine uid tok role = infoLine ''UserAuthEntity is updated.''
     (Stringified (sessionJson \<lparr>seUid = uid, seRefreshToken = tok, seUserRole = role\<rparr>))"

lemma log_jwtCreate:
  "jwtCreateLogged D L cfg now draw uid role (d, ls) = (res, (d', ls')) \<Longrightarrow>
   ls' = ls @ (case res of Inl e \<Rightarrow> [] | Inr tok \<Rightarrow> [sessionLine uid (refreshToken tok) role])"
  by (auto simp: jwtCreateLogged_def updateSessionLogged_def run_simps silent_def logR_def sessionLine_def
      split: sum.splits prod.splits)

lemma log_createNewUser:
  "createNewUserLogged D L cfg now draw dto (d, ls) = (res, (d', ls')) \<Longrightarrow>
   ls' = ls @ (case res of Inl e \<Rightarrow> []
     | Inr tok \<Rightarrow> [sessionLine (reqUid dto) (refreshToken tok) USER,
         infoLine ''A new user has been created.'' (PlainText (reqUid dto))])"
  by (auto simp: createNewUserLogged_def run_simps silent_def logR_def Let_def dest!: log_jwtCreate
      split: sum.splits prod.splits if_splits)

lemma log_login:
  "loginLogged D L cfg now draw dto (d, ls) = (res, (d', ls')) \<Longrightarrow>
   ls' = ls @ (case res of Inl e \<Rightarrow> []
     | Inr tok \<Rightarrow> (case fst (getUserAuthEntity D (reqUid dto) d) of Inl e \<Rightarrow> []
         | Inr e \<Rightarrow> [sessionLine (uaUid e) (refreshToken tok) (uaUserRole e)]))"
  by (auto simp: loginLogged_def run_simps silent_def dest!: log_jwtCreate split: sum.splits prod.splits if_splits)

text \<open>Every sign-in that succeeds writes the line of the session it stored.\<close>

lemma log_signed_in:
  assumes "authCallLogged D L cfg now draw op (d, ls) = (Inr tok, (d', ls'))"
  shows "\<exists>new uid role. ls' = ls @ new \<and> sessionLine uid (refreshToken tok) role \<in> set new"
proof (cases op)
  case (Join dto)
  from log_createNewUser [OF assms [unfolded Join authCallLogged.simps]] show ?thesis by fastforce
next
  case (Login dto)
  with assms show ?thesis
    by (force simp: loginLogged_def run_simps silent_def dest!: log_jwtCreate split: sum.splits prod.splits if_splits)
next
  case (Oauth dto)
  have grown: "\<exists>new. ls1 = ls @ new" if "decodeCredentialTokenLogged L cfg now token (d, ls) = (r, (d1, ls1))"
    for token r d1 ls1
    using that by (auto simp: decodeCredentialTokenLogged_def run_simps logR_def split: sum.splits)
  show ?thesis
    using assms Oauth
    by (force simp: googleOauthLoginLogged_def run_simps silent_def logR_def Let_def
        dest!: log_jwtCreate grown split: sum.splits prod.splits if_splits)
next
  case (Refresh token)
  have grown: "\<exists>new. ls1 = ls @ new" if "verifyRefreshTokenLogged D L cfg now token (d, ls) = (r, (d1, ls1))"
    for token r d1 ls1
    using that by (auto simp: verifyRefreshTokenLogged_def run_simps silent_def logR_def
        split: sum.splits prod.splits if_splits)
  show ?thesis
    using assms Refresh
    by (force simp: refreshLogged_def reissueLogged_def run_simps logR_def dest!: log_jwtCreate grown
        split: sum.splits prod.splits if_splits)
qed

section \<open>Properties\<close>

text \<open>Logging changes nothing else. With their log statements, the sign-ins, the guard, the writes of
  profiles and likes and the path parameters give the same answers and leave the same database,
  whatever was logged before.\<close>

lemma logging_changes_nothing_else:
  "sim fst (authCallLogged D L cfg now draw op) (authCall D L cfg now draw op)"
  "sim fst (canActivateLogged D L cfg now pub roles request) (canActivate D L cfg now pub roles request)"
  "sim fst (createUserInfoLogged D dto) (svcCreateUserInfo D dto)"
  "sim fst (updateUserInfoLogged D dto) (svcUpdateUserInfo D dto)"
  "sim fst (deleteUserInfoLogged D uid) (svcDeleteUserInfoByUid D uid)"
  "sim fst (addPostLikeUserLogged D ldto) (addPostLikeUser D ldto)"
  "sim fst (removePostLikeUserLogged D ldto) (removePostLikeUser D ldto)"
  "sim fst (decryptPrimaryKeyPipeLogged A key val) (liftR (decryptPrimaryKeyPipe A key val))"
  by (rule forget_authCall forget_canActivate forget_profiles forget_likes forget_pipe)+



text \<open>C39: Every sign-in writes a usable refresh token to the log. A successful registration, login, Google
  login or refresh adds a line at level \<open>info\<close> that holds the new refresh token as plain text;
  some transport of the logger writes that level in every environment, with no format that masks
  it; and until its lifetime is over the token read from the log is accepted as the session of the
  user who signed in.\<close>

theorem log_reveals_refresh_token:
  assumes "orm D abst" and "token_lib L lifetime" and "authGood (abst d)"
    and "authCallLogged D L cfg now draw op (d, ls) = (Inr tok, (d', ls'))"
    and "t div 1000 < now div 1000 + lifetime (refreshTokenExpireTime cfg)"
  shows "(\<exists>new line ses. ls' = ls @ new \<and> line \<in> set new \<and> lineValue line = Stringified (sessionJson ses) \<and>
      seRefreshToken ses = refreshToken tok \<and>
      (\<exists>transport \<in> set (logTransports (winstonConfig env)). writes (lineLevel line) transport)) \<and>
    logFormats (winstonConfig env) = [Timestamp, NestLike ''PersonalBlog'' True] \<and>
    (\<exists>uid role. subjectOf L cfg now op = Some uid \<and>
      fst (verifyRefreshToken D L cfg t (Some (refreshToken tok)) d') =
        Inr (Inr \<lparr>seUid = uid, seRefreshToken = refreshToken tok, seUserRole = role\<rparr>))"
proof (intro conjI)
  from log_signed_in [OF assms(4)] obtain new uid role where
    n: "ls' = ls @ new" "sessionLine uid (refreshToken tok) role \<in> set new" by auto
  then show "\<exists>new line ses. ls' = ls @ new \<and> line \<in> set new \<and> lineValue line = Stringified (sessionJson ses) \<and>
      seRefreshToken ses = refreshToken tok \<and>
      (\<exists>transport \<in> set (logTransports (winstonConfig env)). writes (lineLevel line) transport)"
    using logged_everywhere [of env]
    by (intro exI [of _ new] exI [of _ "sessionLine uid (refreshToken tok) role"]
          exI [of _ "\<lparr>seUid = uid, seRefreshToken = refreshToken tok, seUserRole = role\<rparr>"] conjI)
      (auto simp: sessionLine_def infoLine_def)
  from sim_apply [OF forget_authCall assms(4)] have "authCall D L cfg now draw op d = (Inr tok, d')" by simp
  from auth_on [OF assms(1-3) this] obtain uid role where
    g: "authGood (abst d')" "subjectOf L cfg now op = Some uid" "signedIn L cfg now uid role tok (abst d) (abst d')" by auto
  with issued_valid [OF assms(2) _ assms(5)] have "tokenUid L cfg t (Some (refreshToken tok)) = Inr uid"
    by (simp add: signedIn_def)
  with g(3) have "refreshAnswer L cfg t (Some (refreshToken tok)) (abst d') =
      Inr \<lparr>seUid = uid, seRefreshToken = refreshToken tok, seUserRole = role\<rparr>"
    by (simp add: refreshAnswer_Inr signedIn_def)
  with verify_on(1) [OF assms(1) g(1)] g(2) show "\<exists>uid role. subjectOf L cfg now op = Some uid \<and>
      fst (verifyRefreshToken D L cfg t (Some (refreshToken tok)) d') =
        Inr (Inr \<lparr>seUid = uid, seRefreshToken = refreshToken tok, seUserRole = role\<rparr>)" by simp
qed (simp add: winstonConfig_def Let_def)

theorem log_reveals_refresh_token_witness:
  "\<exists>tok d' ls' line ses. authCallLogged sqlDb (toyLibs 0) demoCfg 5000 0 (Join demoJoin) (demoDb, []) = (Inr tok, (d', ls')) \<and>
     line \<in> set ls' \<and> lineValue line = Stringified (sessionJson ses) \<and> seRefreshToken ses = refreshToken tok"
proof -
  obtain tok s' where "authCall sqlDb (toyLibs 0) demoCfg 5000 0 (Join demoJoin) demoDb = (Inr tok, s')"
    unfolding authCall.simps by (rule demo_join_runs)
  moreover obtain res d' ls' where
    r: "authCallLogged sqlDb (toyLibs 0) demoCfg 5000 0 (Join demoJoin) (demoDb, []) = (res, (d', ls'))" by (metis prod.collapse)
  ultimately have "res = Inr tok" using sim_apply [OF forget_authCall r] by simp
  with log_reveals_refresh_token [OF sql.orm_axioms toyl.token_lib_axioms demoDb_good, of 0 demoCfg 5000 0 "Join demoJoin"
      "[]" tok d' ls' 6000] r show ?thesis by (simp add: demoCfg_def) blast
qed

end
