(* ===== verification/Spec2Isabelle.thy ===== *)
theory Spec2Isabelle
  imports Concurrency JoinRace Health Schema Setup Modules ApiDoc Logging
begin

text \<open>
  A verification of the Personal Blog Service (\<open>src/src/\<close>): a NestJS server for accounts, profiles, posts
  and likes over MySQL (TypeORM) and Redis (ioredis), with token authentication, encrypted
  identifiers, cached queries, rate limiting and idempotency keys.

  \<^bold>\<open>How a request runs.\<close> \<open>AuthGuard\<close> verifies both tokens and writes the trusted header
  \<open>authenticatedUser\<close>; \<open>CustomThrottlerGuard\<close> counts the request; \<open>IdempotencyKeyInterceptor\<close> looks the
  key up; the interceptor of the controller wraps the handler; the handler's parameters pass the
  pipes; the service calls repositories; on an exception the filters answer with status 200 and an
  error code. \<open>serve\<close> in theory \<open>App\<close> is that path for every route, \<open>serveAll\<close> in \<open>Server\<close> a sequence of requests.

  \<^bold>\<open>Theories.\<close>
  \<^item> \<open>Prelude\<close>: actions (\<open>run\<close>: a state to a result or an exception, and a state), their combinators, the
    rules \<open>keeps_intros\<close> for state predicates, decimal numerals, words over characters.
  \<^item> \<open>Errors\<close>: \<open>constant/\<close>, \<open>exception/\<close>, \<open>filter/\<close>, \<open>response/\<close>: codes, exceptions, the three filters.
  \<^item> \<open>Redis\<close>: the Redis commands the code issues, as an interface (locale \<open>redis_server\<close>, named laws of the
    documented commands) and an expiring map that provides it.
  \<^item> \<open>Idempotency\<close>, \<open>Interceptor\<close>, \<open>IdemProtocol\<close>: \<open>idempotency/idempotency.service.ts\<close> and
    \<open>interceptor/idempotency-key.interceptor.ts\<close>: the record store (locales \<open>idem_service\<close> for the client,
    \<open>redis_records\<close> for the provider), the interceptor as one action, and concurrent requests as a step
    relation with an interleaving point at every await.
  \<^item> \<open>Throttler\<close>: \<open>throttler/\<close>: the Lua script, the storage, the tracker; locale \<open>rate_limiter\<close>.
  \<^item> \<open>Utils\<close>, \<open>Crypto\<close>: \<open>utils/\<close>, \<open>pipe/decrypt-primary-key.pipe.ts\<close>, \<open>interceptor/encrypt-primary-key.interceptor.ts\<close>;
    locale \<open>aes_cipher\<close>.
  \<^item> \<open>Orm\<close>: the entities and the schema of the migration; the statements the repositories issue are the record
    \<open>ormOps\<close>, \<open>sqlDb\<close> their meaning on tables with a query cache, and the locale \<open>orm\<close> says that a database
    simulates it. Everything proved about \<open>sqlDb\<close> transfers to every such database along \<open>sim\<close>.
  \<^item> \<open>UserInfo\<close>: \<open>user/service/user-info.service.ts\<close> with its repository, DAO and DTO.
  \<^item> \<open>UserAuth\<close>: \<open>user/service/user-auth.service.ts\<close>, \<open>jwt.service.ts\<close>, the account repository; locale \<open>token_lib\<close>.
  \<^item> \<open>AuthGuard\<close>: \<open>auth/auth.guard.ts\<close> and the decorator that reads the trusted header.
  \<^item> \<open>Post\<close>, \<open>PostStore\<close>, \<open>PostRead\<close>: \<open>blog/service/\<close>, \<open>blog/repository/\<close>, \<open>blog/dao/\<close>: the operations, what writes
    do to the tables, and what reads answer.
  \<^item> \<open>Validation\<close>, \<open>Web\<close>, \<open>App\<close>: the decorators of the request bodies and the validation pipe (locale
    \<open>web_lib\<close>), the controllers with the refresh cookie, and the application of \<open>app.module.ts\<close>.
  \<^item> \<open>Replies\<close>: the JSON of the post routes and the documented shape of a post.
  \<^item> \<open>Coherence\<close>, \<open>Server\<close>, \<open>Requests\<close>: the invariant \<open>databaseOk\<close> of the whole database, what each handler may
    change (\<open>safeFor\<close>, \<open>onlyOwn\<close>), and whole requests from the client's side.
  \<^item> \<open>Interleave\<close>: concurrent requests. A database that records its statements (\<open>traceDb\<close>, another instance of the
    locale \<open>orm\<close>) turns every service and handler into a thread, and a pool of threads is a step relation
    (\<open>poolStep\<close>) in which one request at a time executes its next statement; a cached query is three of them.
  \<^item> \<open>Races\<close>, \<open>Serial\<close>, \<open>SessionRace\<close>, \<open>JoinRace\<close>, \<open>Concurrency\<close>: what every interleaving keeps, the serial ones, and
    the schedules under which the write of a session and a registration go wrong.
  \<^item> \<open>Health\<close>, \<open>Config\<close>: \<open>health/\<close> and \<open>config/\<close>: the health route and the settings from the environment.
  \<^item> \<open>Migrations\<close>, \<open>Schema\<close>: \<open>migrations/\<close> as lists of data definition statements on a catalog with indexes and foreign
    keys, and the decorators of the entities with the tables they stand for.
  \<^item> \<open>Setup\<close>: \<open>main.ts\<close>, \<open>config/\<close>, \<open>redis/\<close>: the environments of the server and of the migration tool, their connections,
    the log transports, the configuration of the application object.
  \<^item> \<open>Modules\<close>: the module tables and constructors, dependency injection on them (\<open>homeOf\<close>, \<open>build\<close>), and the
    order of the global guards and filters, which gives \<open>guards\<close> and \<open>handleException\<close> (\<open>registration_order\<close>).
  \<^item> \<open>ApiDoc\<close>: \<open>response/swagger/\<close>, \<open>decorator/api-ok-response-pagination-dto.decorator.ts\<close> and the swagger decorators of
    the response classes and routes: the documented schemas, and what it is for a value to meet one.
  \<^item> \<open>Logging\<close>: the operations that log, once more with their log statements, on a state that carries the log.
  \<^item> \<open>Scenario\<close>: a concrete application on which the instances of the properties of whole requests run.

  \<^bold>\<open>What the lemmas show.\<close> Idempotency: one execution per key and user in 24 hours under every interleaving,
  faithful replays, and the refinement of the step relation by the interceptor. Accounts: exactly the newest
  refresh token is accepted, identities come from tokens only. Profiles and posts: the services refine a
  map and a store of posts and likes (\<open>profileSpec\<close>, \<open>blogSpec\<close>), caches of sessions, profiles and likes are
  coherent, and cached pages are frozen. Rate limits hold over arbitrary intervals. This theory proves what
  takes several components: only the owner of a session changes a user's data, any sequence of requests keeps
  the database well-formed, signing in over HTTP gives access, retries are replayed, listed identifiers
  open their posts, replies have the documented shape; and three requests whose failures are reported as
  internal errors or escape the limiter. Concurrency: in every interleaving the schema stays intact and a
  change needs a refresh token that was stored for the user whose data it changes, every interleaving
  ends, and \<open>serveAll\<close> is one of them; two races show what the sequential results do not promise. Set-up:
  the migrations can be reverted and build the tables that the entities declare (so that the column
  lengths of \<open>Orm\<close> are those of the migrated tables), the migration tool works on the server's
  database in development and test, and every class of the application can be instantiated. Replies have
  the shape the generated documentation gives them. Logging changes nothing else and does not tell
  passwords apart, but every sign-in writes its refresh token to the log.

  \<^bold>\<open>Bounds.\<close> Schedules are finite lists or the step relation. The only fuel is the depth of the
  instance tree in \<open>build\<close>: five is enough for every class, and \<open>application_starts\<close> says so. Instants are
  milliseconds in \<open>nat\<close>; numbers are integers, which JavaScript's doubles represent exactly below \<open>2 ^ 53\<close> (the law of \<open>parseIntPipe\<close> and the
  property about listed identifiers say where that is needed); \<open>toISOString\<close> is right for the years 1970 to 9999.

  \<^bold>\<open>Parameters.\<close> MySQL and TypeORM (\<open>ormOps\<close>), Redis, AES, SHA-256, the token library and the Google client
  (\<open>libs\<close>), the validation and number pipes of the framework (\<open>webLib\<close>), the base class of the throttler guard
  (\<open>appThrottle\<close>, which also sets its own headers), the health check service, the exports of the library
  modules (\<open>library\<close>), the contents of the environment files. What the code
  relies on is stated in the locales, each interpreted on a concrete instance.

  \<^bold>\<open>Not modelled.\<close> Stack traces and the debugging fields of library errors in the log; the one log line of
  the idempotency interceptor and the two of the health route; the descriptions and examples in the
  swagger decorators; what the framework and the drivers do with
  the options of \<open>Setup\<close> (CORS headers, parsing of cookies, connections, log formats); routing and JSON
  parsing; \<open>types/\<close>. Interleavings are those of statements on one database (\<open>Interleave\<close>), of calls to the
  idempotency store (\<open>IdemProtocol\<close>) and of limiter scripts (\<open>Throttler\<close>), each on its own.
\<close>

section \<open>Properties of whole requests\<close>

text \<open>C2: Only the owner's session changes a user's data. Whatever request the server handles, on any
  route and with any headers, body and parameters: unless its cookie is exactly the refresh token
  stored for a user, that user's posts, likes and profile are the same afterwards.\<close>

theorem only_session_owner_changes_data:
  assumes "orm (appDb X) abst" and "token_lib (appLibs X) lifetime" and "databaseOk (abst (srvDb s))"
    and "serve X r now req s = (rep, s')"
    and "\<forall>ses. sessionOfUid (abst (srvDb s)) u = Some ses \<longrightarrow>
      httpCookies (httpPart req) ''refreshToken'' \<noteq> Some (seRefreshToken ses)"
  shows "ownData u (abst (srvDb s')) = ownData u (abst (srvDb s))"
proof -
  have "Some u \<noteq> actsAs X r (ms now) (httpPart req) (abst (srvDb s))"
    using actsAs_token [of X r "ms now" "httpPart req" "abst (srvDb s)" u] assms(5) by metis
  with serve_db [OF assms(1-4)] show ?thesis by (blast intro: onlyOwn_ownData)
qed



text \<open>A missing role is reported as an internal error. When the guard lets a signed-in user's request
  fail for its role only, the framework's forbidden exception reaches the filters, whose status
  table has no entry for 403: the client gets status 200 with code 90006 and the message
  ``Forbidden resource'', the handler does not run, the limiter does not count the request, and
  tables and idempotency records are unchanged.\<close>

lemma missing_role_answered_as_internal_error:
  assumes "orm (appDb X) abst" and "databaseOk (abst (srvDb s))"
    and "guardSpec (appLibs X) (appConfig X) (ms now) (ctlPublic (metaOf r)) (ctlRoles (metaOf r)) (httpPart req)
      (abst (srvDb s)) = Inr (False, http)"
    and "serve X r now req s = (rep, s')"
  shows "repStatus rep = 200 \<and>
    repBody rep = Some (JObj [(''code'', JNum 90006), (''message'', JStr ''Forbidden resource'')]) \<and>
    contentOf (abst (srvDb s')) = contentOf (abst (srvDb s)) \<and>
    userAuths (abst (srvDb s')) = userAuths (abst (srvDb s)) \<and>
    srvLimits s' = srvLimits s \<and> srvRecords s' = srvRecords s"
proof -
  from guards_denied [OF assms(1-3)] obtain d where
    d: "contentOf (abst d) = contentOf (abst (srvDb s))" "userAuths (abst d) = userAuths (abst (srvDb s))"
      "guards X r (ms now) (httpPart req) s = (Inl ForbiddenException, s\<lparr>srvDb := d\<rparr>)" by auto
  from serve_refused [OF d(3)] assms(4) d show ?thesis
    by (auto simp: errorReply_def failureJson_def ForbiddenException_def filter_defs mapToErrorCode_def
        HTTP_STATUS_TO_ERROR_CODE_def)
qed

text \<open>Refused requests are not counted by the rate limiter. The authentication guard runs first: on a
  route that is not public, a request without a valid pair of tokens is answered with code 10001
  before the throttler sees it, so that no number of such requests ever reaches a limit.\<close>

lemma unauthenticated_requests_not_counted:
  assumes "orm (appDb X) abst" and "databaseOk (abst (srvDb s))" and "ctlPublic (metaOf r) \<noteq> Some True"
    and "\<forall>ses. refreshAnswer (appLibs X) (appConfig X) (ms now) (httpCookies (httpPart req) ''refreshToken'')
        (abst (srvDb s)) \<noteq> Inr ses"
    and "serve X r now req s = (rep, s')"
  shows "repStatus rep = 200 \<and>
    repBody rep = Some (JObj [(''code'', JNum 10001), (''message'', JStr ''Unauthorized'')]) \<and>
    srvLimits s' = srvLimits s \<and> srvRecords s' = srvRecords s"
proof -
  have "guardSpec (appLibs X) (appConfig X) (ms now) (ctlPublic (metaOf r)) (ctlRoles (metaOf r)) (httpPart req)
      (abst (srvDb s)) = Inl (AuthUnauthorizedException None)"
    using assms(3,4) by (auto simp: guardSpec_def Let_def split: sum.split)
  from guards_denied [OF assms(1,2) this] obtain d where
    d: "guards X r (ms now) (httpPart req) s = (Inl (AuthUnauthorizedException None), s\<lparr>srvDb := d\<rparr>)" by auto
  from serve_refused [OF d] assms(5) show ?thesis
    by (auto simp: errorReply_def failureJson_def exn_defs mkBase_def filter_defs)
qed


text \<open>The reply for a post has the documented shape. On a database in good order, whatever the route of a
  single post answers with success is a JSON object with exactly the properties of the documented
  response (encrypted id and author, title, date, contents as texts, the hits as a number and the
  nicknames as a list of texts), in that order, for every request.\<close>

lemma post_reply_has_documented_shape:
  assumes "orm (appDb X) abst" and "aes_cipher (aesLib (appLibs X))" and "databaseOk (abst d)"
    and "controllerCall X GetPost now req (d, cs) = (Inr body, (d', cs'))"
  shows "\<exists>j. body = Some j \<and> conforms PostResponseDto j"
proof -
  have "GetPost \<in> {GetAllPosts, GetUserPosts, GetPost}" by simp
  then obtain v w draw' where h: "handlerOf X GetPost now req d = (Inr v, d')" "body = jsonBody w"
    "encryptPrimaryKeyInterceptor (aesLib (appLibs X)) (pkSecretKey (appConfig X)) (returnR v) (saltDraw req) = (Inr w, draw')"
    by (rule post_route_reply [OF _ assms(4)])
  from h(1) obtain i p where p: "v = postJs p"
    "getPostByPostId (appDb X) (svcGetUserInfoByUid (appDb X)) now i d = (Inr p, d')"
    by (auto simp: ctlGetPost_def bindR_def split: sum.splits prod.splits)
  have "schemaOk (abst d)" "infoFresh (abst d)" using assms(3) by (simp_all add: databaseOk_def authGood_def)
  from orm.post_read [OF assms(1) this p(2)] have "\<exists>row. p = viewOf (abst d) row"
    by (auto simp: readAnswer_def simp del: blogOf_sel split: option.splits)
  then have n: "ptPostLikeNicknameList p \<noteq> None" by (auto simp: viewOf_def)
  from encrypted_post [OF assms(2) h(3) [unfolded p(1)]] obtain gs where
    "w = VObj ''Object'' gs" "hides (aesLib (appLibs X)) (pkSecretKey (appConfig X)) p (jsonOf w)" by blast
  with hides_conforms [OF this(2) n] h(2) show ?thesis by (auto simp: jsonBody_def)
qed

text \<open>C19: The identifiers of a listing open its posts. Every item of a page, of all posts or of one user's,
  shows its post with texts for the id and the author; sent back as path parameter, as they are or
  as the router decodes them, they are resolved to exactly that post and that author.\<close>

theorem listed_ids_open_posts:
  assumes "web_lib V" and "aes_cipher (aesLib (appLibs X))" and "r \<in> {GetAllPosts, GetUserPosts}"
    and "controllerCall X r now req (d, cs) = (Inr body, (d', cs'))"
  shows "\<exists>p items. handlerOf X r now req d = (Inr (pageJs p), d') \<and>
    body = Some (pageReply items (paginationMeta p)) \<and>
    list_all2 (\<lambda>post j. \<exists>c u. j = postReply c u post \<and>
      (\<forall>c'. c' = c \<or> decodeURIComponent c = Inr c' \<longrightarrow> \<bar>ptPostId post\<bar> < 2 ^ 53 \<longrightarrow>
         postIdParam V (aesLib (appLibs X)) (pkSecretKey (appConfig X)) c' = Inr (ptPostId post)) \<and>
      (\<forall>u'. u' = u \<or> decodeURIComponent u = Inr u' \<longrightarrow> ptPostUid post \<noteq> [] \<longrightarrow>
         userParam V (aesLib (appLibs X)) (pkSecretKey (appConfig X)) u' = Inr (ptPostUid post))) (pageData p) items"
proof -
  let ?A = "aesLib (appLibs X)" and ?key = "pkSecretKey (appConfig X)"
  let ?opens = "\<lambda>post j. \<exists>c u. j = postReply c u post \<and>
      (\<forall>c'. c' = c \<or> decodeURIComponent c = Inr c' \<longrightarrow> \<bar>ptPostId post\<bar> < 2 ^ 53 \<longrightarrow>
         postIdParam V ?A ?key c' = Inr (ptPostId post)) \<and>
      (\<forall>u'. u' = u \<or> decodeURIComponent u = Inr u' \<longrightarrow> ptPostUid post \<noteq> [] \<longrightarrow>
         userParam V ?A ?key u' = Inr (ptPostUid post))"
  have ids: "?opens post j" if "hides ?A ?key post j" for post j
    using that unfolding hides_def by (blast intro: web_lib.params_encrypted [OF assms(1,2)])
  have "r \<in> {GetAllPosts, GetUserPosts, GetPost}" using assms(3) by auto
  then obtain v w draw' where h: "handlerOf X r now req d = (Inr v, d')" "body = jsonBody w"
    "encryptPrimaryKeyInterceptor ?A ?key (returnR v) (saltDraw req) = (Inr w, draw')"
    by (rule post_route_reply [OF _ assms(4)])
  from h(1) assms(3) obtain p where p: "v = pageJs p"
    by (auto simp: ctlGetAllPosts_def ctlGetUserPosts_def bindR_def split: sum.splits prod.splits)
  from encrypted_page [OF assms(2) h(3) [unfolded p]] obtain items where
    it: "jsonOf w = pageReply items (paginationMeta p)" "w \<noteq> VUndefined" "list_all2 (hides ?A ?key) (pageData p) items"
    by blast
  show ?thesis
  proof (intro exI conjI)
    show "handlerOf X r now req d = (Inr (pageJs p), d')" using h(1) p by simp
    show "body = Some (pageReply items (paginationMeta p))" using h(2) it by (simp add: jsonBody_def)
    show "list_all2 ?opens (pageData p) items"
      using it(3) by (rule list_all2_mono) (rule ids)
  qed
qed

text \<open>C33: A null title passes the validation and fails in the database. The decorators of the patch body accept
  \<open>null\<close> for an optional text, so that a patch of the user's own post with \<open>title: null\<close> reaches the
  database, which refuses it: the client gets the internal error 90006 instead of a bad request, and
  nothing changes.\<close>

theorem null_title_fails_in_database:
  assumes "orm (appDb X) abst" and "AuthenticatedUserValidation (httpPart req) = Inr u"
    and "postIdParam (appWeb X) (aesLib (appLibs X)) (pkSecretKey (appConfig X)) (pathText req) = Inr i"
    and "parentTransform (appWeb X) ''PatchPostDto'' (bodyValue req) = Inr w" and "propOf w ''title'' = VNull"
    and "blogPosts (blogOf (abst d)) i = Some p" and "peUid p = u"
    and "handlerOf X PatchPost now req d = (res, d')"
  shows "(case map_of PatchPostChecks ''title'' of None \<Rightarrow> False | Some cs \<Rightarrow> meetsChecks mail VNull cs) \<and>
    res = Inl notNull \<and> abst d' = abst d \<and> respCode (replyBody (handleException notNull)) = 90006"
proof -
  let ?dto = "readPatchPostDto w"
  have hit: "list_ex (\<lambda>p. peId p = i \<and> peUid p = u) (posts (abst d))"
    using assms(6,7) by (auto simp: list_ex_iff find_Some_iff)
  have t: "patchTitle ?dto = Some None" using assms(5) by (simp add: readPatchPostDto_def optProp_def)
  have "svcUpdatePost sqlDb u i ?dto (abst d) = (Inl notNull, abst d)"
    using hit t by (simp add: svcUpdatePost_def repoUpdatePost_def sqlUpdatePost_def Let_def)
  moreover have "handlerOf X PatchPost now req d = andSuccess (svcUpdatePost (appDb X) u i ?dto) d"
    using assms(2-4) by (simp add: ctlPatchPost_def bindR_def bodyParam_def pathAwareTransform_def)
  moreover obtain x d1 where x: "svcUpdatePost (appDb X) u i ?dto d = (x, d1)" by fastforce
  moreover have "sim abst (svcUpdatePost (appDb X) u i ?dto) (svcUpdatePost sqlDb u i ?dto)"
    using orm.sim_blogCall [OF assms(1), of "UpdatePost u i ?dto"] by simp
  from sim_apply [OF this x] calculation have "x = Inl notNull" "abst d1 = abst d" by simp_all
  ultimately have "res = Inl notNull" "abst d' = abst d" using assms(8) by (simp_all add: andSuccess_def bindR_def)
  then show ?thesis
    by (simp add: PatchPostChecks_def meetsChecks_def notNull_def filter_defs)
qed

section \<open>Instances\<close>

theorem only_session_owner_changes_data_witness:
  "\<exists>tok s1 rep s2. snd (serve demoApp JoinRoute (atMs 5000) joinRequest (demoServer demoDb)) = demoServer s1 \<and>
     serve demoApp CreateUserInfo (atMs 6000) (profileRequest tok) (demoServer s1) = (rep, s2) \<and>
     profilesOf (srvDb s2) ''c'' \<noteq> None \<and> ownData ''a'' (srvDb s2) = ownData ''a'' s1"
proof -
  obtain tok s1 where j: "signedIn (toyLibs 0) demoCfg 5000 ''c'' USER tok demoDb s1" "hasAuth s1 ''c''" "databaseOk s1"
    "contentOf s1 = contentOf demoDb" "CHR '' '' \<notin> set (accessToken tok)" "refreshToken tok \<noteq> ''''"
    "sessionOfUid s1 ''a'' = sessionOfUid demoDb ''a''"
    and first: "snd (serve demoApp JoinRoute (atMs 5000) joinRequest (demoServer demoDb)) = demoServer s1"
    by (rule demo_joins) simp
  obtain rep s2 where c: "serve demoApp CreateUserInfo (atMs 6000) (profileRequest tok) (demoServer s1) = (rep, s2)"
    "profilesOf (srvDb s2) ''c'' \<noteq> None" by (rule demo_creates_profile [OF j(1,2,5,3,4)])
  have "\<forall>ses. sessionOfUid s1 ''a'' = Some ses \<longrightarrow> refreshToken tok \<noteq> seRefreshToken ses"
    using j(6,7) by (auto simp: sessionOfUid_def demoDb_def demoAuth_def sessionOf_def)
  with only_session_owner_changes_data [OF demoApp_parts _ c(1), of "''a''"] j(3)
  have "ownData ''a'' (srvDb s2) = ownData ''a'' s1" by simp
  with first c show ?thesis by blast
qed




theorem listed_ids_open_posts_witness:
  "\<exists>(p :: PostDto PaginationDto) items. fst (controllerCall demoApp GetAllPosts 9 postOne (demoNamed, [])) = Inr (Some (pageReply items (paginationMeta p))) \<and>
     length items = length (pageData p)"
proof -
  obtain p d' where h: "handlerOf demoApp GetAllPosts 9 postOne demoNamed = (Inr (pageJs p), d')" by (rule demo_lists_posts)
  obtain body where b: "controllerCall demoApp GetAllPosts 9 postOne (demoNamed, []) = (Inr body, (d', []))"
    by (rule post_route_runs [OF h]) simp
  have aes: "aes_cipher (aesLib (appLibs demoApp))" using toyc.aes_cipher_axioms by (simp add: toyLibs_def)
  have "\<exists>(p :: PostDto PaginationDto) items. body = Some (pageReply items (paginationMeta p)) \<and> length items = length (pageData p)"
    if "\<exists>(p :: PostDto PaginationDto) items. h p \<and> body = Some (pageReply items (paginationMeta p)) \<and> list_all2 P (pageData p) items" for h P
    using that by (fastforce dest: list_all2_lengthD)
  from this [OF listed_ids_open_posts [OF toyw.web_lib_axioms aes _ b]] have
    "\<exists>(p :: PostDto PaginationDto) items. body = Some (pageReply items (paginationMeta p)) \<and> length items = length (pageData p)" by simp
  with b show ?thesis by auto
qed

theorem null_title_fails_in_database_witness:
  "fst (handlerOf demoApp PatchPost 9 postOne demoNamed) = Inl notNull"
proof -
  obtain res d' where r: "handlerOf demoApp PatchPost 9 postOne demoNamed = (res, d')" by fastforce
  have "parentTransform toyWeb ''PatchPostDto'' (bodyValue postOne) = Inr (VObj ''PatchPostDto'' [(''title'', VNull)])"
    by (simp add: toyWeb_def toyTransform_def checks_defs postOne_def Let_def meetsChecks_def propOf_def)
  moreover have "AuthenticatedUserValidation (httpPart postOne) = Inr ''a''"
    by (simp add: AuthenticatedUserValidation_def postOne_def)
  moreover have "blogPosts (blogOf demoNamed) 1 = Some (newRow 1 5 ''a'' demoPost)" "peUid (newRow 1 5 ''a'' demoPost) = ''a''"
    by (simp_all add: newRow_def)
  ultimately show ?thesis
    using null_title_fails_in_database [OF demoApp_parts(1) _ _ _ _ _ _ r, of "''a''" 1] r postOne_id
    by (simp add: propOf_def)
qed

end
